(* ===== verification/Prelude.thy ===== *)
theory Prelude
  imports Complex_Main "HOL-Library.Product_Lexorder"
begin

text \<open>
  Shared vocabulary of the development: identifiers, instants and durations; SQL tables as
  lists of rows with the statements the stores issue against them (lookup by primary key,
  UPDATE with a predicate, INSERT, COUNT, ORDER BY with LIMIT); the laws of these statements,
  collected in \<^verbatim>\<open>sql\<close>; and small facts on sums and options that every component uses.
\<close>

named_theorems sql \<open>laws of the table statements\<close>
named_theorems tx \<open>definitions of transactions, unfolded by the component proofs\<close>

text \<open>
  A UUID is an opaque identifier; \<^verbatim>\<open>uuid.Nil\<close> is the identifier 0. An instant (PostgreSQL
  \<^verbatim>\<open>timestamptz\<close>) is a whole number of microseconds, a Go \<^verbatim>\<open>time.Duration\<close> a whole number of
  nanoseconds.
\<close>

type_synonym uuid = nat
type_synonym ts = int
type_synonym dur = int

abbreviation (input) uuid_Nil :: uuid where
  "uuid_Nil \<equiv> 0"

definition Millisecond :: dur where
  "Millisecond = 1000000"

definition Second :: dur where
  "Second = 1000000000"

text \<open>Adding a Go duration to a stored instant keeps whole microseconds.\<close>

definition add_dur :: "ts \<Rightarrow> dur \<Rightarrow> ts" where
  "add_dur t d = t + d div 1000"

lemma add_dur_0 [simp]: "add_dur t 0 = t"
  by (simp add: add_dur_def)

lemma add_dur_mono: "0 \<le> d \<Longrightarrow> t \<le> add_dur t d"
  by (simp add: add_dur_def pos_imp_zdiv_nonneg_iff)

lemma add_dur_strict: "1000 \<le> d \<Longrightarrow> t < add_dur t d"
  by (simp add: add_dur_def pos_imp_zdiv_pos_iff)

text \<open>Integer division of Go truncates towards zero.\<close>

definition go_div :: "int \<Rightarrow> int \<Rightarrow> int" where
  "go_div a b = (if 0 \<le> a then a div b else - ((- a) div b))"

lemma go_div_nonneg: "0 \<le> a \<Longrightarrow> go_div a b = a div b"
  by (simp add: go_div_def)

section \<open>Tables\<close>

text \<open>SELECT of the row with a given primary key.\<close>

definition lookup :: "('r \<Rightarrow> 'k) \<Rightarrow> 'r list \<Rightarrow> 'k \<Rightarrow> 'r option" where
  "lookup key t k = find (\<lambda>r. key r = k) t"

text \<open>UPDATE ... SET f WHERE p; the number of affected rows is \<^verbatim>\<open>count_where p\<close>.\<close>

definition upd_where :: "('r \<Rightarrow> bool) \<Rightarrow> ('r \<Rightarrow> 'r) \<Rightarrow> 'r list \<Rightarrow> 'r list" where
  "upd_where p f t = map (\<lambda>r. if p r then f r else r) t"

definition count_where :: "('r \<Rightarrow> bool) \<Rightarrow> 'r list \<Rightarrow> nat" where
  "count_where p t = length (filter p t)"

text \<open>SELECT ... WHERE p ORDER BY k LIMIT n.\<close>

definition select_ordered :: "('r \<Rightarrow> bool) \<Rightarrow> ('r \<Rightarrow> 'k::linorder) \<Rightarrow> nat \<Rightarrow> 'r list \<Rightarrow> 'r list" where
  "select_ordered p k n t = take n (sort_key k (filter p t))"

abbreviation keys_distinct :: "('r \<Rightarrow> 'k) \<Rightarrow> 'r list \<Rightarrow> bool" where
  "keys_distinct key t \<equiv> distinct (map key t)"

lemma lookup_Nil [simp, sql]: "lookup key [] k = None"
  by (simp add: lookup_def)

lemma lookup_Cons [sql]: "lookup key (r # t) k = (if key r = k then Some r else lookup key t k)"
  by (simp add: lookup_def)

lemma lookup_append [sql]:
  "lookup key (t @ [r]) k = (case lookup key t k of Some x \<Rightarrow> Some x
     | None \<Rightarrow> if key r = k then Some r else None)"
  by (induction t) (auto simp: lookup_Cons)

lemma lookup_insert:
  assumes "lookup key t (key r) = None"
  shows "lookup key (t @ [r]) = (lookup key t)(key r \<mapsto> r)"
proof
  fix k
  show "lookup key (t @ [r]) k = ((lookup key t)(key r \<mapsto> r)) k"
    using assms by (auto simp: lookup_append split: option.split)
qed

lemma lookup_SomeD: "lookup key t k = Some r \<Longrightarrow> r \<in> set t \<and> key r = k"
  by (induction t) (auto simp: lookup_Cons split: if_splits)

lemma lookup_key: "lookup key t k = Some r \<Longrightarrow> key r = k"
  by (blast dest: lookup_SomeD)

lemma lookup_None_iff: "lookup key t k = None \<longleftrightarrow> k \<notin> key ` set t"
  by (induction t) (auto simp: lookup_Cons)

lemma lookup_in_set:
  assumes "keys_distinct key t"
  shows "r \<in> set t \<longleftrightarrow> lookup key t (key r) = Some r"
  using assms by (induction t) (auto simp: lookup_Cons)

lemma lookup_upd:
  assumes "\<And>r. key (f r) = key r"
  shows "lookup key (upd_where p f t) k = map_option (\<lambda>r. if p r then f r else r) (lookup key t k)"
  using assms by (induction t) (auto simp: lookup_Cons upd_where_def)

lemma lookup_upd_key:
  assumes "\<And>r. key (f r) = key r" and "lookup key t k = Some r" and "p r"
  shows "lookup key (upd_where (\<lambda>r. key r = k \<and> p r) f t) = (lookup key t)(k \<mapsto> f r)"
proof
  fix k'
  show "lookup key (upd_where (\<lambda>r. key r = k \<and> p r) f t) k' = ((lookup key t)(k \<mapsto> f r)) k'"
    using assms by (cases "lookup key t k'")
      (auto simp: lookup_upd dest: lookup_key)
qed

lemma lookup_upd_id:
  assumes "\<And>r. key (f r) = key r" and "lookup key t k = Some r"
  shows "lookup key (upd_where (\<lambda>r. key r = k) f t) = (lookup key t)(k \<mapsto> f r)"
  using lookup_upd_key [of key f t k r "\<lambda>_. True"] assms by simp

lemma upd_where_none: "count_where p t = 0 \<Longrightarrow> upd_where p f t = t"
  by (induction t) (auto simp: count_where_def upd_where_def split: if_splits)

lemma map_key_upd:
  assumes "\<And>r. key (f r) = key r"
  shows "map key (upd_where p f t) = map key t"
  using assms by (simp add: upd_where_def)

lemma keys_distinct_insert:
  "keys_distinct key t \<Longrightarrow> lookup key t (key r) = None \<Longrightarrow> keys_distinct key (t @ [r])"
  by (auto simp: lookup_None_iff)

lemma set_upd: "set (upd_where p f t) = (\<lambda>r. if p r then f r else r) ` set t"
  by (auto simp: upd_where_def)

lemma length_upd [simp]: "length (upd_where p f t) = length t"
  by (simp add: upd_where_def)

lemma count_where_append [simp]:
  "count_where p (t @ [r]) = count_where p t + (if p r then 1 else 0)"
  by (simp add: count_where_def)

lemma count_where_Nil [simp]: "count_where p [] = 0"
  by (simp add: count_where_def)

lemma count_where_le: "(\<And>r. r \<in> set t \<Longrightarrow> p r \<Longrightarrow> q r) \<Longrightarrow> count_where p t \<le> count_where q t"
  by (induction t) (auto simp: count_where_def le_SucI)

lemma count_where_upd_mono:
  assumes "\<And>r. r \<in> set t \<Longrightarrow> p r \<Longrightarrow> q (f r) \<Longrightarrow> q r"
  shows "count_where q (upd_where p f t) \<le> count_where q t"
  using assms by (induction t) (auto simp: count_where_def upd_where_def le_SucI)

lemma count_where_upd_same:
  assumes "\<And>r. q (f r) = q r"
  shows "count_where q (upd_where p f t) = count_where q t"
  using assms by (induction t) (auto simp: count_where_def upd_where_def)

lemma count_where_0_iff: "count_where p t = 0 \<longleftrightarrow> (\<forall>r\<in>set t. \<not> p r)"
  by (auto simp: count_where_def filter_empty_conv)

lemma count_where_key:
  assumes "keys_distinct key t"
  shows "count_where (\<lambda>r. key r = k \<and> p r) t
    = (case lookup key t k of None \<Rightarrow> 0 | Some r \<Rightarrow> if p r then 1 else 0)"
  using assms
proof (induction t)
  case (Cons a t)
  then show ?case
  proof (cases "key a = k")
    case True
    then have "lookup key t k = None"
      using Cons.prems by (simp add: lookup_None_iff)
    then show ?thesis
      using Cons True by (simp add: lookup_Cons count_where_def)
  next
    case False
    then show ?thesis
      using Cons by (simp add: lookup_Cons count_where_def)
  qed
qed simp

lemma count_where_id:
  assumes "keys_distinct key t"
  shows "count_where (\<lambda>r. key r = k) t = (case lookup key t k of None \<Rightarrow> 0 | Some r \<Rightarrow> 1)"
  using count_where_key [OF assms, of k "\<lambda>_. True"] by (simp cong: option.case_cong)

text \<open>Replacing the row with the key of a given row.\<close>

definition put :: "('r \<Rightarrow> 'k) \<Rightarrow> 'r \<Rightarrow> 'r list \<Rightarrow> 'r list" where
  "put key r' t = map (\<lambda>r. if key r = key r' then r' else r) t"

lemma lookup_put_apply:
  "lookup key (put key r' t) k
    = (if k = key r' then (if lookup key t k = None then None else Some r') else lookup key t k)"
  by (induction t) (auto simp: put_def lookup_Cons)

lemma lookup_put:
  "lookup key t (key r') \<noteq> None \<Longrightarrow> lookup key (put key r' t) = (lookup key t)(key r' \<mapsto> r')"
  by (rule ext) (auto simp: lookup_put_apply)

lemma map_key_put: "map key (put key r' t) = map key t"
  by (simp add: put_def)

lemma map_put: "(\<And>r. r \<in> set t \<Longrightarrow> key r = key r' \<Longrightarrow> g r = g r') \<Longrightarrow> map g (put key r' t) = map g t"
  by (induction t) (auto simp: put_def)

text \<open>An UPDATE by primary key with a guard the row satisfies replaces that row.\<close>

lemma upd_where_put:
  assumes "keys_distinct key t" and "lookup key t k = Some r" and "p r" and "key (f r) = key r"
  shows "upd_where (\<lambda>r. key r = k \<and> p r) f t = put key (f r) t"
proof -
  have "x = r" if "x \<in> set t" "key x = k" for x
    using assms(1,2) that lookup_in_set [OF assms(1), of x] by simp
  moreover have "key r = k"
    using assms(2) by (rule lookup_key)
  ultimately show ?thesis
    using assms(3,4) by (auto simp: upd_where_def put_def)
qed

lemma count_where_put_mono:
  assumes "keys_distinct key t" and "lookup key t (key r') = Some r" and "p r' \<Longrightarrow> p r"
  shows "count_where p (put key r' t) \<le> count_where p t"
proof -
  have "x = r" if "x \<in> set t" "key x = key r'" for x
    using assms(1,2) that lookup_in_set [OF assms(1), of x] by simp
  then have "\<And>x. x \<in> set t \<Longrightarrow> key x = key r' \<Longrightarrow> p r' \<Longrightarrow> p x"
    using assms(3) by blast
  then show ?thesis
    by (induction t) (auto simp: put_def count_where_def le_SucI)
qed

lemma filter_put_same:
  assumes "\<And>x. x \<in> set t \<Longrightarrow> key x = key r' \<Longrightarrow> p x = p r'"
  shows "filter p (put key r' t) = put key r' (filter p t)"
  using assms by (induction t) (auto simp: put_def)

lemma set_put: "set (put key r' t) \<subseteq> insert r' (set t)"
  by (auto simp: put_def)

lemma in_put: "x \<in> set (put key r' t) \<Longrightarrow> x = r' \<or> (x \<in> set t \<and> key x \<noteq> key r')"
  by (auto simp: put_def split: if_splits)

text \<open>The first row of an ordered selection is a minimal row that satisfies the predicate.\<close>

lemma set_select_ordered: "r \<in> set (select_ordered p k n t) \<Longrightarrow> r \<in> set t \<and> p r"
  by (auto simp: select_ordered_def dest: in_set_takeD)

lemma select_ordered_Nil_iff:
  "0 < n \<Longrightarrow> select_ordered p k n t = [] \<longleftrightarrow> (\<forall>r\<in>set t. \<not> p r)"
  by (metis filter_empty_conv length_0_conv length_sort not_gr_zero select_ordered_def take_eq_Nil)

lemma select_ordered_head_min:
  assumes "select_ordered p k n t = r # rs" and "x \<in> set t" and "p x"
  shows "k r \<le> k x"
proof -
  have "sorted (map k (sort_key k (filter p t)))"
    by (rule sorted_sort_key)
  moreover obtain zs where "sort_key k (filter p t) = r # zs"
    using assms(1) by (cases n; cases "sort_key k (filter p t)") (auto simp: select_ordered_def)
  moreover have "x \<in> set (sort_key k (filter p t))"
    using assms by simp
  ultimately show ?thesis
    by auto
qed

lemma select_ordered_code [code]: "select_ordered p k n t = take n (foldr (insort_key k) (filter p t) [])"
  by (simp add: select_ordered_def sort_key_def)

lemma length_select_ordered: "length (select_ordered p k n t) \<le> n"
  by (simp add: select_ordered_def)

lemma select_ordered_all:
  assumes "length (filter p t) \<le> n"
  shows "set (select_ordered p k n t) = {r \<in> set t. p r}" and "length (select_ordered p k n t) = length (filter p t)"
  using assms by (simp_all add: select_ordered_def)

lemma select_ordered_keys:
  assumes "keys_distinct key t"
  shows "distinct (map key (select_ordered p k n t))"
proof -
  have "distinct (map key (sort_key k (filter p t)))"
    using assms by (simp add: distinct_map inj_on_def)
  then show ?thesis
    by (simp add: select_ordered_def take_map [symmetric])
qed

section \<open>Results\<close>

text \<open>A transaction that fails leaves the database as it was: its value is \<^verbatim>\<open>Inl error\<close>.\<close>

definition commit :: "'s \<Rightarrow> 'e + ('a \<times> 's) \<Rightarrow> 's" where
  "commit s r = (case r of Inl _ \<Rightarrow> s | Inr (_, s') \<Rightarrow> s')"

lemma commit_Inl [simp]: "commit s (Inl e) = s"
  by (simp add: commit_def)

lemma commit_Inr [simp]: "commit s (Inr (x, s')) = s'"
  by (simp add: commit_def)

lemma commit_cases:
  assumes "\<And>e. r = Inl e \<Longrightarrow> P s" and "\<And>x s'. r = Inr (x, s') \<Longrightarrow> P s'"
  shows "P (commit s r)"
  using assms by (cases r) (auto simp: commit_def)

lemma not_isl_iff: "\<not> isl r \<longleftrightarrow> (\<exists>x. r = Inr x)"
  by (cases r) simp_all

end
