(* ===== verification/GoStrings.thy ===== *)
theory GoStrings
  imports Prelude "HOL-Library.Char_ord" "HOL-Library.List_Lexorder"
begin

text \<open>
  Go strings are byte sequences (\<^verbatim>\<open>string\<close>, one \<^verbatim>\<open>char\<close> per byte). This theory holds the pieces of the
  language and of its standard library the sources use on them: the UTF-8 decoding of a range
  loop (an invalid byte reads as U+FFFD of width one), \<^verbatim>\<open>utf8.AppendRune\<close>, \<^verbatim>\<open>unicode.IsSpace\<close> and
  \<^verbatim>\<open>unicode.IsControl\<close>, \<^verbatim>\<open>strings.TrimSpace\<close>, \<^verbatim>\<open>strings.Map\<close>, \<^verbatim>\<open>strings.Fields\<close>, \<^verbatim>\<open>strings.Join\<close>,
  \<^verbatim>\<open>sort.Strings\<close> on the values of a set, and the anchored token patterns.
\<close>

type_synonym rune = nat

abbreviation byte :: "char \<Rightarrow> nat" where
  "byte c \<equiv> of_char c"

definition RuneError :: rune where
  "RuneError = 0xFFFD"

definition is_cont :: "char \<Rightarrow> bool" where
  "is_cont c = (0x80 \<le> byte c \<and> byte c < 0xC0)"

definition valid_rune :: "rune \<Rightarrow> bool" where
  "valid_rune r = (r < 0xD800 \<or> (0xE000 \<le> r \<and> r \<le> 0x10FFFF))"

section \<open>UTF-8\<close>

definition decode2 :: "nat \<Rightarrow> string \<Rightarrow> (rune \<times> nat) option" where
  "decode2 b0 cs = (case cs of c1 # _ \<Rightarrow>
       if is_cont c1 then Some ((b0 mod 32) * 64 + byte c1 mod 64, 2) else None | _ \<Rightarrow> None)"

definition decode3 :: "nat \<Rightarrow> string \<Rightarrow> (rune \<times> nat) option" where
  "decode3 b0 cs = (case cs of c1 # c2 # _ \<Rightarrow>
       if is_cont c1 \<and> is_cont c2 \<and> (b0 = 0xE0 \<longrightarrow> 0xA0 \<le> byte c1) \<and> (b0 = 0xED \<longrightarrow> byte c1 \<le> 0x9F)
       then Some ((b0 mod 16) * 4096 + (byte c1 mod 64) * 64 + byte c2 mod 64, 3) else None | _ \<Rightarrow> None)"

definition decode4 :: "nat \<Rightarrow> string \<Rightarrow> (rune \<times> nat) option" where
  "decode4 b0 cs = (case cs of c1 # c2 # c3 # _ \<Rightarrow>
       if is_cont c1 \<and> is_cont c2 \<and> is_cont c3
          \<and> (b0 = 0xF0 \<longrightarrow> 0x90 \<le> byte c1) \<and> (b0 = 0xF4 \<longrightarrow> byte c1 \<le> 0x8F)
       then Some ((b0 mod 8) * 262144 + (byte c1 mod 64) * 4096 + (byte c2 mod 64) * 64 + byte c3 mod 64, 4)
       else None | _ \<Rightarrow> None)"

definition decode_multi :: "nat \<Rightarrow> string \<Rightarrow> (rune \<times> nat) option" where
  "decode_multi b0 cs = (if 0xC2 \<le> b0 \<and> b0 \<le> 0xDF then decode2 b0 cs
     else if 0xE0 \<le> b0 \<and> b0 \<le> 0xEF then decode3 b0 cs
     else if 0xF0 \<le> b0 \<and> b0 \<le> 0xF4 then decode4 b0 cs
     else None)"

text \<open>\<^verbatim>\<open>utf8.DecodeRuneInString\<close> on a non-empty string with first byte \<^verbatim>\<open>c\<close>.\<close>

definition decode_rune :: "char \<Rightarrow> string \<Rightarrow> rune \<times> nat" where
  "decode_rune c cs = (if byte c < 0x80 then (byte c, 1)
     else case decode_multi (byte c) cs of Some rw \<Rightarrow> rw | None \<Rightarrow> (RuneError, 1))"

definition chr :: "nat \<Rightarrow> char" where
  "chr n = char_of n"

definition encode_rune :: "rune \<Rightarrow> string" where
  "encode_rune r0 = (let r = (if valid_rune r0 then r0 else RuneError) in
     if r < 0x80 then [chr r]
     else if r < 0x800 then [chr (0xC0 + r div 64), chr (0x80 + r mod 64)]
     else if r < 0x10000 then
       [chr (0xE0 + r div 4096), chr (0x80 + r div 64 mod 64), chr (0x80 + r mod 64)]
     else [chr (0xF0 + r div 262144), chr (0x80 + r div 4096 mod 64),
           chr (0x80 + r div 64 mod 64), chr (0x80 + r mod 64)])"

lemma encode_rune_code [code]:
  "encode_rune r0 = (if r0 < 0x80 then [chr r0] else let r = (if valid_rune r0 then r0 else RuneError) in
     if r < 0x80 then [chr r]
     else if r < 0x800 then [chr (0xC0 + r div 64), chr (0x80 + r mod 64)]
     else if r < 0x10000 then
       [chr (0xE0 + r div 4096), chr (0x80 + r div 64 mod 64), chr (0x80 + r mod 64)]
     else [chr (0xF0 + r div 262144), chr (0x80 + r div 4096 mod 64),
           chr (0x80 + r div 64 mod 64), chr (0x80 + r mod 64)])"
  by (simp add: encode_rune_def valid_rune_def)

lemma decode_rune_width: "1 \<le> snd (decode_rune c cs)"
  by (auto simp: decode_rune_def decode_multi_def decode2_def decode3_def decode4_def
      split: list.split option.split if_splits)

lemma decode_rune_pos: "(r, w) = decode_rune c cs \<Longrightarrow> 0 < w"
  using decode_rune_width [of c cs] by (cases "decode_rune c cs") auto

text \<open>The runes of a range loop over a string, each with the bytes it was read from.\<close>

function chunks :: "string \<Rightarrow> (rune \<times> string) list" where
  "chunks [] = []"
| "chunks (c # cs) = (case decode_rune c cs of (r, w) \<Rightarrow>
     (r, take w (c # cs)) # chunks (drop w (c # cs)))"
  by pat_completeness auto
termination
  by (relation "measure length") (auto dest: decode_rune_pos)

declare chunks.simps(2) [simp del]

definition runes :: "string \<Rightarrow> rune list" where
  "runes s = map fst (chunks s)"

text \<open>Bytes written by \<^verbatim>\<open>encode_rune\<close> for a list of runes.\<close>

definition encode_runes :: "rune list \<Rightarrow> string" where
  "encode_runes rs = concat (map encode_rune rs)"

lemma byte_chr [simp]: "n < 256 \<Longrightarrow> byte (chr n) = n"
  by (simp add: chr_def)

lemma is_cont_chr [simp]: "n < 64 \<Longrightarrow> is_cont (chr (0x80 + n))"
  by (simp add: is_cont_def)

lemma valid_rune_less: "valid_rune r \<Longrightarrow> r < 0x110000"
  by (auto simp: valid_rune_def)

lemma encode_rune_shape:
  assumes "valid_rune r"
  obtains c cs where "encode_rune r = c # cs" and "\<not> is_cont c" and "list_all is_cont cs"
  using assms
proof -
  have b: "r < 1114112"
    using assms by (auto simp: valid_rune_def)
  let ?e = "encode_rune r"
  have "?e \<noteq> [] \<and> \<not> is_cont (hd ?e) \<and> list_all is_cont (tl ?e)"
    using assms b by (auto simp: encode_rune_def is_cont_def chr_def Let_def)
  then show thesis
    using that by (cases ?e) auto
qed

text \<open>The base-64 digits of a rune.\<close>

lemma digits3: "r div 4096 * 4096 + r div 64 mod 64 * 64 + r mod 64 = (r::nat)"
proof -
  have "r div 4096 = r div 64 div 64"
    by (simp add: div_mult2_eq [symmetric])
  then show ?thesis
    using div_mult_mod_eq [of r 64] div_mult_mod_eq [of "r div 64" 64] by linarith
qed

lemma digits4: "r div 262144 * 262144 + r div 4096 mod 64 * 4096 + r div 64 mod 64 * 64 + r mod 64 = (r::nat)"
proof -
  have "r div 262144 = r div 4096 div 64"
    by (simp add: div_mult2_eq [symmetric])
  then show ?thesis
    using digits3 [of r] div_mult_mod_eq [of "r div 4096" 64] by linarith
qed

lemma chr_cont: "byte (chr (0x80 + d mod 64)) = 0x80 + d mod 64" "(0x80 + d mod 64) mod 64 = d mod 64"
  using mod_mult_self3 [of 2 64 "d mod 64"] by simp_all

lemma decode2_digits:
  "b < 32 \<Longrightarrow> decode2 (0xC0 + b) (chr (0x80 + d mod 64) # s) = Some (b * 64 + d mod 64, 2)"
  by (simp add: decode2_def chr_cont mod_add_eq [of 192 32 b, symmetric])

lemma decode3_digits:
  assumes "a < 16" and "a = 0 \<longrightarrow> 32 \<le> b mod 64" and "a = 13 \<longrightarrow> b mod 64 < 32"
  shows "decode3 (0xE0 + a) (chr (0x80 + b mod 64) # chr (0x80 + d mod 64) # s)
    = Some (a * 4096 + b mod 64 * 64 + d mod 64, 3)"
  using assms by (auto simp: decode3_def chr_cont mod_add_eq [of 224 16 a, symmetric])

lemma decode4_digits:
  assumes "a < 5" and "a = 0 \<longrightarrow> 16 \<le> b mod 64" and "a = 4 \<longrightarrow> b mod 64 < 16"
  shows "decode4 (0xF0 + a) (chr (0x80 + b mod 64) # chr (0x80 + d mod 64) # chr (0x80 + e mod 64) # s)
    = Some (a * 262144 + b mod 64 * 4096 + d mod 64 * 64 + e mod 64, 4)"
  using assms by (auto simp: decode4_def chr_cont mod_add_eq [of 240 8 a, symmetric])

text \<open>Decoding reads back what encoding wrote, whatever follows.\<close>

lemma decode_encode_rune:
  assumes "valid_rune r" and "encode_rune r @ s = c # cs"
  shows "decode_rune c cs = (r, length (encode_rune r))"
proof -
  consider "r < 0x80" | "0x80 \<le> r" "r < 0x800" | "0x800 \<le> r" "r < 0x10000"
    | "0x10000 \<le> r" "r < 0x110000"
    using valid_rune_less [OF assms(1)] by linarith
  then show ?thesis
  proof cases
    case 1
    then show ?thesis
      using assms by (auto simp: decode_rune_def encode_rune_def)
  next
    case 2
    then have e: "c = chr (0xC0 + r div 64)" "cs = chr (0x80 + r mod 64) # s"
      and l: "length (encode_rune r) = 2"
      using assms by (auto simp: encode_rune_def)
    have "r div 64 < 32" "2 \<le> r div 64"
      using 2 by auto
    then show ?thesis
      unfolding e l by (simp add: decode_rune_def decode_multi_def decode2_digits)
  next
    case 3
    then have e: "c = chr (0xE0 + r div 4096)"
      "cs = chr (0x80 + r div 64 mod 64) # chr (0x80 + r mod 64) # s"
      and l: "length (encode_rune r) = 3"
      using assms by (auto simp: encode_rune_def)
    note d = digits3 [of r]
    have m: "r mod 64 < 64" and v: "r < 0xD800 \<or> 0xE000 \<le> r"
      using assms(1) by (auto simp: valid_rune_def)
    have a: "r div 4096 < 16" "r div 4096 = 0 \<longrightarrow> 32 \<le> r div 64 mod 64"
      using 3 d m by linarith+
    have b: "r div 4096 = 13 \<longrightarrow> r div 64 mod 64 < 32"
      using d v by (elim disjE; intro impI) linarith+
    show ?thesis
      using a(1) unfolding e l
      by (simp add: decode_rune_def decode_multi_def decode3_digits [OF a b] d)
  next
    case 4
    then have e: "c = chr (0xF0 + r div 262144)"
      "cs = chr (0x80 + r div 4096 mod 64) # chr (0x80 + r div 64 mod 64) # chr (0x80 + r mod 64) # s"
      and l: "length (encode_rune r) = 4"
      using assms by (auto simp: encode_rune_def)
    note d = digits4 [of r]
    have m: "r mod 64 < 64" "r div 64 mod 64 < 64"
      by simp_all
    have a: "r div 262144 < 5" "r div 262144 = 0 \<longrightarrow> 16 \<le> r div 4096 mod 64"
      "r div 262144 = 4 \<longrightarrow> r div 4096 mod 64 < 16"
      using 4 d m by linarith+
    show ?thesis
      using a(1) unfolding e l
      by (simp add: decode_rune_def decode_multi_def decode4_digits [OF a] d)
  qed
qed

lemma cont_mod:
  assumes "is_cont c"
  shows "byte c mod 64 = byte c - 0x80"
proof -
  define d where "d = byte c - 0x80"
  then have "byte c = 0x80 + d" "d < 64"
    using assms by (auto simp: is_cont_def)
  then show ?thesis
    using chr_cont(2) [of d] by simp
qed

lemma decode2_valid: "b0 \<le> 0xDF \<Longrightarrow> decode2 b0 cs = Some (r, w) \<Longrightarrow> valid_rune r"
proof -
  assume "decode2 b0 cs = Some (r, w)"
  then obtain c1 where "r = (b0 mod 32) * 64 + byte c1 mod 64"
    by (auto simp: decode2_def split: list.splits if_splits)
  moreover have "b0 mod 32 < 32" "byte c1 mod 64 < 64"
    by simp_all
  ultimately have "r < 0xD800"
    by linarith
  then show ?thesis
    by (simp add: valid_rune_def)
qed

lemma decode3_valid:
  assumes "0xE0 \<le> b0" "b0 \<le> 0xEF" and "decode3 b0 cs = Some (r, w)"
  shows "valid_rune r"
proof -
  define a where "a = b0 - 0xE0"
  have b0: "b0 = 0xE0 + a" "a < 16"
    using assms by (auto simp: a_def)
  obtain c1 c2 where r: "r = (b0 mod 16) * 4096 + (byte c1 mod 64) * 64 + byte c2 mod 64"
    and c: "is_cont c1" "b0 = 0xED \<longrightarrow> byte c1 \<le> 0x9F"
    using assms(3) by (auto simp: decode3_def split: list.splits if_splits)
  have a: "b0 mod 16 = a"
    using b0 by (simp add: mod_add_eq [of 224 16 a, symmetric])
  have d: "byte c1 mod 64 < 64" "byte c2 mod 64 < 64"
    by simp_all
  have e: "a = 13 \<longrightarrow> byte c1 mod 64 < 32"
    using c b0 by (auto simp: cont_mod)
  consider "a \<le> 12" | "a = 13" | "14 \<le> a"
    by linarith
  then show ?thesis
    unfolding valid_rune_def r a by cases (use b0 d e in linarith)+
qed

lemma decode4_valid:
  assumes "0xF0 \<le> b0" "b0 \<le> 0xF4" and "decode4 b0 cs = Some (r, w)"
  shows "valid_rune r"
proof -
  define a where "a = b0 - 0xF0"
  have b0: "b0 = 0xF0 + a" "a < 5"
    using assms by (auto simp: a_def)
  obtain c1 c2 c3 where
    r: "r = (b0 mod 8) * 262144 + (byte c1 mod 64) * 4096 + (byte c2 mod 64) * 64 + byte c3 mod 64"
    and c: "is_cont c1" "b0 = 0xF0 \<longrightarrow> 0x90 \<le> byte c1" "b0 = 0xF4 \<longrightarrow> byte c1 \<le> 0x8F"
    using assms(3) by (auto simp: decode4_def split: list.splits if_splits)
  have a: "b0 mod 8 = a"
    using b0 by (simp add: mod_add_eq [of 240 8 a, symmetric])
  have d: "byte c1 mod 64 < 64" "byte c2 mod 64 < 64" "byte c3 mod 64 < 64"
    by simp_all
  have e: "a = 0 \<longrightarrow> 16 \<le> byte c1 mod 64" "a = 4 \<longrightarrow> byte c1 mod 64 < 16"
    using c b0 by (auto simp: cont_mod)
  consider "a = 0" | "1 \<le> a" "a \<le> 3" | "a = 4"
    using b0(2) by linarith
  then show ?thesis
    unfolding valid_rune_def r a by cases (use d e in linarith)+
qed

lemma decode_rune_valid: "valid_rune (fst (decode_rune c cs))"
proof -
  have "valid_rune r" if "decode_multi (byte c) cs = Some (r, w)" for r w
    using that decode2_valid decode3_valid decode4_valid
    by (auto simp: decode_multi_def split: if_splits)
  moreover have "byte c < 128 \<Longrightarrow> valid_rune (byte c)" "valid_rune RuneError"
    by (simp_all add: valid_rune_def RuneError_def)
  ultimately show ?thesis
    by (auto simp: decode_rune_def split: option.split)
qed

lemma chunks_encode [simp]:
  assumes "valid_rune r"
  shows "chunks (encode_rune r @ s) = (r, encode_rune r) # chunks s"
proof -
  obtain c cs where c: "encode_rune r = c # cs"
    using encode_rune_shape [OF assms] by blast
  then have d: "decode_rune c (cs @ s) = (r, length (encode_rune r))"
    by (intro decode_encode_rune [OF assms]) simp
  have "chunks (c # cs @ s) = (r, take (length (encode_rune r)) (c # cs @ s))
      # chunks (drop (length (encode_rune r)) (c # cs @ s))"
    by (subst chunks.simps(2)) (simp only: d prod.case)
  then show ?thesis
    by (simp add: c)
qed

lemma chunks_encode_runes:
  "list_all valid_rune rs \<Longrightarrow> chunks (encode_runes rs) = map (\<lambda>r. (r, encode_rune r)) rs"
  by (induction rs) (simp_all add: encode_runes_def)

lemma runes_encode_runes: "list_all valid_rune rs \<Longrightarrow> runes (encode_runes rs) = rs"
  by (simp add: runes_def chunks_encode_runes comp_def)

lemma runes_valid: "list_all valid_rune (runes s)"
proof (induction s rule: chunks.induct)
  case (2 c cs)
  then show ?case
    using decode_rune_valid [of c cs]
    by (cases "decode_rune c cs") (simp add: runes_def chunks.simps(2))
qed (simp add: runes_def)

lemma concat_chunks: "concat (map snd (chunks s)) = s"
proof (induction s rule: chunks.induct)
  case (2 c cs)
  then show ?case
    by (cases "decode_rune c cs") (simp add: chunks.simps(2))
qed simp

text \<open>\<^verbatim>\<open>utf8.ValidString\<close>: every chunk is the encoding of its rune.\<close>

definition valid_utf8 :: "string \<Rightarrow> bool" where
  "valid_utf8 s = list_all (\<lambda>(r, b). b = encode_rune r) (chunks s)"

lemma valid_utf8_encode_runes: "list_all valid_rune rs \<Longrightarrow> valid_utf8 (encode_runes rs)"
  by (simp add: valid_utf8_def chunks_encode_runes list_all_iff)

section \<open>Character classes and the strings package\<close>

definition IsSpace :: "rune \<Rightarrow> bool" where
  "IsSpace r = ((9 \<le> r \<and> r \<le> 13) \<or> r = 32 \<or> r = 0x85 \<or> r = 0xA0 \<or> r = 0x1680
     \<or> (0x2000 \<le> r \<and> r \<le> 0x200A) \<or> r = 0x2028 \<or> r = 0x2029 \<or> r = 0x202F \<or> r = 0x205F \<or> r = 0x3000)"

definition IsControl :: "rune \<Rightarrow> bool" where
  "IsControl r = (r < 32 \<or> (0x7F \<le> r \<and> r < 0xA0))"

definition chunk_space :: "rune \<times> string \<Rightarrow> bool" where
  "chunk_space rb = IsSpace (fst rb)"

definition TrimSpace :: "string \<Rightarrow> string" where
  "TrimSpace s = concat (map snd
     (rev (dropWhile chunk_space (rev (dropWhile chunk_space (chunks s))))))"

text \<open>\<^verbatim>\<open>strings.Map\<close>: a rune mapped to \<^verbatim>\<open>None\<close> (a negative value in the source) is dropped.\<close>

definition strings_Map :: "(rune \<Rightarrow> rune option) \<Rightarrow> string \<Rightarrow> string" where
  "strings_Map f s = encode_runes (List.map_filter f (runes s))"

function fields_of :: "(rune \<times> string) list \<Rightarrow> string list" where
  "fields_of cs = (case dropWhile chunk_space cs of [] \<Rightarrow> []
     | c # cs' \<Rightarrow> concat (map snd (c # takeWhile (\<lambda>x. \<not> chunk_space x) cs'))
         # fields_of (dropWhile (\<lambda>x. \<not> chunk_space x) cs'))"
  by pat_completeness auto
termination
proof (relation "measure length", goal_cases)
  case (2 cs c cs')
  have "length (dropWhile (\<lambda>x. \<not> chunk_space x) cs') \<le> length cs'"
    by (rule length_dropWhile_le)
  also have "\<dots> < length (dropWhile chunk_space cs)"
    using 2 by simp
  also have "\<dots> \<le> length cs"
    by (rule length_dropWhile_le)
  finally show ?case
    by simp
qed simp

declare fields_of.simps [simp del]

definition strings_Fields :: "string \<Rightarrow> string list" where
  "strings_Fields s = fields_of (chunks s)"

fun strings_Join :: "string list \<Rightarrow> string \<Rightarrow> string" where
  "strings_Join [] sep = []"
| "strings_Join [s] sep = s"
| "strings_Join (s # t # ss) sep = s @ sep @ strings_Join (t # ss) sep"

text \<open>
  The anchored token patterns \<^verbatim>\<open>^[a-z0-9][a-z0-9._-]{0,n}$\<close>: a first character that is a lower
  case letter or a digit, then at most \<^verbatim>\<open>n\<close> further ones that may also be dot, underscore, dash.
\<close>

definition is_alnum :: "char \<Rightarrow> bool" where
  "is_alnum c = ((97 \<le> byte c \<and> byte c \<le> 122) \<or> (48 \<le> byte c \<and> byte c \<le> 57))"

definition is_token_char :: "char \<Rightarrow> bool" where
  "is_token_char c = (is_alnum c \<or> c = CHR ''.'' \<or> c = CHR ''_'' \<or> c = CHR ''-'')"

fun token_pattern :: "nat \<Rightarrow> string \<Rightarrow> bool" where
  "token_pattern n [] = False"
| "token_pattern n (c # cs) = (is_alnum c \<and> length cs \<le> n \<and> list_all is_token_char cs)"

text \<open>The distinct values in the order of \<^verbatim>\<open>sort.Strings\<close> (bytewise lexicographic).\<close>

definition sorted_distinct :: "string list \<Rightarrow> string list" where
  "sorted_distinct vs = sort (remdups vs)"

lemma sorted_distinct_props [simp]:
  "set (sorted_distinct vs) = set vs" "distinct (sorted_distinct vs)" "sorted (sorted_distinct vs)"
  by (simp_all add: sorted_distinct_def)

lemma sorted_distinct_set: "sorted_distinct vs = sorted_list_of_set (set vs)"
  by (simp only: sorted_distinct_def sorted_list_of_set_sort_remdups)

section \<open>Plain ASCII\<close>

text \<open>Strings of printable ASCII are their own runes and have nothing to trim.\<close>

definition plain :: "char \<Rightarrow> bool" where
  "plain c = (32 < byte c \<and> byte c < 127)"

lemma chunks_plain: "list_all plain s \<Longrightarrow> chunks s = map (\<lambda>c. (byte c, [c])) s"
  by (induction s) (simp_all add: chunks.simps(2) decode_rune_def plain_def)

lemma plain_not_space: "plain c \<Longrightarrow> \<not> IsSpace (byte c)"
  by (auto simp: plain_def IsSpace_def)

lemma TrimSpace_plain:
  assumes "list_all plain s"
  shows "TrimSpace s = s"
proof -
  have "dropWhile chunk_space (map (\<lambda>c. (byte c, [c])) t) = map (\<lambda>c. (byte c, [c])) t" if "list_all plain t" for t
    using that by (cases t) (simp_all add: chunk_space_def plain_not_space)
  from this [of s] this [of "rev s"] have "TrimSpace s = concat (map snd (map (\<lambda>c. (byte c, [c])) s))"
    using assms by (simp add: TrimSpace_def chunks_plain rev_map list_all_iff)
  also have "\<dots> = s"
    by (induction s) simp_all
  finally show ?thesis .
qed

lemma TrimSpace_code [code]:
  "TrimSpace s = (if list_all plain s then s
     else concat (map snd (rev (dropWhile chunk_space (rev (dropWhile chunk_space (chunks s)))))))"
  using TrimSpace_plain by (auto simp: TrimSpace_def)

lemma token_char_plain: "is_token_char c \<Longrightarrow> plain c"
  by (auto simp: is_token_char_def is_alnum_def plain_def)

lemma token_plain: "token_pattern n s \<Longrightarrow> list_all plain s"
  by (cases s) (auto simp: list_all_iff token_char_plain is_token_char_def)

lemma sorted_distinct_code [code]: "sorted_distinct vs = foldr insort (remdups vs) []"
  by (simp add: sorted_distinct_def sort_key_def)

end
