(* ===== verification/Float64.thy ===== *)
theory Float64
  imports Prelude
begin

text \<open>
  IEEE 754 binary64 as far as the retry policies use it: the finite values as rationals, the
  two infinities and NaN; rounding to nearest, ties to even, with 53 significant bits, the
  subnormal range and overflow to infinity; the arithmetic and comparison operators of Go on
  it. The sign of zero is not kept: no operation of the program observes it.
\<close>

datatype f64 = F_NaN | F_PInf | F_NInf | F_Fin rat

definition f_isNaN :: "f64 \<Rightarrow> bool" where
  "f_isNaN x = (x = F_NaN)"

definition f_isInf :: "f64 \<Rightarrow> bool" where
  "f_isInf x = (x = F_PInf \<or> x = F_NInf)"

section \<open>Rounding\<close>

fun log2n :: "nat \<Rightarrow> nat" where
  "log2n n = (if n < 2 then 0 else Suc (log2n (n div 2)))"

declare log2n.simps [simp del]

lemma log2n_lower: "0 < n \<Longrightarrow> 2 ^ log2n n \<le> n"
proof (induction n rule: log2n.induct)
  case (1 n)
  show ?case
  proof (cases "n < 2")
    case False
    then have "2 ^ log2n (n div 2) \<le> n div 2"
      using 1 by simp
    then show ?thesis
      using False by (subst log2n.simps) simp
  qed (use 1 in \<open>simp add: log2n.simps\<close>)
qed

lemma log2n_upper: "n < 2 ^ Suc (log2n n)"
proof (induction n rule: log2n.induct)
  case (1 n)
  show ?case
  proof (cases "n < 2")
    case False
    then have "n div 2 < 2 ^ Suc (log2n (n div 2))"
      using 1 by simp
    then show ?thesis
      using False by (subst log2n.simps) auto
  qed (simp add: log2n.simps)
qed

lemma log2n_int:
  assumes "0 < n"
  shows "(2::int) ^ log2n (nat n) \<le> n" and "n < (2::int) ^ Suc (log2n (nat n))"
proof -
  show "(2::int) ^ log2n (nat n) \<le> n"
    using log2n_lower [of "nat n"] assms by (simp add: le_nat_iff)
  show "n < (2::int) ^ Suc (log2n (nat n))"
    using log2n_upper [of "nat n"] assms by (simp add: nat_less_iff)
qed

text \<open>The exponent \<^verbatim>\<open>k\<close> with \<^verbatim>\<open>2^k \<le> q < 2^(k+1)\<close> of a positive rational.\<close>

definition rat_log2 :: "rat \<Rightarrow> int" where
  "rat_log2 q = (case quotient_of q of (a, b) \<Rightarrow>
     let k = int (log2n (nat a)) - int (log2n (nat b))
     in if 2 powi k \<le> q then k else k - 1)"

definition round_half_even :: "rat \<Rightarrow> int" where
  "round_half_even x = (let f = \<lfloor>x\<rfloor>; d = x - of_int f in
     if d < 1 / 2 then f else if 1 / 2 < d then f + 1 else if even f then f else f + 1)"

definition round_pos :: "rat \<Rightarrow> f64" where
  "round_pos q = (let e = max (rat_log2 q - 52) (- 1074);
                      r = of_int (round_half_even (q / 2 powi e)) * 2 powi e
                  in if 2 ^ 1024 \<le> r then F_PInf else F_Fin r)"

fun f_neg :: "f64 \<Rightarrow> f64" where
  "f_neg F_NaN = F_NaN"
| "f_neg F_PInf = F_NInf"
| "f_neg F_NInf = F_PInf"
| "f_neg (F_Fin x) = F_Fin (- x)"

definition round64 :: "rat \<Rightarrow> f64" where
  "round64 q = (if q = 0 then F_Fin 0 else if 0 < q then round_pos q else f_neg (round_pos (- q)))"

lemma rat_log2_lower:
  assumes "0 < q"
  shows "2 powi (rat_log2 q) \<le> q"
proof -
  obtain a b where ab: "quotient_of q = (a, b)"
    by force
  have b: "0 < b" and q: "q = of_int a / of_int b"
    using quotient_of_denom_pos [OF ab] quotient_of_div [OF ab] by auto
  have a: "0 < a"
    using assms b q by (simp add: zero_less_divide_iff)
  let ?la = "log2n (nat a)" and ?lb = "log2n (nat b)"
  have "(2::int) ^ ?la \<le> a" "b < 2 ^ Suc ?lb"
    using log2n_int a b by blast+
  then have la: "(2::rat) ^ ?la \<le> of_int a" and lb: "(of_int b :: rat) \<le> 2 ^ Suc ?lb"
    by (metis of_int_le_iff of_int_numeral of_int_power, metis less_imp_le of_int_le_iff of_int_numeral of_int_power)
  have "(2::rat) ^ ?la / 2 ^ Suc ?lb \<le> of_int a / of_int b"
    using la lb a b by (intro frac_le) auto
  moreover have "(2::rat) powi (int ?la - int ?lb - 1) = 2 ^ ?la / 2 ^ Suc ?lb"
    by (simp add: power_int_diff divide_divide_eq_left)
  ultimately show ?thesis
    using ab q by (auto simp: rat_log2_def Let_def)
qed

lemma rat_log2_of_int:
  assumes "0 < n"
  shows "rat_log2 (of_int n) = int (log2n (nat n))"
proof -
  have "(2::int) ^ log2n (nat n) \<le> n"
    using log2n_int assms by blast
  then have "(2::rat) ^ log2n (nat n) \<le> of_int n"
    by (metis of_int_le_iff of_int_numeral of_int_power)
  moreover have "log2n (Suc 0) = 0"
    by (simp add: log2n.simps)
  ultimately show ?thesis
    by (simp add: rat_log2_def quotient_of_int)
qed

lemma round_half_even_of_int [simp]: "round_half_even (of_int n) = n"
  by (simp add: round_half_even_def)

lemma round_half_even_ge: "of_int n \<le> x \<Longrightarrow> n \<le> round_half_even x"
  using le_floor_iff [of n x] by (simp add: round_half_even_def Let_def)

lemma round_pos_nonneg:
  assumes "0 < q"
  shows "round_pos q = F_PInf \<or> (\<exists>r \<ge> 0. round_pos q = F_Fin r)"
proof -
  have "0 \<le> round_half_even (q / 2 powi (max (rat_log2 q - 52) (- 1074)))"
    using assms by (intro round_half_even_ge) simp
  then show ?thesis
    by (auto simp: round_pos_def Let_def)
qed

text \<open>Integers of magnitude below \<^verbatim>\<open>2^53\<close> are represented exactly.\<close>

lemma round64_of_int:
  assumes "\<bar>n\<bar> < 2 ^ 53"
  shows "round64 (of_int n) = F_Fin (of_int n)"
proof -
  have pos: "round_pos (of_int m) = F_Fin (of_int m)" if m: "0 < m" "m < 2 ^ 53" for m
  proof -
    have "(2::int) ^ log2n (nat m) < 2 ^ 53"
      using log2n_int(1) [of m] m by linarith
    then have l: "log2n (nat m) < 53"
      by (rule power_less_imp_less_exp [rotated]) simp
    define e where "e = 52 - log2n (nat m)"
    have "max (rat_log2 (of_int m) - 52) (- 1074) = - int e"
      using l m by (simp add: rat_log2_of_int e_def)
    moreover have "(of_int m :: rat) / 2 powi (- int e) = of_int (m * 2 ^ e)"
      by (simp add: power_int_minus divide_inverse)
    moreover have "(of_int m :: rat) < 2 ^ 1024"
    proof -
      have "(of_int m :: rat) < of_int (2 ^ 53)"
        using m by (simp only: of_int_less_iff)
      also have "\<dots> \<le> 2 ^ 1024"
        by simp
      finally show ?thesis .
    qed
    ultimately show ?thesis
      by (simp add: round_pos_def Let_def power_int_minus del: of_int_mult of_int_power)
         (simp add: field_simps)
  qed
  consider "n = 0" | "0 < n" | "n < 0" by linarith
  then show ?thesis
  proof cases
    case 3
    then show ?thesis
      using pos [of "- n"] assms by (simp add: round64_def)
  qed (use pos assms in \<open>auto simp: round64_def\<close>)
qed

text \<open>A value of at least one never rounds below one.\<close>

lemma round_pos_ge1:
  assumes "1 \<le> q"
  shows "round_pos q = F_PInf \<or> (\<exists>r \<ge> 1. round_pos q = F_Fin r)"
proof -
  have q: "2 powi (rat_log2 q) \<le> q"
    using assms by (intro rat_log2_lower) simp
  define e where "e = max (rat_log2 q - 52) (- 1074)"
  have "1 \<le> (of_int (round_half_even (q / 2 powi e)) :: rat) * 2 powi e"
  proof (cases "e \<le> 0")
    case True
    define k where "k = nat (- e)"
    have e: "(2::rat) powi e = 1 / 2 ^ k"
      using True by (simp add: k_def power_int_def power_one_over)
    have "2 ^ k \<le> round_half_even (q / 2 powi e)"
      using assms by (intro round_half_even_ge) (simp add: e)
    then have "(2::rat) ^ k \<le> of_int (round_half_even (q / 2 powi e))"
      by (metis of_int_le_iff of_int_numeral of_int_power)
    then show ?thesis
      by (simp add: e field_simps)
  next
    case False
    then have "1 \<le> q / 2 powi e"
      using q assms by (simp add: e_def field_simps power_int_diff max_def split: if_splits)
    then have "1 \<le> round_half_even (q / 2 powi e)"
      by (intro round_half_even_ge) simp
    moreover have "1 \<le> (2::rat) powi e"
      using False by (simp add: one_le_power_int)
    ultimately show ?thesis
      using mult_mono [of 1 "of_int (round_half_even (q / 2 powi e))" 1 "(2::rat) powi e"] by simp
  qed
  then show ?thesis
    unfolding round_pos_def Let_def e_def by auto
qed

section \<open>Operators\<close>

definition f_of_int :: "int \<Rightarrow> f64" where
  "f_of_int n = round64 (of_int n)"

fun f_mul :: "f64 \<Rightarrow> f64 \<Rightarrow> f64" where
  "f_mul F_NaN _ = F_NaN"
| "f_mul _ F_NaN = F_NaN"
| "f_mul (F_Fin x) (F_Fin y) = round64 (x * y)"
| "f_mul (F_Fin x) F_PInf = (if x = 0 then F_NaN else if 0 < x then F_PInf else F_NInf)"
| "f_mul (F_Fin x) F_NInf = (if x = 0 then F_NaN else if 0 < x then F_NInf else F_PInf)"
| "f_mul F_PInf (F_Fin y) = (if y = 0 then F_NaN else if 0 < y then F_PInf else F_NInf)"
| "f_mul F_NInf (F_Fin y) = (if y = 0 then F_NaN else if 0 < y then F_NInf else F_PInf)"
| "f_mul F_PInf F_PInf = F_PInf"
| "f_mul F_PInf F_NInf = F_NInf"
| "f_mul F_NInf F_PInf = F_NInf"
| "f_mul F_NInf F_NInf = F_PInf"

fun f_add :: "f64 \<Rightarrow> f64 \<Rightarrow> f64" where
  "f_add F_NaN _ = F_NaN"
| "f_add _ F_NaN = F_NaN"
| "f_add (F_Fin x) (F_Fin y) = round64 (x + y)"
| "f_add F_PInf F_NInf = F_NaN"
| "f_add F_NInf F_PInf = F_NaN"
| "f_add F_PInf _ = F_PInf"
| "f_add _ F_PInf = F_PInf"
| "f_add F_NInf _ = F_NInf"
| "f_add _ F_NInf = F_NInf"

definition f_sub :: "f64 \<Rightarrow> f64 \<Rightarrow> f64" where
  "f_sub x y = f_add x (f_neg y)"

text \<open>Division by a finite positive constant, the only division the program performs.\<close>

fun f_div_pos :: "f64 \<Rightarrow> rat \<Rightarrow> f64" where
  "f_div_pos (F_Fin x) c = round64 (x / c)"
| "f_div_pos x c = x"

fun f_lt :: "f64 \<Rightarrow> f64 \<Rightarrow> bool" where
  "f_lt F_NaN _ = False"
| "f_lt _ F_NaN = False"
| "f_lt (F_Fin x) (F_Fin y) = (x < y)"
| "f_lt F_NInf y = (y \<noteq> F_NInf)"
| "f_lt x F_PInf = (x \<noteq> F_PInf)"
| "f_lt _ _ = False"

definition f_le :: "f64 \<Rightarrow> f64 \<Rightarrow> bool" where
  "f_le x y = (f_lt x y \<or> (x = y \<and> x \<noteq> F_NaN))"

text \<open>\<^verbatim>\<open>math.Ceil\<close>: a finite binary64 value has a representable ceiling.\<close>

fun f_ceil :: "f64 \<Rightarrow> f64" where
  "f_ceil (F_Fin x) = F_Fin (of_int \<lceil>x\<rceil>)"
| "f_ceil x = x"

text \<open>\<^verbatim>\<open>int64(x)\<close> of a value inside the range of int64: truncation towards zero.\<close>

fun f_trunc :: "f64 \<Rightarrow> int" where
  "f_trunc (F_Fin x) = (if 0 \<le> x then \<lfloor>x\<rfloor> else \<lceil>x\<rceil>)"
| "f_trunc _ = 0"

lemma f_of_int_exact: "\<bar>n\<bar> < 2 ^ 53 \<Longrightarrow> f_of_int n = F_Fin (of_int n)"
  by (simp add: f_of_int_def round64_of_int)

lemma f_of_int_ge1: "1 \<le> n \<Longrightarrow> f_of_int n = F_PInf \<or> (\<exists>r \<ge> 1. f_of_int n = F_Fin r)"
  using round_pos_ge1 [of "of_int n"] by (simp add: f_of_int_def round64_def)

end
