(* ===== verification/Lifecycle.thy ===== *)
theory Lifecycle
  imports GoStrings Float64
begin

text \<open>
  The package \<^verbatim>\<open>internal/lifecycle\<close>: failure classes and dead-letter reasons, the bounds on stored
  failure detail (\<^verbatim>\<open>lifecycle.go\<close>), and the retry policy with its delay and decision (\<^verbatim>\<open>retry.go\<close>).
\<close>

section \<open>Failure classes and reasons\<close>

text \<open>Both are string types in the source; any other string is the last constructor.\<close>

datatype FailureClass = ClassRetryable | ClassPermanent | ClassTimedOut | ClassCanceled
  | ClassAbandoned | ClassOther string

fun FailureClass_Valid :: "FailureClass \<Rightarrow> bool" where
  "FailureClass_Valid (ClassOther _) = False"
| "FailureClass_Valid _ = True"

definition ReportableByHandler :: "FailureClass \<Rightarrow> bool" where
  "ReportableByHandler c = (c = ClassRetryable \<or> c = ClassPermanent)"

definition RetriesUnderPolicy :: "FailureClass \<Rightarrow> bool" where
  "RetriesUnderPolicy c = (c = ClassRetryable \<or> c = ClassTimedOut)"

datatype DLQReason = ReasonPermanentFailure | ReasonAttemptsExhausted | ReasonOther string

definition DLQReason_Valid :: "DLQReason \<Rightarrow> bool" where
  "DLQReason_Valid r = (r = ReasonPermanentFailure \<or> r = ReasonAttemptsExhausted)"

section \<open>Stored failure detail\<close>

definition MaxErrorCodeBytes :: nat where
  "MaxErrorCodeBytes = 64"

definition MaxErrorMessageBytes :: nat where
  "MaxErrorMessageBytes = 512"

definition CodeHandlerError :: string where
  "CodeHandlerError = ''handler_error''"

definition CodeTimeout :: string where
  "CodeTimeout = ''attempt_timeout''"

definition CodeCanceled :: string where
  "CodeCanceled = ''canceled''"

definition CodeAbandoned :: string where
  "CodeAbandoned = ''attempt_abandoned''"

definition MessageHandlerError :: string where
  "MessageHandlerError = ''the trusted handler reported an error''"

definition MessageTimeout :: string where
  "MessageTimeout = ''the attempt exceeded its per-attempt execution deadline''"

definition MessageCanceled :: string where
  "MessageCanceled = ''the job was canceled''"

definition MessageAbandoned :: string where
  "MessageAbandoned = ''the worker lost authority without reporting an outcome''"

definition errorCodePattern :: "string \<Rightarrow> bool" where
  "errorCodePattern s = token_pattern 63 s"

text \<open>\<^verbatim>\<open>None\<close> is the nil error.\<close>

definition ValidateErrorCode :: "string \<Rightarrow> string option" where
  "ValidateErrorCode code =
     (if code = [] then Some ''error code is required''
      else if length code > MaxErrorCodeBytes then Some ''error code must be at most 64 bytes''
      else if \<not> errorCodePattern code
      then Some ''error code must match ^[a-z0-9][a-z0-9_.-]{0,63}$''
      else None)"

fun check_message_runes :: "rune list \<Rightarrow> string option" where
  "check_message_runes [] = None"
| "check_message_runes (r # rs) =
     (if r = 10 \<or> r = 13 then Some ''error message must not contain line breaks''
      else if IsControl r then Some ''error message must not contain control characters''
      else check_message_runes rs)"

definition ValidateErrorMessage :: "string \<Rightarrow> string option" where
  "ValidateErrorMessage message =
     (if length message > MaxErrorMessageBytes then Some ''error message must be at most 512 bytes''
      else check_message_runes (runes message))"

definition isRuneStart :: "string \<Rightarrow> nat \<Rightarrow> bool" where
  "isRuneStart s i = (length s \<le> i \<or> \<not> is_cont (s ! i))"

text \<open>The loop that shortens a cut until it falls on the start of a rune.\<close>

fun rune_cut :: "string \<Rightarrow> nat \<Rightarrow> nat" where
  "rune_cut s 0 = 0"
| "rune_cut s (Suc n) = (if isRuneStart s (Suc n) then Suc n else rune_cut s n)"

definition clean_rune :: "rune \<Rightarrow> rune option" where
  "clean_rune r = (if r = 10 \<or> r = 13 \<or> r = 9 then Some 32
     else if IsControl r then None else Some r)"

definition SafeMessage :: "string \<Rightarrow> string" where
  "SafeMessage message0 = (let message = TrimSpace message0 in
     if message = [] then []
     else let cleaned = strings_Join (strings_Fields (strings_Map clean_rune message)) '' '' in
       if length cleaned \<le> MaxErrorMessageBytes then cleaned
       else take (rune_cut cleaned MaxErrorMessageBytes) cleaned)"

text \<open>A rune the stored message may contain, and the strings made of such runes.\<close>

definition safe_rune :: "rune \<Rightarrow> bool" where
  "safe_rune r = (valid_rune r \<and> \<not> IsControl r)"

definition safe_string :: "string \<Rightarrow> bool" where
  "safe_string s = (\<exists>rs. list_all safe_rune rs \<and> s = encode_runes rs)"

lemma safe_string_runes: "list_all safe_rune rs \<Longrightarrow> safe_string (encode_runes rs)"
  by (auto simp: safe_string_def)

lemma safe_string_Nil: "safe_string []"
  using safe_string_runes [of "[]"] by (simp add: encode_runes_def)

lemma safe_string_space: "safe_string '' ''"
proof -
  have "chr (byte (CHR '' '')) = CHR '' ''"
    by (simp only: chr_def char_of_char)
  then have "chr 32 = CHR '' ''"
    by simp
  then show ?thesis
    using safe_string_runes [of "[32]"]
    by (simp add: safe_rune_def valid_rune_def IsControl_def encode_runes_def encode_rune_def)
qed

lemma safe_string_append: "safe_string s \<Longrightarrow> safe_string t \<Longrightarrow> safe_string (s @ t)"
  unfolding safe_string_def encode_runes_def
  by (metis concat_append list_all_append map_append)

lemma safe_string_valid: "safe_string s \<Longrightarrow> valid_utf8 s"
  by (auto simp: safe_string_def safe_rune_def list_all_iff intro!: valid_utf8_encode_runes)

lemma check_message_runes_safe: "list_all safe_rune rs \<Longrightarrow> check_message_runes rs = None"
  by (induction rs) (auto simp: safe_rune_def IsControl_def)

lemma safe_string_check: "safe_string s \<Longrightarrow> check_message_runes (runes s) = None"
proof -
  assume "safe_string s"
  then obtain rs where rs: "list_all safe_rune rs" "s = encode_runes rs"
    by (auto simp: safe_string_def)
  then have "runes s = rs"
    by (simp add: runes_encode_runes list_all_iff safe_rune_def)
  then show ?thesis
    using rs by (simp add: check_message_runes_safe)
qed

lemma safe_string_Map: "safe_string (strings_Map clean_rune s)"
proof -
  have "list_all safe_rune (List.map_filter clean_rune rs)" if "list_all valid_rune rs" for rs
    using that by (induction rs)
      (auto simp: List.map_filter_simps clean_rune_def safe_rune_def valid_rune_def IsControl_def)
  then show ?thesis
    using runes_valid [of s] by (auto simp: strings_Map_def intro: safe_string_runes)
qed

definition safe_chunk :: "rune \<times> string \<Rightarrow> bool" where
  "safe_chunk c = (safe_rune (fst c) \<and> snd c = encode_rune (fst c))"

lemma safe_string_chunks: "safe_string s \<Longrightarrow> list_all safe_chunk (chunks s)"
  by (auto simp: safe_string_def safe_rune_def list_all_iff chunks_encode_runes safe_chunk_def)

lemma safe_chunks_concat: "list_all safe_chunk cs \<Longrightarrow> safe_string (concat (map snd cs))"
proof (induction cs)
  case (Cons c cs)
  then have "safe_string (snd c)"
    using safe_string_runes [of "[fst c]"] by (simp add: safe_chunk_def encode_runes_def)
  then show ?case
    using Cons by (simp add: safe_string_append)
qed (simp add: safe_string_Nil)

lemma safe_fields: "list_all safe_chunk cs \<Longrightarrow> list_all safe_string (fields_of cs)"
proof (induction cs rule: fields_of.induct)
  case (1 cs)
  show ?case
  proof (cases "dropWhile chunk_space cs")
    case (Cons c cs')
    have "list_all safe_chunk (c # cs')"
      using 1(2) unfolding Cons [symmetric] by (auto simp: list_all_iff dest: set_dropWhileD)
    then have "list_all safe_chunk (c # takeWhile (\<lambda>x. \<not> chunk_space x) cs')"
      and "list_all safe_chunk (dropWhile (\<lambda>x. \<not> chunk_space x) cs')"
      by (auto simp: list_all_iff dest: set_takeWhileD set_dropWhileD)
    then show ?thesis
      using 1(1) [OF Cons] safe_chunks_concat [of "c # takeWhile (\<lambda>x. \<not> chunk_space x) cs'"]
      by (subst fields_of.simps) (simp add: Cons)
  next
    case Nil
    then show ?thesis
      by (subst fields_of.simps) (simp only: list.case list.pred_inject)
  qed
qed

lemma safe_Join: "list_all safe_string ss \<Longrightarrow> safe_string (strings_Join ss '' '')"
proof (induction ss "'' ''" rule: strings_Join.induct)
  case (3 s t ss)
  then have "safe_string (s @ ('' '' @ strings_Join (t # ss) '' ''))"
    by (intro safe_string_append safe_string_space) simp_all
  then show ?case
    by simp
qed (simp_all add: safe_string_Nil)

lemma rune_cut_le: "rune_cut s n \<le> n"
  by (induction n) auto

lemma rune_cut_start: "rune_cut s n = 0 \<or> isRuneStart s (rune_cut s n)"
  by (induction n) auto

text \<open>A cut at the start of a rune keeps whole runes.\<close>

lemma take_encode_runes:
  assumes "list_all valid_rune rs" and "n = 0 \<or> isRuneStart (encode_runes rs) n"
  shows "\<exists>k. take n (encode_runes rs) = encode_runes (take k rs)"
  using assms
proof (induction rs arbitrary: n)
  case (Cons r rs)
  obtain c cs where e: "encode_rune r = c # cs" "list_all is_cont cs"
    using Cons.prems(1) by (auto elim: encode_rune_shape)
  show ?case
  proof (cases "n < length (encode_rune r)")
    case True
    have "n = 0"
    proof (rule ccontr)
      assume "n \<noteq> 0"
      then obtain m where m: "n = Suc m" "m < length cs"
        using True e by (cases n) auto
      then have "is_cont (encode_runes (r # rs) ! n)"
        using e by (simp add: encode_runes_def nth_append list_all_length)
      then show False
        using Cons.prems(2) m e by (simp add: isRuneStart_def encode_runes_def)
    qed
    then show ?thesis
      by (intro exI [of _ 0]) (simp add: encode_runes_def)
  next
    case False
    define m where "m = n - length (encode_rune r)"
    have n: "n = length (encode_rune r) + m"
      using False by (simp add: m_def)
    have "isRuneStart (encode_runes rs) m"
      using Cons.prems(2) e n by (auto simp: isRuneStart_def encode_runes_def nth_append)
    then obtain k where "take m (encode_runes rs) = encode_runes (take k rs)"
      using Cons by auto
    then show ?thesis
      using n by (intro exI [of _ "Suc k"]) (simp add: encode_runes_def)
  qed
qed (simp add: encode_runes_def)

lemma safe_string_cut: "safe_string s \<Longrightarrow> safe_string (take (rune_cut s n) s)"
proof -
  assume "safe_string s"
  then obtain rs where rs: "list_all safe_rune rs" "s = encode_runes rs"
    by (auto simp: safe_string_def)
  then have "list_all valid_rune rs"
    by (simp add: list_all_iff safe_rune_def)
  then obtain k where "take (rune_cut s n) s = encode_runes (take k rs)"
    using take_encode_runes rune_cut_start rs by metis
  moreover have "list_all safe_rune (take k rs)"
    using rs by (auto simp: list_all_iff dest: in_set_takeD)
  ultimately show ?thesis
    by (simp add: safe_string_runes)
qed

lemma SafeMessage_safe: "safe_string (SafeMessage m)" and SafeMessage_length: "length (SafeMessage m) \<le> MaxErrorMessageBytes"
proof -
  have "safe_string (strings_Join (strings_Fields (strings_Map clean_rune m')) '' '')" for m'
    unfolding strings_Fields_def
    by (intro safe_Join safe_fields safe_string_chunks safe_string_Map)
  then show "safe_string (SafeMessage m)"
    by (simp add: SafeMessage_def Let_def safe_string_Nil safe_string_cut)
  show "length (SafeMessage m) \<le> MaxErrorMessageBytes"
    using rune_cut_le by (simp add: SafeMessage_def Let_def min.coboundedI2)
qed

section \<open>Retry policy\<close>

record RetryPolicy =
  PolicyBase :: dur
  PolicyMax :: dur
  PolicyMultiplier :: f64
  PolicyJitter :: f64

definition isFinite :: "f64 \<Rightarrow> bool" where
  "isFinite v = (\<not> f_isNaN v \<and> \<not> f_isInf v)"

text \<open>The list of problems; the source returns an error exactly when it is not empty.\<close>

definition RetryPolicy_Validate :: "RetryPolicy \<Rightarrow> string list" where
  "RetryPolicy_Validate p =
     (if PolicyBase p \<le> 0 then [''base delay must be positive''] else [])
   @ (if PolicyMax p < Millisecond then [''maximum delay must be at least 1ms'']
      else if PolicyMax p mod Millisecond \<noteq> 0
      then [''maximum delay must be a whole number of milliseconds''] else [])
   @ (if PolicyMax p < PolicyBase p then [''maximum delay must be at least the base delay''] else [])
   @ (if \<not> isFinite (PolicyMultiplier p) then [''multiplier must be a finite number'']
      else if f_lt (PolicyMultiplier p) (F_Fin 1) then [''multiplier must be at least 1''] else [])
   @ (if \<not> isFinite (PolicyJitter p) then [''jitter must be a finite number'']
      else if f_lt (PolicyJitter p) (F_Fin 0) \<or> f_lt (F_Fin 1) (PolicyJitter p)
      then [''jitter must be between 0 and 1''] else [])"

definition MaxInt64 :: int where
  "MaxInt64 = 2 ^ 63 - 1"

definition maxDelayMillis :: int where
  "maxDelayMillis = MaxInt64 div Millisecond"

definition capMillis :: "dur \<Rightarrow> int" where
  "capMillis mx = (if mx \<le> 0 then 1
     else let ms = go_div mx Millisecond in
       if ms < 1 then 1 else if ms > maxDelayMillis then maxDelayMillis else ms)"

definition quantizeNanos :: "f64 \<Rightarrow> dur \<Rightarrow> dur" where
  "quantizeNanos nanos mx = (let capMs = capMillis mx in
     if f_isNaN nanos then 0
     else if nanos = F_PInf then capMs * Millisecond
     else if f_le nanos (F_Fin 0) then 0
     else let ms0 = f_ceil (f_div_pos nanos 1000000);
              ms = (if f_lt ms0 (F_Fin 1) then F_Fin 1 else ms0)
          in if f_le (f_of_int capMs) ms then capMs * Millisecond
             else f_trunc ms * Millisecond)"

text \<open>\<^verbatim>\<open>math.Nextafter(1, 0)\<close>.\<close>

definition nextafter_1_0 :: f64 where
  "nextafter_1_0 = F_Fin (1 - 1 / 2 ^ 53)"

definition clamp_sample :: "f64 \<Rightarrow> f64" where
  "clamp_sample s0 = (let s1 = (if \<not> isFinite s0 then F_Fin 0 else s0);
                          s2 = (if f_lt s1 (F_Fin 0) then F_Fin 0 else s1)
                      in if f_le (F_Fin 1) s2 then nextafter_1_0 else s2)"

text \<open>
  \<^verbatim>\<open>pow\<close> stands for \<^verbatim>\<open>math.Pow\<close>, whose last bits differ between architectures; the jitter source is
  absent (\<^verbatim>\<open>None\<close>, the nil interface) or the sample it would return.
\<close>

definition Delay :: "(f64 \<Rightarrow> f64 \<Rightarrow> f64) \<Rightarrow> RetryPolicy \<Rightarrow> int \<Rightarrow> f64 option \<Rightarrow> dur" where
  "Delay pow p attemptNumber0 jitter = (
     let attemptNumber = (if attemptNumber0 < 1 then 1 else attemptNumber0);
         base = (if PolicyBase p \<le> 0 then Second else PolicyBase p);
         multiplier = (if f_lt (PolicyMultiplier p) (F_Fin 1) then F_Fin 1 else PolicyMultiplier p);
         mx = (if PolicyMax p < base then base else PolicyMax p);
         growth = pow multiplier (f_of_int (attemptNumber - 1));
         delay0 = f_mul (f_of_int base) growth;
         delay1 = (if f_isNaN delay0 \<or> f_isInf delay0 \<or> f_lt (f_of_int mx) delay0
                   then f_of_int mx else delay0);
         delay2 = (case jitter of None \<Rightarrow> delay1
            | Some s \<Rightarrow>
                if isFinite (PolicyJitter p) \<and> f_lt (F_Fin 0) (PolicyJitter p) then
                  let fraction = (if f_lt (F_Fin 1) (PolicyJitter p) then F_Fin 1 else PolicyJitter p)
                  in f_mul delay1 (f_add (F_Fin 1)
                       (f_mul fraction (f_sub (f_mul (F_Fin 2) (clamp_sample s)) (F_Fin 1))))
                else delay1);
         delay3 = (if f_lt delay2 (F_Fin 0) then F_Fin 0 else delay2)
     in quantizeNanos delay3 mx)"

record Decision =
  Retry :: bool
  DecisionDelay :: dur
  DeadLetterReason :: DLQReason

datatype lifecycle_error = ErrNoRetryDecision FailureClass

definition retry_after :: "dur \<Rightarrow> Decision" where
  "retry_after d = \<lparr> Retry = True, DecisionDelay = d, DeadLetterReason = ReasonOther [] \<rparr>"

definition dead_letter :: "DLQReason \<Rightarrow> Decision" where
  "dead_letter r = \<lparr> Retry = False, DecisionDelay = 0, DeadLetterReason = r \<rparr>"

fun Decide :: "(f64 \<Rightarrow> f64 \<Rightarrow> f64) \<Rightarrow> RetryPolicy \<Rightarrow> FailureClass \<Rightarrow> int \<Rightarrow> int \<Rightarrow> int \<Rightarrow> f64 option
    \<Rightarrow> lifecycle_error + Decision" where
  "Decide pow p ClassPermanent attemptNumber attemptsUsed maxAttempts jitter =
     Inr (dead_letter ReasonPermanentFailure)"
| "Decide pow p ClassRetryable attemptNumber attemptsUsed maxAttempts jitter =
     (if attemptsUsed < maxAttempts then Inr (retry_after (Delay pow p attemptNumber jitter))
      else Inr (dead_letter ReasonAttemptsExhausted))"
| "Decide pow p ClassTimedOut attemptNumber attemptsUsed maxAttempts jitter =
     (if attemptsUsed < maxAttempts then Inr (retry_after (Delay pow p attemptNumber jitter))
      else Inr (dead_letter ReasonAttemptsExhausted))"
| "Decide pow p ClassAbandoned attemptNumber attemptsUsed maxAttempts jitter =
     (if attemptsUsed < maxAttempts then Inr (retry_after 0)
      else Inr (dead_letter ReasonAttemptsExhausted))"
| "Decide pow p c attemptNumber attemptsUsed maxAttempts jitter = Inl (ErrNoRetryDecision c)"

section \<open>Bounds of the delay\<close>

lemma capMillis_bounds: "1 \<le> capMillis mx" "capMillis mx \<le> maxDelayMillis"
  by (auto simp: capMillis_def Let_def maxDelayMillis_def MaxInt64_def Millisecond_def)

lemma capMillis_le:
  assumes "Millisecond \<le> mx"
  shows "capMillis mx * Millisecond \<le> mx"
proof -
  have "capMillis mx \<le> mx div Millisecond"
    using assms by (auto simp: capMillis_def Let_def Millisecond_def go_div_nonneg)
  then have "capMillis mx * Millisecond \<le> mx div Millisecond * Millisecond"
    by (simp add: Millisecond_def)
  also have "\<dots> \<le> mx"
    using div_mult_mod_eq [of mx Millisecond] pos_mod_sign [of Millisecond mx]
    by (simp add: Millisecond_def)
  finally show ?thesis .
qed

lemma f_of_int_capMillis: "f_of_int (capMillis mx) = F_Fin (of_int (capMillis mx))"
  using capMillis_bounds [of mx]
  by (intro f_of_int_exact) (simp add: maxDelayMillis_def MaxInt64_def Millisecond_def)

lemma f_ceil_integral: "f_ceil x = F_Fin r \<Longrightarrow> r = of_int \<lfloor>r\<rfloor>"
  by (cases x) auto

text \<open>The rounded millisecond count \<^verbatim>\<open>quantizeNanos\<close> compares with the cap.\<close>

definition quant_ms :: "f64 \<Rightarrow> f64" where
  "quant_ms x = (let ms0 = f_ceil (f_div_pos x 1000000) in if f_lt ms0 (F_Fin 1) then F_Fin 1 else ms0)"

lemma quantizeNanos_alt:
  "quantizeNanos x mx = (if f_isNaN x then 0 else if x = F_PInf then capMillis mx * Millisecond
      else if f_le x (F_Fin 0) then 0
      else if f_le (F_Fin (of_int (capMillis mx))) (quant_ms x) then capMillis mx * Millisecond
      else f_trunc (quant_ms x) * Millisecond)"
  by (simp add: quantizeNanos_def quant_ms_def Let_def f_of_int_capMillis)

lemma quant_ms_below_cap:
  assumes "\<not> f_le (F_Fin (of_int (capMillis mx))) (quant_ms x)"
  shows "0 \<le> f_trunc (quant_ms x) \<and> f_trunc (quant_ms x) \<le> capMillis mx"
proof (cases "quant_ms x")
  case (F_Fin r)
  then have r: "r = of_int \<lfloor>r\<rfloor>" "1 \<le> r"
    using f_ceil_integral by (auto simp: quant_ms_def Let_def split: if_splits)
  have "r < of_int (capMillis mx)"
    using assms F_Fin by (auto simp: f_le_def)
  then show ?thesis
    using F_Fin r by (simp add: floor_le_iff)
qed (use capMillis_bounds [of mx] in auto)

text \<open>Every quantised delay is a whole number of milliseconds between zero and the cap.\<close>

lemma quantizeNanos_bounds:
  "\<exists>k. quantizeNanos x mx = k * Millisecond \<and> 0 \<le> k \<and> k \<le> capMillis mx"
proof -
  have "quantizeNanos x mx = 0 * Millisecond \<or> quantizeNanos x mx = capMillis mx * Millisecond
    \<or> quantizeNanos x mx = f_trunc (quant_ms x) * Millisecond
      \<and> \<not> f_le (F_Fin (of_int (capMillis mx))) (quant_ms x)"
    unfolding quantizeNanos_alt by simp
  then show ?thesis
    using quant_ms_below_cap [of mx x] capMillis_bounds(1) [of mx]
    by (elim disjE conjE) (rule exI, rule conjI, assumption, simp)+
qed

lemma quant_ms_pos:
  assumes "\<not> f_le (F_Fin (of_int (capMillis mx))) (quant_ms x)" and "x = F_Fin y" and "0 < y"
  shows "1 \<le> f_trunc (quant_ms x)"
proof -
  have "round64 (y / 1000000) = F_PInf \<or> (\<exists>r\<ge>0. round64 (y / 1000000) = F_Fin r)"
    using assms(3) round_pos_nonneg [of "y / 1000000"] by (simp add: round64_def)
  then obtain r where "quant_ms x = F_Fin r" "1 \<le> r"
    using assms by (auto simp: quant_ms_def Let_def f_le_def split: if_splits)
  then show ?thesis
    by (simp add: le_floor_iff)
qed

lemma quantizeNanos_pos:
  assumes "f_lt (F_Fin 0) x"
  shows "0 < quantizeNanos x mx"
proof (cases x)
  case (F_Fin y)
  then show ?thesis
    using assms capMillis_bounds(1) [of mx] quant_ms_pos [of mx x y]
    by (auto simp: quantizeNanos_alt f_isNaN_def f_le_def [of "F_Fin y"] Millisecond_def)
qed (use assms capMillis_bounds(1) [of mx] in
    \<open>auto simp: quantizeNanos_alt f_isNaN_def Millisecond_def\<close>)

lemma RetryPolicy_ValidD:
  assumes "RetryPolicy_Validate p = []"
  shows "0 < PolicyBase p" "Millisecond \<le> PolicyMax p" "Millisecond dvd PolicyMax p"
    "PolicyBase p \<le> PolicyMax p"
    "\<exists>m. PolicyMultiplier p = F_Fin m \<and> 1 \<le> m" "\<exists>j. PolicyJitter p = F_Fin j \<and> 0 \<le> j \<and> j \<le> 1"
  using assms
  by (cases "PolicyMultiplier p"; cases "PolicyJitter p";
      auto simp: RetryPolicy_Validate_def isFinite_def f_isNaN_def f_isInf_def split: if_splits)+

lemma Delay_quantized: "\<exists>x. Delay pow p n jitter = quantizeNanos x
    (if PolicyMax p < (if PolicyBase p \<le> 0 then Second else PolicyBase p)
     then (if PolicyBase p \<le> 0 then Second else PolicyBase p) else PolicyMax p)"
  unfolding Delay_def Let_def by blast

lemma Delay_bounds:
  assumes "RetryPolicy_Validate p = []"
  obtains k where "Delay pow p n jitter = k * Millisecond" and "0 \<le> k" and "k * Millisecond \<le> PolicyMax p"
proof -
  note v = RetryPolicy_ValidD [OF assms]
  obtain x where "Delay pow p n jitter = quantizeNanos x (PolicyMax p)"
    using Delay_quantized [of pow p n jitter] v by (auto split: if_splits)
  then obtain k where "Delay pow p n jitter = k * Millisecond" "0 \<le> k" "k \<le> capMillis (PolicyMax p)"
    using quantizeNanos_bounds by auto
  moreover have "k * Millisecond \<le> capMillis (PolicyMax p) * Millisecond"
    using calculation by (simp add: Millisecond_def)
  ultimately show thesis
    using that capMillis_le [OF v(2)] by fastforce
qed

text \<open>Without jitter, and as long as \<^verbatim>\<open>pow\<close> does not shrink, the delay is positive.\<close>

lemma f_mul_ge1:
  assumes "x = F_PInf \<or> (\<exists>r \<ge> 1. x = F_Fin r)" and "y = F_PInf \<or> (\<exists>r \<ge> 1. y = F_Fin r)"
  shows "f_mul x y = F_PInf \<or> (\<exists>r \<ge> 1. f_mul x y = F_Fin r)"
proof (cases x)
  case (F_Fin r)
  show ?thesis
  proof (cases y)
    case (F_Fin r')
    have "1 * 1 \<le> r * r'"
      using assms \<open>x = F_Fin r\<close> F_Fin by (intro mult_mono) auto
    then show ?thesis
      using round_pos_ge1 [of "r * r'"] \<open>x = F_Fin r\<close> F_Fin by (auto simp: round64_def)
  qed (use assms F_Fin in auto)
qed (use assms in auto)

lemma Delay_pos:
  assumes "RetryPolicy_Validate p = []"
    and "\<And>m k. 1 \<le> m \<Longrightarrow> pow (F_Fin m) k = F_PInf \<or> (\<exists>r \<ge> 1. pow (F_Fin m) k = F_Fin r)"
  shows "0 < Delay pow p n None"
proof -
  note v = RetryPolicy_ValidD [OF assms(1)]
  obtain m where m: "PolicyMultiplier p = F_Fin m" "1 \<le> m"
    using v(5) by blast
  define g where "g = pow (F_Fin m) (f_of_int ((if n < 1 then 1 else n) - 1))"
  define d where "d = f_mul (f_of_int (PolicyBase p)) g"
  have d: "d = F_PInf \<or> (\<exists>r \<ge> 1. d = F_Fin r)"
    unfolding d_def g_def using v(1) by (intro f_mul_ge1 f_of_int_ge1 assms(2) m) simp
  have mx: "f_of_int (PolicyMax p) = F_PInf \<or> (\<exists>r \<ge> 1. f_of_int (PolicyMax p) = F_Fin r)"
    using v by (intro f_of_int_ge1) (simp add: Millisecond_def)
  define e where "e = (if f_isNaN d \<or> f_isInf d \<or> f_lt (f_of_int (PolicyMax p)) d
    then f_of_int (PolicyMax p) else d)"
  have e: "e = F_PInf \<or> (\<exists>r \<ge> 1. e = F_Fin r)"
    using d mx by (simp add: e_def)
  have "Delay pow p n None = quantizeNanos (if f_lt e (F_Fin 0) then F_Fin 0 else e) (PolicyMax p)"
    using v m by (simp add: Delay_def Let_def d_def e_def g_def)
  moreover have "f_lt (F_Fin 0) e" "\<not> f_lt e (F_Fin 0)"
    using e by auto
  ultimately show ?thesis
    by (simp add: quantizeNanos_pos)
qed

text \<open>What a decision is worth: it retries exactly when budget remains, and only for three classes.\<close>

lemma Decide_cases:
  assumes "Decide pow p c n used mx jitter = Inr d"
  shows "(c = ClassPermanent \<and> d = dead_letter ReasonPermanentFailure)
    \<or> (c \<in> {ClassRetryable, ClassTimedOut, ClassAbandoned} \<and>
        (if used < mx then d = retry_after (if c = ClassAbandoned then 0 else Delay pow p n jitter)
         else d = dead_letter ReasonAttemptsExhausted))"
  using assms by (cases c) (auto split: if_splits)

lemma Decide_retry_budget:
  assumes "Decide pow p c n used mx jitter = Inr d" and "Retry d"
  shows "used < mx"
  using Decide_cases [OF assms(1)] assms(2) by (auto simp: dead_letter_def split: if_splits)

end
