(* ===== verification/Schema.thy ===== *)
theory Schema
  imports Lifecycle
begin

text \<open>
  The relational state (\<^verbatim>\<open>migrations/*.sql\<close> with the row types of \<^verbatim>\<open>internal/jobs/job.go\<close> and
  \<^verbatim>\<open>internal/workers/types.go\<close>). Each table is a list of rows, one record field per column; the
  database is the record of the tables. Status columns are datatypes with one constructor per
  value their CHECK constraint allows.
\<close>

section \<open>Statuses\<close>

datatype Status = StatusPending | StatusQueued | StatusLeased | StatusRunning | StatusRetryWait
  | StatusCancelRequested | StatusSucceeded | StatusCanceled | StatusDeadLettered

datatype SessionStatus = SessionStarting | SessionHealthy | SessionDraining | SessionUnhealthy
  | SessionOffline

datatype AttemptStatus = AttemptLeased | AttemptRunning | AttemptSucceeded | AttemptFailed
  | AttemptTimedOut | AttemptCanceled | AttemptAbandoned

datatype LeaseStatus = LeaseActive | LeaseCompleted | LeaseExpired | LeaseReleased

datatype EventStatus = EventPending | EventPublished

datatype Location = LocationInline | LocationObject | LocationOther string

fun Terminal :: "Status \<Rightarrow> bool" where
  "Terminal StatusSucceeded = True"
| "Terminal StatusCanceled = True"
| "Terminal StatusDeadLettered = True"
| "Terminal _ = False"

definition Executing :: "Status \<Rightarrow> bool" where
  "Executing s = (s = StatusLeased \<or> s = StatusRunning)"

definition isExecutingJobStatus :: "Status \<Rightarrow> bool" where
  "isExecutingJobStatus s = (s = StatusLeased \<or> s = StatusRunning)"

definition isExecutingAttemptStatus :: "AttemptStatus \<Rightarrow> bool" where
  "isExecutingAttemptStatus s = (s = AttemptLeased \<or> s = AttemptRunning)"

definition isCurrentSessionStatus :: "SessionStatus \<Rightarrow> bool" where
  "isCurrentSessionStatus s = (s = SessionStarting \<or> s = SessionHealthy \<or> s = SessionDraining)"

section \<open>Rows\<close>

record queue_row =
  q_name :: string
  q_max_concurrency :: int
  q_worker_group :: string

record job_row =
  j_id :: uuid
  j_scope :: string
  j_queue :: string
  j_job_type :: string
  j_payload :: string
  j_status :: Status
  j_priority :: int
  j_max_attempts :: int
  j_timeout_seconds :: int
  j_required_capabilities :: "string list"
  j_created_at :: ts
  j_updated_at :: ts
  j_available_at :: ts
  j_scheduled_at :: "ts option"
  j_cancel_requested_at :: "ts option"
  j_replayed_from :: "uuid option"
  j_generation :: int
  j_last_notification_at :: "ts option"

record idempotency_row =
  i_scope :: string
  i_key :: string
  i_fingerprint :: string
  i_job_id :: uuid

record event_row =
  e_id :: uuid
  e_queue :: string
  e_job_id :: uuid
  e_generation :: int
  e_trace :: "(string \<times> string) option"
  e_status :: EventStatus
  e_attempts :: int
  e_available_at :: ts
  e_claimed_at :: "ts option"
  e_published_at :: "ts option"
  e_last_error :: "string option"
  e_created_at :: ts

record worker_row =
  w_id :: uuid
  w_scope :: string
  w_name :: string
  w_updated_at :: ts

record session_row =
  s_id :: uuid
  s_worker_id :: uuid
  s_scope :: string
  s_hostname :: string
  s_worker_group :: string
  s_concurrency_limit :: int
  s_capabilities :: "string list"
  s_supported_job_types :: "string list"
  s_status :: SessionStatus
  s_registered_at :: ts
  s_last_heartbeat_at :: ts
  s_ended_at :: "ts option"
  s_worker_key_id :: "uuid option"

record attempt_row =
  a_id :: uuid
  a_job_id :: uuid
  a_scope :: string
  a_queue :: string
  a_number :: int
  a_worker_id :: uuid
  a_session_id :: uuid
  a_status :: AttemptStatus
  a_started_at :: "ts option"
  a_finished_at :: "ts option"
  a_created_at :: ts
  a_timeout_at :: "ts option"
  a_outcome_request_id :: "uuid option"
  a_failure_class :: "FailureClass option"
  a_error_code :: "string option"
  a_error_message :: "string option"
  a_retry_delay_ms :: "int option"
  a_retry_at :: "ts option"

record lease_row =
  l_id :: uuid
  l_job_id :: uuid
  l_attempt_id :: uuid
  l_scope :: string
  l_queue :: string
  l_worker_id :: uuid
  l_session_id :: uuid
  l_claim_request_id :: uuid
  l_status :: LeaseStatus
  l_acquired_at :: ts
  l_expires_at :: ts
  l_renewed_at :: ts
  l_released_at :: "ts option"
  l_renewal_version :: int
  l_renewal_id :: "uuid option"

record dlq_row =
  d_id :: uuid
  d_scope :: string
  d_queue :: string
  d_job_id :: uuid
  d_attempt_id :: "uuid option"
  d_reason :: DLQReason
  d_created_at :: ts

record replay_row =
  p_scope :: string
  p_original :: uuid
  p_key :: string
  p_replacement :: uuid

record result_row =
  r_job_id :: uuid
  r_attempt_id :: uuid
  r_scope :: string
  r_location :: Location
  r_inline :: "string option"
  r_bucket :: string
  r_key :: string
  r_size :: int
  r_checksum :: string

record db =
  db_queues :: "queue_row list"
  db_jobs :: "job_row list"
  db_idempotency :: "idempotency_row list"
  db_outbox :: "event_row list"
  db_workers :: "worker_row list"
  db_sessions :: "session_row list"
  db_attempts :: "attempt_row list"
  db_leases :: "lease_row list"
  db_dlq :: "dlq_row list"
  db_replays :: "replay_row list"
  db_results :: "result_row list"

abbreviation get_queue :: "db \<Rightarrow> string \<Rightarrow> queue_row option" where
  "get_queue d \<equiv> lookup q_name (db_queues d)"

abbreviation get_job :: "db \<Rightarrow> uuid \<Rightarrow> job_row option" where
  "get_job d \<equiv> lookup j_id (db_jobs d)"

abbreviation get_session :: "db \<Rightarrow> uuid \<Rightarrow> session_row option" where
  "get_session d \<equiv> lookup s_id (db_sessions d)"

abbreviation get_attempt :: "db \<Rightarrow> uuid \<Rightarrow> attempt_row option" where
  "get_attempt d \<equiv> lookup a_id (db_attempts d)"

abbreviation get_lease :: "db \<Rightarrow> uuid \<Rightarrow> lease_row option" where
  "get_lease d \<equiv> lookup l_id (db_leases d)"

abbreviation get_event :: "db \<Rightarrow> uuid \<Rightarrow> event_row option" where
  "get_event d \<equiv> lookup e_id (db_outbox d)"

text \<open>The database after the migrations: one queue and nothing else.\<close>

definition initial_db :: db where
  "initial_db = \<lparr> db_queues = [\<lparr> q_name = ''default'', q_max_concurrency = 100, q_worker_group = ''default'' \<rparr>],
     db_jobs = [], db_idempotency = [], db_outbox = [], db_workers = [], db_sessions = [],
     db_attempts = [], db_leases = [], db_dlq = [], db_replays = [], db_results = [] \<rparr>"

section \<open>Errors of the stores\<close>

text \<open>
  The sentinel errors of \<^verbatim>\<open>internal/workers\<close> and \<^verbatim>\<open>internal/jobs\<close>. \<^verbatim>\<open>ErrValidation\<close> carries the field names
  and messages, \<^verbatim>\<open>ErrDatabase\<close> is a wrapped driver error (an unexpected constraint violation).
\<close>

datatype store_error = ErrUnknownQueue | ErrSessionConflict | ErrSessionUnavailable | ErrClaimConflict
  | ErrFenceRejected | ErrLeaseExpired | ErrStateConflict | ErrRenewalConflict | ErrDeadlineExceeded
  | ErrAttemptTimedOut | ErrOutcomeConflict | ErrCancellationRequested
  | ErrJobNotFound | ErrResultNotFound | ErrIdempotencyConflict | ErrJobNotCancelable | ErrNotDeadLettered
  | ErrDLQEntryExists | ErrInvalidResult
  | ErrValidation "(string \<times> string) list" | ErrDatabase string

end
