(* ===== verification/Outbox.thy ===== *)
theory Outbox
  imports Schema
begin

text \<open>
  The package \<^verbatim>\<open>internal/outbox\<close>: the transactional insertion and the statements of the store
  (\<^verbatim>\<open>store.go\<close>), one pass of the publisher (\<^verbatim>\<open>publisher.go\<close>) with the broker's answers as inputs,
  and the publisher's backoff (\<^verbatim>\<open>backoff.go\<close>).
\<close>

section \<open>Store\<close>

text \<open>
  \<^verbatim>\<open>now\<close> is the transaction's \<^verbatim>\<open>now()\<close>, the default of the time columns; \<^verbatim>\<open>eid\<close> the result of
  \<^verbatim>\<open>uuid.New()\<close>. A duplicate primary key or a missing job (the foreign key) fails the statement.
\<close>

definition event_trace :: "(string \<times> string) option \<Rightarrow> (string \<times> string) option" where
  "event_trace trace = (case trace of None \<Rightarrow> None | Some (tp, st) \<Rightarrow> if tp = [] then None else Some (tp, st))"

definition work_available :: "ts \<Rightarrow> uuid \<Rightarrow> uuid \<Rightarrow> string \<Rightarrow> int \<Rightarrow> (string \<times> string) option \<Rightarrow> event_row" where
  "work_available now eid jobID queue generation trace =
     \<lparr> e_id = eid, e_queue = queue, e_job_id = jobID, e_generation = generation,
       e_trace = event_trace trace, e_status = EventPending, e_attempts = 0, e_available_at = now,
       e_claimed_at = None, e_published_at = None, e_last_error = None, e_created_at = now \<rparr>"

definition InsertWorkAvailableTx :: "ts \<Rightarrow> uuid \<Rightarrow> uuid \<Rightarrow> string \<Rightarrow> int \<Rightarrow> (string \<times> string) option
    \<Rightarrow> db \<Rightarrow> store_error + (uuid \<times> db)" where
  "InsertWorkAvailableTx now eid jobID queue generation trace d =
     (if generation < 1 then Inl (ErrDatabase ''work.available notification generation must be at least 1'')
      else if get_event d eid \<noteq> None \<or> get_job d jobID = None then Inl (ErrDatabase ''insert outbox event'')
      else Inr (eid, d\<lparr> db_outbox := db_outbox d @ [work_available now eid jobID queue generation trace] \<rparr>))"

definition HasPendingWorkAvailableTx :: "uuid \<Rightarrow> int \<Rightarrow> db \<Rightarrow> bool" where
  "HasPendingWorkAvailableTx jobID generation d =
     list_ex (\<lambda>e. e_job_id e = jobID \<and> e_generation e = generation \<and> e_status e = EventPending) (db_outbox d)"

definition due_events :: "ts \<Rightarrow> nat \<Rightarrow> db \<Rightarrow> event_row list" where
  "due_events now limit d = select_ordered (\<lambda>e. e_status e = EventPending \<and> e_available_at e \<le> now)
     (\<lambda>e. (e_available_at e, e_id e)) limit (db_outbox d)"

definition claim_event :: "ts \<Rightarrow> dur \<Rightarrow> event_row \<Rightarrow> event_row" where
  "claim_event now claimTimeout e = e\<lparr> e_attempts := e_attempts e + 1, e_claimed_at := Some now,
     e_available_at := add_dur now claimTimeout \<rparr>"

definition ClaimDue :: "ts \<Rightarrow> nat \<Rightarrow> dur \<Rightarrow> db \<Rightarrow> event_row list \<times> db" where
  "ClaimDue now limit claimTimeout d = (
     let ids = map e_id (due_events now limit d);
         t = upd_where (\<lambda>e. e_id e \<in> set ids) (claim_event now claimTimeout) (db_outbox d)
     in (filter (\<lambda>e. e_id e \<in> set ids) t, d\<lparr> db_outbox := t \<rparr>))"

definition MarkPublished :: "ts \<Rightarrow> uuid \<Rightarrow> db \<Rightarrow> bool \<times> db" where
  "MarkPublished now eid d = (
     let p = (\<lambda>e. e_id e = eid \<and> e_status e = EventPending)
     in (count_where p (db_outbox d) = 1,
         d\<lparr> db_outbox := upd_where p (\<lambda>e. e\<lparr> e_status := EventPublished, e_published_at := Some now,
              e_last_error := None \<rparr>) (db_outbox d) \<rparr>))"

definition maxStoredError :: nat where
  "maxStoredError = 1000"

text \<open>A value of type \<^verbatim>\<open>text\<close>: PostgreSQL refuses a byte sequence that is not UTF-8 or that has a zero byte.\<close>

definition storable_text :: "string \<Rightarrow> bool" where
  "storable_text s = (valid_utf8 s \<and> CHR 0x00 \<notin> set s)"

definition RecordFailure :: "ts \<Rightarrow> uuid \<Rightarrow> string \<Rightarrow> dur \<Rightarrow> db \<Rightarrow> store_error + (unit \<times> db)" where
  "RecordFailure now eid cause0 retryAfter d = (
     let cause = (if length cause0 > maxStoredError then take maxStoredError cause0 else cause0)
     in if \<not> storable_text cause then Inl (ErrDatabase ''record outbox failure'')
        else Inr ((), d\<lparr> db_outbox := upd_where (\<lambda>e. e_id e = eid \<and> e_status e = EventPending)
          (\<lambda>e. e\<lparr> e_last_error := Some cause, e_available_at := add_dur now retryAfter \<rparr>) (db_outbox d) \<rparr>))"

definition PendingCount :: "db \<Rightarrow> nat" where
  "PendingCount d = count_where (\<lambda>e. e_status e = EventPending) (db_outbox d)"

definition ReleaseClaim :: "ts \<Rightarrow> uuid \<Rightarrow> db \<Rightarrow> db" where
  "ReleaseClaim now eid d = d\<lparr> db_outbox := upd_where (\<lambda>e. e_id e = eid \<and> e_status e = EventPending)
     (\<lambda>e. e\<lparr> e_available_at := now \<rparr>) (db_outbox d) \<rparr>"

section \<open>Backoff\<close>

record BackoffPolicy =
  BackoffBase :: dur
  BackoffMax :: dur
  BackoffMultiplier :: f64
  BackoffJitter :: f64

text \<open>
  \<^verbatim>\<open>time.Duration(x)\<close> of a value outside the range of int64 (or NaN) is implementation-defined in Go:
  \<^verbatim>\<open>None\<close>.
\<close>

definition f_to_int64 :: "f64 \<Rightarrow> int option" where
  "f_to_int64 x = (case x of F_Fin r \<Rightarrow>
       if - (2 ^ 63) \<le> f_trunc x \<and> f_trunc x < 2 ^ 63 then Some (f_trunc x) else None
     | _ \<Rightarrow> None)"

definition Backoff_Delay :: "(f64 \<Rightarrow> f64 \<Rightarrow> f64) \<Rightarrow> BackoffPolicy \<Rightarrow> int \<Rightarrow> f64 option \<Rightarrow> dur option" where
  "Backoff_Delay pow p attempts0 rnd = (
     let attempts = (if attempts0 < 1 then 1 else attempts0);
         base = (if BackoffBase p \<le> 0 then Second else BackoffBase p);
         mult = (if f_lt (BackoffMultiplier p) (F_Fin 1) then F_Fin 1 else BackoffMultiplier p);
         mx = (if BackoffMax p < base then base else BackoffMax p);
         growth = pow mult (f_of_int (attempts - 1));
         d0 = f_mul (f_of_int base) growth;
         d1 = (if f_isInf d0 \<or> f_lt (f_of_int mx) d0 then f_of_int mx else d0);
         d2 = (case rnd of None \<Rightarrow> d1 | Some s \<Rightarrow>
                 if f_lt (F_Fin 0) (BackoffJitter p) then
                   let j = (if f_lt (F_Fin 1) (BackoffJitter p) then F_Fin 1 else BackoffJitter p)
                   in f_mul d1 (f_add (F_Fin 1) (f_mul j (f_sub (f_mul (F_Fin 2) s) (F_Fin 1))))
                 else d1);
         d3 = (if f_lt d2 (F_Fin 0) then F_Fin 0 else d2);
         d4 = (if f_lt (f_of_int mx) d3 then f_of_int mx else d3)
     in f_to_int64 d4)"

section \<open>Publisher\<close>

record Stats =
  Claimed_n :: nat
  Published_n :: nat
  Failed_n :: nat
  AlreadyPublished_n :: nat

record publisher_cfg =
  pc_BatchSize :: nat
  pc_ClaimTimeout :: dur
  pc_Backoff :: BackoffPolicy
  pc_pow :: "f64 \<Rightarrow> f64 \<Rightarrow> f64"

text \<open>
  What the environment answers for one event: whether the context was cancelled before it, a
  serialisation error of the body, the broker's error, whether the mark statement failed, whether
  the connection failed while the failure was recorded, the database time, the random sample of the
  backoff and the duration the platform makes of a float64 outside the range of int64.
\<close>

record publish_env =
  env_done :: bool
  env_body_error :: "string option"
  env_publish_error :: "string option"
  env_mark_error :: bool
  env_record_error :: bool
  env_now :: ts
  env_rnd :: "f64 option"
  env_overflow :: dur

definition publisher_recordFailure :: "publisher_cfg \<Rightarrow> publish_env \<Rightarrow> event_row \<Rightarrow> string \<Rightarrow> db \<Rightarrow> db" where
  "publisher_recordFailure pc env e cause d = (
     let delay = (case Backoff_Delay (pc_pow pc) (pc_Backoff pc) (e_attempts e) (env_rnd env) of
                    Some t \<Rightarrow> t | None \<Rightarrow> env_overflow env)
     in if env_record_error env then d else commit d (RecordFailure (env_now env) (e_id e) cause delay d))"

text \<open>
  The loop over the claimed events. It returns the database, the statistics, the events the broker
  accepted in order, and whether the pass was cut short by cancellation.
\<close>

fun publish_loop :: "publisher_cfg \<Rightarrow> event_row list \<Rightarrow> (event_row \<Rightarrow> publish_env) \<Rightarrow> db \<Rightarrow> Stats \<Rightarrow> uuid list
    \<Rightarrow> db \<times> Stats \<times> uuid list \<times> bool" where
  "publish_loop pc [] env d st sent = (d, st, sent, False)"
| "publish_loop pc (e # es) env d st sent =
     (if env_done (env e) then (d, st, sent, True)
      else case env_body_error (env e) of
        Some cause \<Rightarrow> publish_loop pc es env (publisher_recordFailure pc (env e) e cause d)
            (st\<lparr> Failed_n := Failed_n st + 1 \<rparr>) sent
      | None \<Rightarrow> (case env_publish_error (env e) of
            Some cause \<Rightarrow> publish_loop pc es env (publisher_recordFailure pc (env e) e cause d)
              (st\<lparr> Failed_n := Failed_n st + 1 \<rparr>) sent
          | None \<Rightarrow> (if env_mark_error (env e)
              then publish_loop pc es env d (st\<lparr> Failed_n := Failed_n st + 1 \<rparr>) (sent @ [e_id e])
              else case MarkPublished (env_now (env e)) (e_id e) d of
                (marked, d') \<Rightarrow> publish_loop pc es env d'
                  (if marked then st\<lparr> Published_n := Published_n st + 1 \<rparr>
                   else st\<lparr> AlreadyPublished_n := AlreadyPublished_n st + 1 \<rparr>) (sent @ [e_id e]))))"

definition RunOnce :: "publisher_cfg \<Rightarrow> ts \<Rightarrow> (event_row \<Rightarrow> publish_env) \<Rightarrow> db \<Rightarrow> db \<times> Stats \<times> uuid list \<times> bool" where
  "RunOnce pc now env d = (case ClaimDue now (pc_BatchSize pc) (pc_ClaimTimeout pc) d of
     (events, d') \<Rightarrow> publish_loop pc events env d'
       \<lparr> Claimed_n = length events, Published_n = 0, Failed_n = 0, AlreadyPublished_n = 0 \<rparr> [])"

text \<open>
  \<^verbatim>\<open>drain\<close> repeats passes; \<^verbatim>\<open>envs n\<close> is the clock and the environment of the n-th pass, and whether the
  context is cancelled after it. The loop need not end (a batch size of zero never does), so it is a
  partial function: \<^verbatim>\<open>None\<close> is a drain that does not return.
\<close>

partial_function (option) drain :: "publisher_cfg \<Rightarrow> (nat \<Rightarrow> ts \<times> (event_row \<Rightarrow> publish_env) \<times> bool) \<Rightarrow> nat \<Rightarrow> db
    \<Rightarrow> uuid list \<Rightarrow> (db \<times> uuid list) option" where
  "drain pc envs n d sent = (
     case envs n of (now, env, canceled) \<Rightarrow>
     (case RunOnce pc now env d of (d', st, s, stopped) \<Rightarrow>
       if stopped \<or> canceled \<or> Claimed_n st < pc_BatchSize pc \<or> Failed_n st > 0 then Some (d', sent @ s)
       else drain pc envs (Suc n) d' (sent @ s)))"

end
