(* ===== verification/Jobs.thy ===== *)
theory Jobs
  imports Outbox
begin

text \<open>
  The package \<^verbatim>\<open>internal/jobs\<close>: submission with its idempotency record (\<^verbatim>\<open>store.go\<close>, \<^verbatim>\<open>submit.go\<close>),
  cancellation (\<^verbatim>\<open>cancel.go\<close>), the scheduler's promotion and re-notification (\<^verbatim>\<open>schedule.go\<close>) and the
  replay of dead-lettered jobs (\<^verbatim>\<open>dlq.go\<close>).
\<close>

section \<open>Submission\<close>

text \<open>The requested schedule is an instant in nanoseconds, as RFC 3339 parses it.\<close>

record NormalizedRequest =
  nr_Queue :: string
  nr_Type :: string
  nr_Payload :: string
  nr_Priority :: int
  nr_MaxAttempts :: int
  nr_TimeoutSeconds :: int
  nr_RequiredCapabilities :: "string list"
  nr_ScheduledAt :: "int option"

record SubmitResult =
  sub_Job :: job_row
  sub_Replayed :: bool

definition queueExists :: "string \<Rightarrow> db \<Rightarrow> bool" where
  "queueExists name d = list_ex (\<lambda>q. q_name q = name) (db_queues d)"

definition jobs_Get :: "string \<Rightarrow> uuid \<Rightarrow> db \<Rightarrow> store_error + job_row" where
  "jobs_Get scope jid d = (case find (\<lambda>j. j_id j = jid \<and> j_scope j = scope) (db_jobs d) of
     None \<Rightarrow> Inl ErrJobNotFound | Some j \<Rightarrow> Inr j)"

definition is_delayed :: "NormalizedRequest \<Rightarrow> ts \<Rightarrow> bool" where
  "is_delayed req serverNow = (case nr_ScheduledAt req of None \<Rightarrow> False | Some t \<Rightarrow> serverNow * 1000 < t)"

definition submitted_job :: "ts \<Rightarrow> ts \<Rightarrow> uuid \<Rightarrow> string \<Rightarrow> NormalizedRequest \<Rightarrow> job_row" where
  "submitted_job start serverNow jid scope req =
     \<lparr> j_id = jid, j_scope = scope, j_queue = nr_Queue req, j_job_type = nr_Type req, j_payload = nr_Payload req,
       j_status = (if is_delayed req serverNow then StatusPending else StatusQueued),
       j_priority = nr_Priority req, j_max_attempts = nr_MaxAttempts req,
       j_timeout_seconds = nr_TimeoutSeconds req, j_required_capabilities = nr_RequiredCapabilities req,
       j_created_at = start, j_updated_at = start,
       j_available_at = (if is_delayed req serverNow then the (nr_ScheduledAt req) div 1000 else serverNow),
       j_scheduled_at = map_option (\<lambda>t. t div 1000) (nr_ScheduledAt req), j_cancel_requested_at = None,
       j_replayed_from = None, j_generation = (if is_delayed req serverNow then 0 else 1),
       j_last_notification_at = (if is_delayed req serverNow then None else Some serverNow) \<rparr>"

text \<open>The CHECK constraints of the jobs table on the requested values.\<close>

definition job_check :: "job_row \<Rightarrow> bool" where
  "job_check j = (0 \<le> j_priority j \<and> j_priority j \<le> 100 \<and> 1 \<le> j_max_attempts j \<and> j_max_attempts j \<le> 100
     \<and> 1 \<le> j_timeout_seconds j \<and> j_timeout_seconds j \<le> 86400)"

definition find_idempotency :: "string \<Rightarrow> string \<Rightarrow> db \<Rightarrow> idempotency_row option" where
  "find_idempotency scope key d = find (\<lambda>i. i_scope i = scope \<and> i_key i = key) (db_idempotency d)"

definition resolveExisting :: "string \<Rightarrow> string \<Rightarrow> string \<Rightarrow> db \<Rightarrow> store_error + SubmitResult" where
  "resolveExisting scope key fingerprint d = (case find_idempotency scope key d of
     None \<Rightarrow> Inl (ErrDatabase ''idempotency record disappeared during submission; retry the request'')
   | Some i \<Rightarrow> if i_fingerprint i \<noteq> fingerprint then Inl ErrIdempotencyConflict
       else (case jobs_Get scope (i_job_id i) d of
               Inl e \<Rightarrow> Inl e
             | Inr j \<Rightarrow> Inr \<lparr> sub_Job = j, sub_Replayed = True \<rparr>))"

text \<open>
  \<^verbatim>\<open>start\<close> is the transaction's \<^verbatim>\<open>now()\<close>, \<^verbatim>\<open>serverNow\<close> its clock sample, \<^verbatim>\<open>jid\<close> and \<^verbatim>\<open>eid\<close> the fresh job and
  event identifiers, \<^verbatim>\<open>trace\<close> the trace context of the request. The fingerprint of the request is an
  argument here and defined in the theory of canonical requests.
\<close>

definition Submit :: "ts \<Rightarrow> ts \<Rightarrow> uuid \<Rightarrow> uuid \<Rightarrow> (string \<times> string) option \<Rightarrow> string \<Rightarrow> string \<Rightarrow> string
    \<Rightarrow> NormalizedRequest \<Rightarrow> db \<Rightarrow> store_error + (SubmitResult \<times> db)" where
  "Submit start serverNow jid eid trace scope key fingerprint req d =
     (if \<not> queueExists (nr_Queue req) d then Inl ErrUnknownQueue
      else let job = submitted_job start serverNow jid scope req in
        if get_job d jid \<noteq> None \<or> \<not> job_check job then Inl (ErrDatabase ''insert job'')
        else if find_idempotency scope key d \<noteq> None then
          (case resolveExisting scope key fingerprint d of Inl e \<Rightarrow> Inl e | Inr r \<Rightarrow> Inr (r, d))
        else let d1 = d\<lparr> db_jobs := db_jobs d @ [job],
                         db_idempotency := db_idempotency d
                           @ [\<lparr> i_scope = scope, i_key = key, i_fingerprint = fingerprint, i_job_id = jid \<rparr>] \<rparr>
             in if j_status job = StatusQueued then
                  (case InsertWorkAvailableTx start eid jid (j_queue job) (j_generation job) trace d1 of
                     Inl e \<Rightarrow> Inl e
                   | Inr (_, d2) \<Rightarrow> Inr (\<lparr> sub_Job = job, sub_Replayed = False \<rparr>, d2))
                else Inr (\<lparr> sub_Job = job, sub_Replayed = False \<rparr>, d1))"

section \<open>Cancellation\<close>

record CancelResult =
  can_JobID :: uuid
  can_Status :: Status
  can_RequestedAt :: "ts option"
  can_AlreadyRequested :: bool

definition cancel_target :: "Status \<Rightarrow> Status option" where
  "cancel_target s = (case s of
     StatusPending \<Rightarrow> Some StatusCanceled | StatusQueued \<Rightarrow> Some StatusCanceled
   | StatusRetryWait \<Rightarrow> Some StatusCanceled
   | StatusLeased \<Rightarrow> Some StatusCancelRequested | StatusRunning \<Rightarrow> Some StatusCancelRequested
   | _ \<Rightarrow> None)"

definition RequestCancel :: "ts \<Rightarrow> string \<Rightarrow> uuid \<Rightarrow> db \<Rightarrow> store_error + (CancelResult \<times> db)" where
  "RequestCancel now scope jobID d = (case get_job d jobID of
     None \<Rightarrow> Inl ErrJobNotFound
   | Some j \<Rightarrow> if j_scope j \<noteq> scope then Inl ErrJobNotFound
     else case get_queue d (j_queue j) of
       None \<Rightarrow> Inl (ErrDatabase ''lock queue for cancellation'')
     | Some _ \<Rightarrow>
       if j_status j = StatusCancelRequested \<or> j_status j = StatusCanceled then
         Inr (\<lparr> can_JobID = jobID, can_Status = j_status j, can_RequestedAt = j_cancel_requested_at j,
                can_AlreadyRequested = True \<rparr>, d)
       else (case cancel_target (j_status j) of
         None \<Rightarrow> Inl ErrJobNotCancelable
       | Some target \<Rightarrow>
         let p = (\<lambda>r. j_id r = jobID \<and> j_scope r = scope \<and> j_status r = j_status j)
         in if count_where p (db_jobs d) \<noteq> 1 then Inl ErrJobNotCancelable
            else Inr (\<lparr> can_JobID = jobID, can_Status = target, can_RequestedAt = Some now,
                        can_AlreadyRequested = False \<rparr>,
                      d\<lparr> db_jobs := upd_where p (\<lambda>r. r\<lparr> j_status := target, j_cancel_requested_at := Some now,
                           j_updated_at := now \<rparr>) (db_jobs d) \<rparr>)))"

section \<open>Scheduling\<close>

record SchedulerStats =
  PromotedJobs :: nat
  Renotified :: nat
  SchedulerSkipped :: nat

definition promotion_candidates :: "ts \<Rightarrow> nat \<Rightarrow> db \<Rightarrow> uuid list" where
  "promotion_candidates now limit d = map j_id (select_ordered
     (\<lambda>j. (j_status j = StatusPending \<or> j_status j = StatusRetryWait) \<and> j_available_at j \<le> now)
     (\<lambda>j. (j_available_at j, j_id j)) limit (db_jobs d))"

definition promote_row :: "ts \<Rightarrow> job_row \<Rightarrow> job_row" where
  "promote_row now r = r\<lparr> j_status := StatusQueued, j_updated_at := now, j_generation := j_generation r + 1,
     j_last_notification_at := Some now \<rparr>"

text \<open>The boolean says whether the job was promoted; \<^verbatim>\<open>False\<close> commits nothing.\<close>

definition promoteDueJob :: "ts \<Rightarrow> ts \<Rightarrow> uuid \<Rightarrow> uuid \<Rightarrow> db \<Rightarrow> store_error + (bool \<times> db)" where
  "promoteDueJob start now eid jobID d = (case get_job d jobID of
     None \<Rightarrow> Inr (False, d)
   | Some j \<Rightarrow> (case get_queue d (j_queue j) of
       None \<Rightarrow> Inl (ErrDatabase ''lock queue for promotion'')
     | Some _ \<Rightarrow>
       if j_status j \<noteq> StatusPending \<and> j_status j \<noteq> StatusRetryWait then Inr (False, d)
       else if now < j_available_at j then Inr (False, d)
       else let p = (\<lambda>r. j_id r = jobID \<and> j_status r = j_status j \<and> j_generation r = j_generation j)
            in if count_where p (db_jobs d) = 0 then Inr (False, d)
               else (case InsertWorkAvailableTx start eid jobID (j_queue j) (j_generation j + 1) None
                       (d\<lparr> db_jobs := upd_where p (promote_row now) (db_jobs d) \<rparr>) of
                  Inl e \<Rightarrow> Inl e
                | Inr (_, d') \<Rightarrow> Inr (True, d'))))"

definition stranded_candidates :: "ts \<Rightarrow> dur \<Rightarrow> nat \<Rightarrow> db \<Rightarrow> uuid list" where
  "stranded_candidates now after limit d = map j_id (select_ordered
     (\<lambda>j. j_status j = StatusQueued
        \<and> (case j_last_notification_at j of None \<Rightarrow> False | Some t \<Rightarrow> t * 1000 < now * 1000 - after))
     (\<lambda>j. (case j_last_notification_at j of None \<Rightarrow> 0 | Some t \<Rightarrow> t, j_id j)) limit (db_jobs d))"

definition renotifyStrandedJob :: "ts \<Rightarrow> ts \<Rightarrow> uuid \<Rightarrow> dur \<Rightarrow> uuid \<Rightarrow> db \<Rightarrow> store_error + (bool \<times> db)" where
  "renotifyStrandedJob start now eid after jobID d = (case get_job d jobID of
     None \<Rightarrow> Inr (False, d)
   | Some j \<Rightarrow> (case get_queue d (j_queue j) of
       None \<Rightarrow> Inl (ErrDatabase ''lock queue for re-notification'')
     | Some _ \<Rightarrow>
       if j_status j \<noteq> StatusQueued \<or> j_generation j < 1 then Inr (False, d)
       else (case j_last_notification_at j of
         None \<Rightarrow> Inr (False, d)
       | Some t \<Rightarrow>
         if \<not> t * 1000 < now * 1000 - after then Inr (False, d)
         else if HasPendingWorkAvailableTx jobID (j_generation j) d then Inr (False, d)
         else let p = (\<lambda>r. j_id r = jobID \<and> j_status r = StatusQueued \<and> j_generation r = j_generation j)
              in if count_where p (db_jobs d) \<noteq> 1 then Inr (False, d)
                 else (case InsertWorkAvailableTx start eid jobID (j_queue j) (j_generation j) None
                         (d\<lparr> db_jobs := upd_where p (\<lambda>r. r\<lparr> j_last_notification_at := Some now \<rparr>) (db_jobs d) \<rparr>) of
                    Inl e \<Rightarrow> Inl e
                  | Inr (_, d') \<Rightarrow> Inr (True, d')))))"

text \<open>A pass over its candidates; it stops at the first error with what it has committed.\<close>

fun schedule_loop :: "(uuid \<Rightarrow> db \<Rightarrow> store_error + (bool \<times> db)) \<Rightarrow> uuid list \<Rightarrow> nat \<Rightarrow> nat \<Rightarrow> db
    \<Rightarrow> store_error option \<times> nat \<times> nat \<times> db" where
  "schedule_loop step [] done skipped d = (None, done, skipped, d)"
| "schedule_loop step (i # is) done skipped d = (case step i d of
     Inl e \<Rightarrow> (Some e, done, skipped, d)
   | Inr (b, d') \<Rightarrow> schedule_loop step is (if b then done + 1 else done) (if b then skipped else skipped + 1) d')"

definition PromoteDueJobs :: "ts \<Rightarrow> (uuid \<Rightarrow> ts \<times> ts \<times> uuid) \<Rightarrow> int \<Rightarrow> db
    \<Rightarrow> store_error option \<times> SchedulerStats \<times> db" where
  "PromoteDueJobs now inputs limit d =
     (if limit < 1 then (Some (ErrDatabase ''scan limit must be positive''),
        \<lparr> PromotedJobs = 0, Renotified = 0, SchedulerSkipped = 0 \<rparr>, d)
      else case schedule_loop (\<lambda>i. case inputs i of (start, n, e) \<Rightarrow> promoteDueJob start n e i)
             (promotion_candidates now (nat limit) d) 0 0 d of
        (err, n, k, d') \<Rightarrow> (err, \<lparr> PromotedJobs = n, Renotified = 0, SchedulerSkipped = k \<rparr>, d'))"

definition RenotifyStrandedQueued :: "ts \<Rightarrow> (uuid \<Rightarrow> ts \<times> ts \<times> uuid) \<Rightarrow> dur \<Rightarrow> int \<Rightarrow> db
    \<Rightarrow> store_error option \<times> SchedulerStats \<times> db" where
  "RenotifyStrandedQueued now inputs after limit d =
     (if after \<le> 0 then (Some (ErrDatabase ''re-notification interval must be positive''),
        \<lparr> PromotedJobs = 0, Renotified = 0, SchedulerSkipped = 0 \<rparr>, d)
      else if limit < 1 then (Some (ErrDatabase ''scan limit must be positive''),
        \<lparr> PromotedJobs = 0, Renotified = 0, SchedulerSkipped = 0 \<rparr>, d)
      else case schedule_loop (\<lambda>i. case inputs i of (start, n, e) \<Rightarrow> renotifyStrandedJob start n e after i)
             (stranded_candidates now after (nat limit) d) 0 0 d of
        (err, n, k, d') \<Rightarrow> (err, \<lparr> PromotedJobs = 0, Renotified = n, SchedulerSkipped = k \<rparr>, d'))"

section \<open>Replay\<close>

record ReplayResult =
  rep_OriginalJobID :: uuid
  rep_Replacement :: job_row
  rep_Replayed :: bool

definition replacement_job :: "ts \<Rightarrow> uuid \<Rightarrow> string \<Rightarrow> job_row \<Rightarrow> job_row" where
  "replacement_job now jid scope original =
     \<lparr> j_id = jid, j_scope = scope, j_queue = j_queue original, j_job_type = j_job_type original,
       j_payload = j_payload original, j_status = StatusQueued, j_priority = j_priority original,
       j_max_attempts = j_max_attempts original, j_timeout_seconds = j_timeout_seconds original,
       j_required_capabilities = j_required_capabilities original, j_created_at = now, j_updated_at = now,
       j_available_at = now, j_scheduled_at = None, j_cancel_requested_at = None,
       j_replayed_from = Some (j_id original), j_generation = 1, j_last_notification_at = Some now \<rparr>"

definition find_replay :: "string \<Rightarrow> uuid \<Rightarrow> string \<Rightarrow> db \<Rightarrow> replay_row option" where
  "find_replay scope original key d =
     find (\<lambda>r. p_scope r = scope \<and> p_original r = original \<and> p_key r = key) (db_replays d)"

definition resolveExistingReplay :: "string \<Rightarrow> uuid \<Rightarrow> string \<Rightarrow> db \<Rightarrow> store_error + ReplayResult" where
  "resolveExistingReplay scope original key d = (case find_replay scope original key d of
     None \<Rightarrow> Inl (ErrDatabase ''replay record disappeared during replay; retry the request'')
   | Some r \<Rightarrow> (case jobs_Get scope (p_replacement r) d of
       Inl e \<Rightarrow> Inl e
     | Inr j \<Rightarrow> Inr \<lparr> rep_OriginalJobID = original, rep_Replacement = j, rep_Replayed = True \<rparr>))"

definition Replay :: "ts \<Rightarrow> ts \<Rightarrow> uuid \<Rightarrow> uuid \<Rightarrow> string \<Rightarrow> uuid \<Rightarrow> string \<Rightarrow> db
    \<Rightarrow> store_error + (ReplayResult \<times> db)" where
  "Replay start now jid eid scope originalID key d = (case get_job d originalID of
     None \<Rightarrow> Inl ErrJobNotFound
   | Some original \<Rightarrow> if j_scope original \<noteq> scope then Inl ErrJobNotFound
     else case get_queue d (j_queue original) of
       None \<Rightarrow> Inl (ErrDatabase ''lock queue for replay'')
     | Some _ \<Rightarrow>
       if j_status original \<noteq> StatusDeadLettered then Inl ErrNotDeadLettered
       else if \<not> list_ex (\<lambda>e. d_job_id e = originalID) (db_dlq d) then Inl ErrNotDeadLettered
       else if get_job d jid \<noteq> None then Inl (ErrDatabase ''insert replacement job'')
       else if find_replay scope originalID key d \<noteq> None then
         (case resolveExistingReplay scope originalID key d of Inl e \<Rightarrow> Inl e | Inr r \<Rightarrow> Inr (r, d))
       else let job = replacement_job now jid scope original;
                d1 = d\<lparr> db_jobs := db_jobs d @ [job],
                        db_replays := db_replays d @ [\<lparr> p_scope = scope, p_original = originalID, p_key = key,
                          p_replacement = jid \<rparr>] \<rparr>
            in (case InsertWorkAvailableTx start eid jid (j_queue job) 1 None d1 of
                  Inl e \<Rightarrow> Inl e
                | Inr (_, d2) \<Rightarrow> Inr (\<lparr> rep_OriginalJobID = originalID, rep_Replacement = job,
                    rep_Replayed = False \<rparr>, d2)))"

end
