(* ===== verification/Fence.thy ===== *)
theory Fence
  imports Schema
begin

text \<open>
  The five-part fence of a worker's authority over an attempt (\<^verbatim>\<open>internal/workers\<close>): the identifiers,
  their validation, the state read under the locks (\<^verbatim>\<open>fenceState\<close>) and the two ways of taking them,
  \<^verbatim>\<open>lockAuthorityRows\<close> and \<^verbatim>\<open>lockFence\<close>. A row lock makes the transaction read the rows as they are when
  it runs; \<^verbatim>\<open>now\<close> is the clock sample taken after the last lock.
\<close>

record Fence =
  JobID :: uuid
  AttemptID :: uuid
  LeaseID :: uuid
  WorkerID :: uuid
  SessionID :: uuid

definition uuid_field :: "string \<Rightarrow> uuid \<Rightarrow> (string \<times> string) list" where
  "uuid_field name i = (if i = uuid_Nil then [(name, ''must be a UUID'')] else [])"

definition fence_fields :: "Fence \<Rightarrow> (string \<times> string) list" where
  "fence_fields f = uuid_field ''job_id'' (JobID f) @ uuid_field ''attempt_id'' (AttemptID f)
     @ uuid_field ''lease_id'' (LeaseID f) @ uuid_field ''worker_id'' (WorkerID f)
     @ uuid_field ''worker_session_id'' (SessionID f)"

definition validation :: "(string \<times> string) list \<Rightarrow> store_error option" where
  "validation probs = (if probs = [] then None else Some (ErrValidation probs))"

definition ValidateFence :: "Fence \<Rightarrow> store_error option" where
  "ValidateFence f = validation (fence_fields f)"

record fenceState =
  st_queue :: string
  st_scope :: string
  st_jobStatus :: Status
  st_attemptStatus :: AttemptStatus
  st_leaseStatus :: LeaseStatus
  st_expiresAt :: ts
  st_serverNow :: ts
  st_renewalVersion :: int
  st_lastRenewalRequestID :: "uuid option"
  st_attemptNumber :: int
  st_maxAttempts :: int
  st_timeoutAt :: "ts option"
  st_outcomeRequestID :: "uuid option"
  st_failureClass :: "FailureClass option"
  st_errorCode :: "string option"
  st_errorMessage :: "string option"
  st_retryDelayMillis :: "int option"
  st_retryAt :: "ts option"
  st_sessionHealthy :: bool

definition timedOut :: "fenceState \<Rightarrow> bool" where
  "timedOut s = (case st_timeoutAt s of None \<Rightarrow> False | Some t \<Rightarrow> \<not> st_serverNow s < t)"

definition leaseUsable :: "fenceState \<Rightarrow> bool" where
  "leaseUsable s = (st_leaseStatus s = LeaseActive \<and> st_serverNow s < st_expiresAt s)"

definition timedOutBeforeLapse :: "fenceState \<Rightarrow> bool" where
  "timedOutBeforeLapse s = (case st_timeoutAt s of None \<Rightarrow> False
     | Some t \<Rightarrow> \<not> st_expiresAt s < t \<and> timedOut s)"

text \<open>A difference of instants as a Go duration, floored at zero.\<close>

definition remainingUntil :: "ts \<Rightarrow> ts \<Rightarrow> dur" where
  "remainingUntil expiresAt serverNow =
     (let remaining = (expiresAt - serverNow) * 1000 in if remaining < 0 then 0 else remaining)"

text \<open>
  The rows are selected by primary key and the remaining conditions of each WHERE clause are
  guards: a row that fails one is no row, which every caller of the source treats as a rejected
  fence.
\<close>

definition lease_matches :: "string \<Rightarrow> Fence \<Rightarrow> lease_row \<Rightarrow> bool" where
  "lease_matches scope f l = (l_job_id l = JobID f \<and> l_attempt_id l = AttemptID f
     \<and> l_worker_id l = WorkerID f \<and> l_session_id l = SessionID f \<and> l_scope l = scope)"

definition attempt_matches :: "string \<Rightarrow> Fence \<Rightarrow> attempt_row \<Rightarrow> bool" where
  "attempt_matches scope f a = (a_job_id a = JobID f \<and> a_worker_id a = WorkerID f
     \<and> a_session_id a = SessionID f \<and> a_scope a = scope)"

definition fence_state_of :: "string \<Rightarrow> ts \<Rightarrow> session_row \<Rightarrow> job_row \<Rightarrow> attempt_row \<Rightarrow> lease_row \<Rightarrow> fenceState" where
  "fence_state_of scope now s j a l =
     \<lparr> st_queue = l_queue l, st_scope = scope, st_jobStatus = j_status j, st_attemptStatus = a_status a,
       st_leaseStatus = l_status l, st_expiresAt = l_expires_at l, st_serverNow = now,
       st_renewalVersion = l_renewal_version l, st_lastRenewalRequestID = l_renewal_id l,
       st_attemptNumber = a_number a, st_maxAttempts = j_max_attempts j, st_timeoutAt = a_timeout_at a,
       st_outcomeRequestID = a_outcome_request_id a, st_failureClass = a_failure_class a,
       st_errorCode = a_error_code a, st_errorMessage = a_error_message a,
       st_retryDelayMillis = a_retry_delay_ms a, st_retryAt = a_retry_at a,
       st_sessionHealthy = (s_status s = SessionHealthy) \<rparr>"

definition lockAuthorityRows :: "ts \<Rightarrow> string \<Rightarrow> Fence \<Rightarrow> db \<Rightarrow> store_error + fenceState" where
  "lockAuthorityRows now scope f d = (case get_lease d (LeaseID f) of
     None \<Rightarrow> Inl ErrFenceRejected
   | Some l \<Rightarrow> if \<not> lease_matches scope f l then Inl ErrFenceRejected
     else case get_queue d (l_queue l) of
       None \<Rightarrow> Inl (ErrDatabase ''lock queue for fenced transition'')
     | Some _ \<Rightarrow> (case get_session d (SessionID f) of
         None \<Rightarrow> Inl ErrFenceRejected
       | Some s \<Rightarrow> if s_worker_id s \<noteq> WorkerID f \<or> s_scope s \<noteq> scope then Inl ErrFenceRejected
         else (case get_job d (JobID f) of
           None \<Rightarrow> Inl ErrFenceRejected
         | Some j \<Rightarrow> (case get_attempt d (AttemptID f) of
             None \<Rightarrow> Inl ErrFenceRejected
           | Some a \<Rightarrow> if j_scope j \<noteq> scope \<or> \<not> attempt_matches scope f a then Inl ErrFenceRejected
               else Inr (fence_state_of scope now s j a l)))))"

definition lockFence :: "ts \<Rightarrow> string \<Rightarrow> Fence \<Rightarrow> db \<Rightarrow> store_error + fenceState" where
  "lockFence now scope f d = (case lockAuthorityRows now scope f d of
     Inl e \<Rightarrow> Inl e
   | Inr s \<Rightarrow> if \<not> st_sessionHealthy s then Inl ErrFenceRejected else Inr s)"

definition lockFenceForReconciliation :: "ts \<Rightarrow> string \<Rightarrow> Fence \<Rightarrow> db \<Rightarrow> store_error + fenceState" where
  "lockFenceForReconciliation = lockAuthorityRows"

section \<open>What a successful lock establishes\<close>

lemma lockAuthorityRowsE:
  assumes "lockAuthorityRows now scope f d = Inr s"
  obtains q ss j a l where "get_lease d (LeaseID f) = Some l" and "lease_matches scope f l"
    and "get_queue d (l_queue l) = Some q"
    and "get_session d (SessionID f) = Some ss" and "s_worker_id ss = WorkerID f" and "s_scope ss = scope"
    and "get_job d (JobID f) = Some j" and "j_scope j = scope"
    and "get_attempt d (AttemptID f) = Some a" and "attempt_matches scope f a"
    and "s = fence_state_of scope now ss j a l"
  using assms
  by (auto simp: lockAuthorityRows_def split: option.splits if_splits)

lemma lockFenceE:
  assumes "lockFence now scope f d = Inr s"
  obtains "lockAuthorityRows now scope f d = Inr s" and "st_sessionHealthy s"
  using assms by (auto simp: lockFence_def split: sum.splits if_splits)

lemma fence_state_sel [simp]:
  "st_queue (fence_state_of scope now s j a l) = l_queue l"
  "st_scope (fence_state_of scope now s j a l) = scope"
  "st_jobStatus (fence_state_of scope now s j a l) = j_status j"
  "st_attemptStatus (fence_state_of scope now s j a l) = a_status a"
  "st_leaseStatus (fence_state_of scope now s j a l) = l_status l"
  "st_expiresAt (fence_state_of scope now s j a l) = l_expires_at l"
  "st_serverNow (fence_state_of scope now s j a l) = now"
  "st_renewalVersion (fence_state_of scope now s j a l) = l_renewal_version l"
  "st_lastRenewalRequestID (fence_state_of scope now s j a l) = l_renewal_id l"
  "st_attemptNumber (fence_state_of scope now s j a l) = a_number a"
  "st_maxAttempts (fence_state_of scope now s j a l) = j_max_attempts j"
  "st_timeoutAt (fence_state_of scope now s j a l) = a_timeout_at a"
  "st_outcomeRequestID (fence_state_of scope now s j a l) = a_outcome_request_id a"
  "st_failureClass (fence_state_of scope now s j a l) = a_failure_class a"
  "st_errorCode (fence_state_of scope now s j a l) = a_error_code a"
  "st_errorMessage (fence_state_of scope now s j a l) = a_error_message a"
  "st_retryDelayMillis (fence_state_of scope now s j a l) = a_retry_delay_ms a"
  "st_retryAt (fence_state_of scope now s j a l) = a_retry_at a"
  "st_sessionHealthy (fence_state_of scope now s j a l) = (s_status s = SessionHealthy)"
  by (simp_all add: fence_state_of_def)

lemma leaseUsable_state: "leaseUsable (fence_state_of scope now s j a l) \<longleftrightarrow> l_status l = LeaseActive \<and> now < l_expires_at l"
  by (simp add: leaseUsable_def)

lemma timedOut_state: "timedOut (fence_state_of scope now s j a l) \<longleftrightarrow> (\<exists>t. a_timeout_at a = Some t \<and> t \<le> now)"
  by (auto simp: timedOut_def split: option.split)

lemma remainingUntil_bounds: "0 \<le> remainingUntil e n" "n \<le> e \<Longrightarrow> remainingUntil e n = (e - n) * 1000"
  by (simp_all add: remainingUntil_def Let_def)

end
