(* ===== verification/Sessions.thy ===== *)
theory Sessions
  imports Fence
begin

text \<open>
  Worker sessions (\<^verbatim>\<open>internal/workers\<close>): validation and canonical form of a registration
  (\<^verbatim>\<open>validation.go\<close>), registration (\<^verbatim>\<open>store.go\<close>), heartbeats with their cancellation directives
  (\<^verbatim>\<open>heartbeat.go\<close>) and the marking of stale sessions (\<^verbatim>\<open>reconcile.go\<close>).
\<close>

section \<open>Validation\<close>

definition MaxCapabilities :: nat where
  "MaxCapabilities = 64"

definition MaxSupportedJobTypes :: nat where
  "MaxSupportedJobTypes = 64"

definition MaxWorkerConcurrency :: int where
  "MaxWorkerConcurrency = 256"

definition workerNamePattern :: "string \<Rightarrow> bool" where
  "workerNamePattern s = token_pattern 127 s"

definition routingNamePattern :: "string \<Rightarrow> bool" where
  "routingNamePattern s = token_pattern 63 s"

definition jobTypePattern :: "string \<Rightarrow> bool" where
  "jobTypePattern s = token_pattern 127 s"

record Registration =
  reg_SessionID :: uuid
  reg_Name :: string
  reg_Hostname :: string
  reg_WorkerGroup :: string
  reg_ConcurrencyLimit :: int
  reg_Capabilities :: "string list"
  reg_SupportedJobTypes :: "string list"
  reg_WorkerKeyID :: "uuid option"

definition canonicalSet :: "string list \<Rightarrow> string list" where
  "canonicalSet values = sorted_distinct (filter (\<lambda>v. v \<noteq> []) (map TrimSpace values))"

definition registration_fields :: "Registration \<Rightarrow> (string \<times> string) list" where
  "registration_fields out =
     uuid_field ''worker_session_id'' (reg_SessionID out)
   @ (if \<not> workerNamePattern (reg_Name out)
      then [(''worker_name'', ''must match ^[a-z0-9][a-z0-9._-]{0,127}$'')] else [])
   @ (if length (reg_Hostname out) < 1 \<or> length (reg_Hostname out) > 255
      then [(''hostname'', ''must contain between 1 and 255 characters'')] else [])
   @ (if \<not> routingNamePattern (reg_WorkerGroup out)
      then [(''worker_group'', ''must match ^[a-z0-9][a-z0-9._-]{0,63}$'')] else [])
   @ (if reg_ConcurrencyLimit out < 1 \<or> reg_ConcurrencyLimit out > MaxWorkerConcurrency
      then [(''concurrency_limit'', ''must be between 1 and 256'')] else [])
   @ (if length (reg_Capabilities out) > MaxCapabilities
      then [(''capabilities'', ''must contain at most 64 values'')] else [])
   @ (if list_ex (\<lambda>c. \<not> routingNamePattern (TrimSpace c)) (reg_Capabilities out)
      then [(''capabilities'', ''every value must match ^[a-z0-9][a-z0-9._-]{0,63}$'')] else [])
   @ (if length (reg_SupportedJobTypes out) < 1 \<or> length (reg_SupportedJobTypes out) > MaxSupportedJobTypes
      then [(''supported_job_types'', ''must contain between 1 and 64 values'')] else [])
   @ (if list_ex (\<lambda>t. \<not> jobTypePattern (TrimSpace t)) (reg_SupportedJobTypes out)
      then [(''supported_job_types'', ''every value must be a valid job type'')] else [])"

definition NormalizeRegistration :: "Registration \<Rightarrow> store_error + Registration" where
  "NormalizeRegistration r = (
     let out = r\<lparr> reg_Name := TrimSpace (reg_Name r), reg_Hostname := TrimSpace (reg_Hostname r),
                  reg_WorkerGroup := TrimSpace (reg_WorkerGroup r) \<rparr>;
         probs = registration_fields out
     in if probs \<noteq> [] then Inl (ErrValidation probs)
        else Inr (out\<lparr> reg_Capabilities := canonicalSet (reg_Capabilities out),
                       reg_SupportedJobTypes := canonicalSet (reg_SupportedJobTypes out) \<rparr>))"

section \<open>Registration\<close>

definition sameRegistration :: "session_row \<Rightarrow> string \<Rightarrow> uuid \<Rightarrow> Registration \<Rightarrow> bool" where
  "sameRegistration s name workerID reg = (s_id s = reg_SessionID reg \<and> s_worker_id s = workerID
     \<and> name = reg_Name reg \<and> s_hostname s = reg_Hostname reg \<and> s_worker_group s = reg_WorkerGroup reg
     \<and> s_concurrency_limit s = reg_ConcurrencyLimit reg \<and> s_capabilities s = reg_Capabilities reg
     \<and> s_supported_job_types s = reg_SupportedJobTypes reg)"

text \<open>
  The clock of one registration: \<^verbatim>\<open>now()\<close> of the transaction, and the samples of the upsert, of the
  statement that fences prior sessions and of the registration itself.
\<close>

record reg_clock =
  rc_start :: ts
  rc_upsert :: ts
  rc_fence :: ts
  rc_registered :: ts

text \<open>The upsert of the logical worker: an existing row keeps its id, a new one takes \<^verbatim>\<open>wid\<close>.\<close>

definition upsert_worker :: "reg_clock \<Rightarrow> uuid \<Rightarrow> string \<Rightarrow> string \<Rightarrow> db \<Rightarrow> store_error + (uuid \<times> db)" where
  "upsert_worker rc wid scope name d =
     (case find (\<lambda>w. w_scope w = scope \<and> w_name w = name) (db_workers d) of
        Some w \<Rightarrow> Inr (w_id w, d\<lparr> db_workers := upd_where (\<lambda>w. w_scope w = scope \<and> w_name w = name)
            (\<lambda>w. w\<lparr> w_updated_at := rc_upsert rc \<rparr>) (db_workers d) \<rparr>)
      | None \<Rightarrow> if lookup w_id (db_workers d) wid \<noteq> None then Inl (ErrDatabase ''upsert logical worker'')
          else Inr (wid, d\<lparr> db_workers := db_workers d
              @ [\<lparr> w_id = wid, w_scope = scope, w_name = name, w_updated_at = rc_start rc \<rparr>] \<rparr>))"

definition new_session :: "ts \<Rightarrow> uuid \<Rightarrow> string \<Rightarrow> Registration \<Rightarrow> session_row" where
  "new_session registeredAt workerID scope reg =
     \<lparr> s_id = reg_SessionID reg, s_worker_id = workerID, s_scope = scope, s_hostname = reg_Hostname reg,
       s_worker_group = reg_WorkerGroup reg, s_concurrency_limit = reg_ConcurrencyLimit reg,
       s_capabilities = reg_Capabilities reg, s_supported_job_types = reg_SupportedJobTypes reg,
       s_status = SessionHealthy, s_registered_at = registeredAt, s_last_heartbeat_at = registeredAt,
       s_ended_at = None, s_worker_key_id = reg_WorkerKeyID reg \<rparr>"

definition fence_prior_sessions :: "ts \<Rightarrow> uuid \<Rightarrow> db \<Rightarrow> db" where
  "fence_prior_sessions now workerID d = d\<lparr> db_sessions :=
     upd_where (\<lambda>s. s_worker_id s = workerID \<and> isCurrentSessionStatus (s_status s))
       (\<lambda>s. s\<lparr> s_status := SessionOffline, s_ended_at := Some now \<rparr>) (db_sessions d) \<rparr>"

definition Register :: "reg_clock \<Rightarrow> uuid \<Rightarrow> string \<Rightarrow> Registration \<Rightarrow> db \<Rightarrow> store_error + (session_row \<times> db)" where
  "Register rc wid scope registration d = (case NormalizeRegistration registration of
     Inl e \<Rightarrow> Inl e
   | Inr reg \<Rightarrow> (case upsert_worker rc wid scope (reg_Name reg) d of
       Inl e \<Rightarrow> Inl e
     | Inr (workerID, d1) \<Rightarrow> (case get_session d1 (reg_SessionID reg) of
         Some s \<Rightarrow> (case lookup w_id (db_workers d1) (s_worker_id s) of
             None \<Rightarrow> Inl (ErrDatabase ''read existing worker session'')
           | Some w \<Rightarrow> if \<not> sameRegistration s (w_name w) workerID reg then Inl ErrSessionConflict
               else if s_status s \<noteq> SessionHealthy then Inl ErrSessionUnavailable
               else Inr (s, d1))
       | None \<Rightarrow> let d2 = fence_prior_sessions (rc_fence rc) workerID d1;
                     s = new_session (rc_registered rc) workerID scope reg
                 in Inr (s, d2\<lparr> db_sessions := db_sessions d2 @ [s] \<rparr>))))"

definition SessionScope :: "uuid \<Rightarrow> db \<Rightarrow> store_error + (string \<times> uuid option)" where
  "SessionScope sid d = (case get_session d sid of None \<Rightarrow> Inl ErrSessionUnavailable
     | Some s \<Rightarrow> Inr (s_scope s, s_worker_key_id s))"

section \<open>Heartbeat\<close>

record HeartbeatRequest =
  hb_WorkerID :: uuid
  hb_SessionID :: uuid

record CancellationDirective =
  cd_JobID :: uuid
  cd_AttemptID :: uuid
  cd_LeaseID :: uuid
  cd_CancelRequestedAt :: "ts option"

record HeartbeatResult =
  hr_SessionID :: uuid
  hr_Status :: SessionStatus
  hr_LastHeartbeatAt :: ts
  hr_Cancellations :: "CancellationDirective list"

definition ValidateHeartbeat :: "HeartbeatRequest \<Rightarrow> store_error option" where
  "ValidateHeartbeat req = validation (uuid_field ''worker_id'' (hb_WorkerID req)
     @ uuid_field ''worker_session_id'' (hb_SessionID req))"

definition maxCancellationDirectives :: nat where
  "maxCancellationDirectives = 256"

definition directive_rows :: "uuid \<Rightarrow> db \<Rightarrow> CancellationDirective list" where
  "directive_rows sid d = [\<lparr> cd_JobID = a_job_id a, cd_AttemptID = a_id a, cd_LeaseID = l_id l,
        cd_CancelRequestedAt = j_cancel_requested_at j \<rparr>.
      a \<leftarrow> db_attempts d, j \<leftarrow> db_jobs d, l \<leftarrow> db_leases d,
      j_id j = a_job_id a, l_attempt_id l = a_id a, a_session_id a = sid,
      isExecutingAttemptStatus (a_status a), j_status j = StatusCancelRequested, l_status l = LeaseActive]"

text \<open>ORDER BY puts NULL last.\<close>

definition directive_key :: "CancellationDirective \<Rightarrow> nat \<times> ts \<times> uuid" where
  "directive_key c = (case cd_CancelRequestedAt c of None \<Rightarrow> (1, 0, cd_AttemptID c)
     | Some t \<Rightarrow> (0, t, cd_AttemptID c))"

text \<open>A NULL instant does not scan into \<^verbatim>\<open>time.Time\<close>: the read fails.\<close>

definition cancellationDirectives :: "uuid \<Rightarrow> nat \<Rightarrow> db \<Rightarrow> store_error + CancellationDirective list" where
  "cancellationDirectives sid limit d = (
     let rows = select_ordered (\<lambda>_. True) directive_key limit (directive_rows sid d)
     in if list_ex (\<lambda>c. cd_CancelRequestedAt c = None) rows
        then Inl (ErrDatabase ''scan cancellation directive'') else Inr rows)"

definition Heartbeat :: "ts \<Rightarrow> string \<Rightarrow> HeartbeatRequest \<Rightarrow> db \<Rightarrow> store_error + (HeartbeatResult \<times> db)" where
  "Heartbeat now scope req d = (case ValidateHeartbeat req of
     Some e \<Rightarrow> Inl e
   | None \<Rightarrow> (case get_session d (hb_SessionID req) of
       None \<Rightarrow> Inl ErrSessionUnavailable
     | Some s \<Rightarrow>
         if s_worker_id s \<noteq> hb_WorkerID req \<or> s_scope s \<noteq> scope then Inl ErrSessionUnavailable
         else if s_status s \<noteq> SessionHealthy then Inl ErrSessionUnavailable
         else let beat = max (s_last_heartbeat_at s) now;
                  d' = d\<lparr> db_sessions := upd_where (\<lambda>s. s_id s = hb_SessionID req \<and> s_status s = SessionHealthy)
                          (\<lambda>s. s\<lparr> s_last_heartbeat_at := max (s_last_heartbeat_at s) now \<rparr>) (db_sessions d) \<rparr>
              in (case cancellationDirectives (hb_SessionID req) maxCancellationDirectives d' of
                    Inl e \<Rightarrow> Inl e
                  | Inr cs \<Rightarrow> Inr (\<lparr> hr_SessionID = hb_SessionID req, hr_Status = SessionHealthy,
                        hr_LastHeartbeatAt = beat, hr_Cancellations = cs \<rparr>, d'))))"

section \<open>Stale sessions\<close>

definition stale_candidates :: "ts \<Rightarrow> dur \<Rightarrow> nat \<Rightarrow> db \<Rightarrow> uuid list" where
  "stale_candidates now staleAfter limit d = map s_id (select_ordered
     (\<lambda>s. isCurrentSessionStatus (s_status s) \<and> s_last_heartbeat_at s * 1000 < now * 1000 - staleAfter)
     (\<lambda>s. (s_last_heartbeat_at s, s_id s)) limit (db_sessions d))"

definition markSessionStale :: "ts \<Rightarrow> dur \<Rightarrow> uuid \<Rightarrow> db \<Rightarrow> bool \<times> db" where
  "markSessionStale now staleAfter sid d = (case get_session d sid of
     None \<Rightarrow> (False, d)
   | Some s \<Rightarrow>
       if \<not> isCurrentSessionStatus (s_status s)
          \<or> \<not> s_last_heartbeat_at s * 1000 < now * 1000 - staleAfter then (False, d)
       else let p = (\<lambda>s. s_id s = sid \<and> isCurrentSessionStatus (s_status s))
            in if count_where p (db_sessions d) \<noteq> 1 then (False, d)
               else (True, d\<lparr> db_sessions := upd_where p
                 (\<lambda>s. s\<lparr> s_status := SessionUnhealthy, s_ended_at := Some now \<rparr>) (db_sessions d) \<rparr>))"

text \<open>The pass: \<^verbatim>\<open>clock id\<close> is the sample of the transaction of candidate \<^verbatim>\<open>id\<close>.\<close>

fun mark_stale_loop :: "(uuid \<Rightarrow> ts) \<Rightarrow> dur \<Rightarrow> uuid list \<Rightarrow> nat \<Rightarrow> db \<Rightarrow> nat \<times> db" where
  "mark_stale_loop clock staleAfter [] marked d = (marked, d)"
| "mark_stale_loop clock staleAfter (i # is) marked d =
     (case markSessionStale (clock i) staleAfter i d of
        (changed, d') \<Rightarrow> mark_stale_loop clock staleAfter is (if changed then marked + 1 else marked) d')"

definition MarkStaleSessions :: "ts \<Rightarrow> (uuid \<Rightarrow> ts) \<Rightarrow> dur \<Rightarrow> int \<Rightarrow> db \<Rightarrow> store_error + (nat \<times> db)" where
  "MarkStaleSessions now clock staleAfter limit d =
     (if staleAfter \<le> 0 then Inl (ErrDatabase ''stale threshold must be positive'')
      else if limit < 1 then Inl (ErrDatabase ''scan limit must be positive'')
      else Inr (mark_stale_loop clock staleAfter (stale_candidates now staleAfter (nat limit) d) 0 d))"

end
