(* ===== verification/Claim.thy ===== *)
theory Claim
  imports Sessions
begin

text \<open>
  Claiming work (\<^verbatim>\<open>internal/workers/store.go\<close>, \<^verbatim>\<open>Claim\<close>): one notification reserves at most one eligible
  job for one current session, within the capacity of the queue and of the logical worker.
\<close>

record ClaimRequest =
  cr_WorkerID :: uuid
  cr_SessionID :: uuid
  cr_ClaimRequestID :: uuid
  cr_Queue :: string

datatype ClaimDisposition = Claimed | QueueEmpty | DuplicateNotification | NoEligibleJob | CapacityExhausted

record Assignment =
  as_Scope :: string
  as_JobID :: uuid
  as_Queue :: string
  as_JobType :: string
  as_Payload :: string
  as_Priority :: int
  as_TimeoutSeconds :: int
  as_RequiredCapabilities :: "string list"
  as_AttemptID :: uuid
  as_AttemptNumber :: int
  as_LeaseID :: uuid
  as_LeaseExpiresAt :: ts
  as_LeaseRemaining :: dur
  as_WorkerID :: uuid
  as_SessionID :: uuid

record ClaimResult =
  res_Disposition :: ClaimDisposition
  res_Assignment :: "Assignment option"
  res_Replayed :: bool

definition SafeToAcknowledge :: "ClaimResult \<Rightarrow> bool" where
  "SafeToAcknowledge r = ((res_Disposition r = Claimed \<and> res_Assignment r \<noteq> None)
     \<or> ((res_Disposition r = QueueEmpty \<or> res_Disposition r = DuplicateNotification) \<and> res_Assignment r = None))"

definition ValidateClaim :: "ClaimRequest \<Rightarrow> store_error option" where
  "ValidateClaim req = validation (uuid_field ''worker_id'' (cr_WorkerID req)
     @ uuid_field ''worker_session_id'' (cr_SessionID req)
     @ uuid_field ''claim_request_id'' (cr_ClaimRequestID req)
     @ (if \<not> routingNamePattern (cr_Queue req) then [(''queue'', ''must be a valid queue name'')] else []))"

text \<open>
  The clock of one claim: \<^verbatim>\<open>now()\<close> of the transaction, the samples of the candidate query and of the
  emptiness check, and the sample the lease is issued (or a replay measured) at.
\<close>

record claim_clock =
  ck_start :: ts
  ck_select :: ts
  ck_exists :: ts
  ck_issue :: ts

definition lookupClaim :: "uuid \<Rightarrow> db \<Rightarrow> Assignment option" where
  "lookupClaim claimID d = (case find (\<lambda>l. l_claim_request_id l = claimID) (db_leases d) of
     None \<Rightarrow> None
   | Some l \<Rightarrow> (case get_attempt d (l_attempt_id l) of
       None \<Rightarrow> None
     | Some a \<Rightarrow> (case get_job d (a_job_id a) of
         None \<Rightarrow> None
       | Some j \<Rightarrow> Some \<lparr> as_Scope = a_scope a, as_JobID = j_id j, as_Queue = j_queue j,
           as_JobType = j_job_type j, as_Payload = j_payload j, as_Priority = j_priority j,
           as_TimeoutSeconds = j_timeout_seconds j, as_RequiredCapabilities = j_required_capabilities j,
           as_AttemptID = a_id a, as_AttemptNumber = a_number a, as_LeaseID = l_id l,
           as_LeaseExpiresAt = l_expires_at l, as_LeaseRemaining = 0,
           as_WorkerID = a_worker_id a, as_SessionID = a_session_id a \<rparr>)))"

definition setLeaseRemaining :: "ts \<Rightarrow> Assignment \<Rightarrow> Assignment" where
  "setLeaseRemaining now a = a\<lparr> as_LeaseRemaining := remainingUntil (as_LeaseExpiresAt a) now \<rparr>"

definition noClaim :: "ClaimDisposition \<Rightarrow> ClaimResult" where
  "noClaim x = \<lparr> res_Disposition = x, res_Assignment = None, res_Replayed = False \<rparr>"

definition attempts_of :: "db \<Rightarrow> uuid \<Rightarrow> attempt_row list" where
  "attempts_of d j = filter (\<lambda>a. a_job_id a = j) (db_attempts d)"

definition active_for_queue :: "db \<Rightarrow> string \<Rightarrow> nat" where
  "active_for_queue d q = count_where (\<lambda>l. l_queue l = q \<and> l_status l = LeaseActive) (db_leases d)"

definition active_for_worker :: "db \<Rightarrow> uuid \<Rightarrow> nat" where
  "active_for_worker d w = count_where (\<lambda>l. l_worker_id l = w \<and> l_status l = LeaseActive) (db_leases d)"

definition due_queued :: "ts \<Rightarrow> string \<Rightarrow> string \<Rightarrow> job_row \<Rightarrow> bool" where
  "due_queued now scope queue j = (j_scope j = scope \<and> j_queue j = queue \<and> j_status j = StatusQueued
     \<and> j_available_at j \<le> now)"

definition eligible :: "ts \<Rightarrow> string \<Rightarrow> string \<Rightarrow> session_row \<Rightarrow> db \<Rightarrow> job_row \<Rightarrow> bool" where
  "eligible now scope queue s d j = (due_queued now scope queue j
     \<and> set (j_required_capabilities j) \<subseteq> set (s_capabilities s)
     \<and> j_job_type j \<in> set (s_supported_job_types s)
     \<and> int (length (attempts_of d (j_id j))) < j_max_attempts j)"

definition claim_order :: "job_row \<Rightarrow> int \<times> ts \<times> ts \<times> uuid" where
  "claim_order j = (- j_priority j, j_available_at j, j_created_at j, j_id j)"

definition next_attempt_number :: "db \<Rightarrow> uuid \<Rightarrow> int" where
  "next_attempt_number d j = fold max (map a_number (attempts_of d j)) 0 + 1"

definition new_attempt :: "ts \<Rightarrow> uuid \<Rightarrow> string \<Rightarrow> ClaimRequest \<Rightarrow> job_row \<Rightarrow> int \<Rightarrow> attempt_row" where
  "new_attempt start aid scope req j n =
     \<lparr> a_id = aid, a_job_id = j_id j, a_scope = scope, a_queue = j_queue j, a_number = n,
       a_worker_id = cr_WorkerID req, a_session_id = cr_SessionID req, a_status = AttemptLeased,
       a_started_at = None, a_finished_at = None, a_created_at = start, a_timeout_at = None,
       a_outcome_request_id = None, a_failure_class = None, a_error_code = None, a_error_message = None,
       a_retry_delay_ms = None, a_retry_at = None \<rparr>"

definition new_lease :: "ts \<Rightarrow> dur \<Rightarrow> uuid \<Rightarrow> uuid \<Rightarrow> string \<Rightarrow> ClaimRequest \<Rightarrow> job_row \<Rightarrow> lease_row" where
  "new_lease issued leaseDuration lid aid scope req j =
     \<lparr> l_id = lid, l_job_id = j_id j, l_attempt_id = aid, l_scope = scope, l_queue = j_queue j,
       l_worker_id = cr_WorkerID req, l_session_id = cr_SessionID req,
       l_claim_request_id = cr_ClaimRequestID req, l_status = LeaseActive, l_acquired_at = issued,
       l_expires_at = add_dur issued leaseDuration, l_renewed_at = issued, l_released_at = None,
       l_renewal_version = 0, l_renewal_id = None \<rparr>"

definition new_assignment :: "ts \<Rightarrow> dur \<Rightarrow> uuid \<Rightarrow> uuid \<Rightarrow> string \<Rightarrow> ClaimRequest \<Rightarrow> job_row \<Rightarrow> int \<Rightarrow> Assignment" where
  "new_assignment issued leaseDuration lid aid scope req j n =
     \<lparr> as_Scope = scope, as_JobID = j_id j, as_Queue = j_queue j, as_JobType = j_job_type j,
       as_Payload = j_payload j, as_Priority = j_priority j, as_TimeoutSeconds = j_timeout_seconds j,
       as_RequiredCapabilities = j_required_capabilities j, as_AttemptID = aid, as_AttemptNumber = n,
       as_LeaseID = lid, as_LeaseExpiresAt = add_dur issued leaseDuration, as_LeaseRemaining = leaseDuration,
       as_WorkerID = cr_WorkerID req, as_SessionID = cr_SessionID req \<rparr>"

text \<open>
  The writes of a claim. The statements fail on a duplicate attempt or lease id, on a second active
  lease of the job, and on a lease window that is empty at the granularity of the column.
\<close>

definition reserve :: "claim_clock \<Rightarrow> dur \<Rightarrow> uuid \<Rightarrow> uuid \<Rightarrow> string \<Rightarrow> ClaimRequest \<Rightarrow> job_row \<Rightarrow> db
    \<Rightarrow> store_error + (ClaimResult \<times> db)" where
  "reserve ck leaseDuration aid lid scope req j d = (
     let n = next_attempt_number d (j_id j);
         a = new_attempt (ck_start ck) aid scope req j n;
         l = new_lease (ck_issue ck) leaseDuration lid aid scope req j;
         p = (\<lambda>r. j_id r = j_id j \<and> j_scope r = scope \<and> j_status r = StatusQueued)
     in if get_attempt d aid \<noteq> None then Inl (ErrDatabase ''insert job attempt'')
        else if get_lease d lid \<noteq> None
          \<or> list_ex (\<lambda>l. l_job_id l = j_id j \<and> l_status l = LeaseActive) (db_leases d)
          \<or> list_ex (\<lambda>l. l_claim_request_id l = cr_ClaimRequestID req \<or> l_attempt_id l = aid) (db_leases d)
          \<or> \<not> l_renewed_at l < l_expires_at l
        then Inl (ErrDatabase ''insert active lease'')
        else if count_where p (db_jobs d) \<noteq> 1 then Inl ErrStateConflict
        else Inr (\<lparr> res_Disposition = Claimed,
                    res_Assignment = Some (new_assignment (ck_issue ck) leaseDuration lid aid scope req j n),
                    res_Replayed = False \<rparr>,
                  d\<lparr> db_attempts := db_attempts d @ [a], db_leases := db_leases d @ [l],
                     db_jobs := upd_where p (\<lambda>r. r\<lparr> j_status := StatusLeased, j_updated_at := ck_issue ck \<rparr>)
                       (db_jobs d) \<rparr>))"

definition select_and_reserve :: "claim_clock \<Rightarrow> dur \<Rightarrow> uuid \<Rightarrow> uuid \<Rightarrow> string \<Rightarrow> ClaimRequest \<Rightarrow> session_row \<Rightarrow> db
    \<Rightarrow> store_error + (ClaimResult \<times> db)" where
  "select_and_reserve ck leaseDuration aid lid scope req s d =
     (case select_ordered (eligible (ck_select ck) scope (cr_Queue req) s d) claim_order 1 (db_jobs d) of
        [] \<Rightarrow> if \<not> list_ex (due_queued (ck_exists ck) scope (cr_Queue req)) (db_jobs d)
              then Inr (noClaim QueueEmpty, d) else Inr (noClaim NoEligibleJob, d)
      | j # _ \<Rightarrow> reserve ck leaseDuration aid lid scope req j d)"

definition claim_conflicts :: "string \<Rightarrow> ClaimRequest \<Rightarrow> Assignment \<Rightarrow> bool" where
  "claim_conflicts scope req a = (as_Scope a \<noteq> scope \<or> as_Queue a \<noteq> cr_Queue req)"

definition Claim :: "claim_clock \<Rightarrow> dur \<Rightarrow> uuid \<Rightarrow> uuid \<Rightarrow> string \<Rightarrow> ClaimRequest \<Rightarrow> db
    \<Rightarrow> store_error + (ClaimResult \<times> db)" where
  "Claim ck leaseDuration aid lid scope req d = (case ValidateClaim req of
     Some e \<Rightarrow> Inl e
   | None \<Rightarrow>
     if leaseDuration \<le> 0 then Inl (ErrDatabase ''lease duration must be positive'')
     else let existing = lookupClaim (cr_ClaimRequestID req) d in
       if case existing of Some a \<Rightarrow> claim_conflicts scope req a | None \<Rightarrow> False then Inl ErrClaimConflict
       else (case get_queue d (cr_Queue req) of
         None \<Rightarrow> Inl ErrUnknownQueue
       | Some q \<Rightarrow> (case get_session d (cr_SessionID req) of
           None \<Rightarrow> Inl ErrSessionUnavailable
         | Some s \<Rightarrow>
             if s_worker_id s \<noteq> cr_WorkerID req \<or> s_scope s \<noteq> scope \<or> s_status s \<noteq> SessionHealthy
             then Inl ErrSessionUnavailable
             else (case existing of
               Some a \<Rightarrow>
                 if as_WorkerID a \<noteq> cr_WorkerID req \<or> as_SessionID a \<noteq> cr_SessionID req
                 then Inr (noClaim DuplicateNotification, d)
                 else Inr (\<lparr> res_Disposition = Claimed,
                     res_Assignment = Some (setLeaseRemaining (ck_issue ck) a), res_Replayed = True \<rparr>, d)
             | None \<Rightarrow>
                 if s_worker_group s \<noteq> q_worker_group q then Inr (noClaim NoEligibleJob, d)
                 else if int (active_for_queue d (cr_Queue req)) \<ge> q_max_concurrency q
                 then Inr (noClaim CapacityExhausted, d)
                 else if int (active_for_worker d (cr_WorkerID req)) \<ge> s_concurrency_limit s
                 then Inr (noClaim CapacityExhausted, d)
                 else select_and_reserve ck leaseDuration aid lid scope req s d))))"

end
