(* ===== verification/Outcome.thy ===== *)
theory Outcome
  imports Claim Outbox
begin

text \<open>
  The fenced transitions of an attempt (\<^verbatim>\<open>internal/workers\<close>): start and success (\<^verbatim>\<open>store.go\<close>) with the
  result record (\<^verbatim>\<open>internal/results\<close>), failure and cancellation acknowledgement with the shared
  finalisation (\<^verbatim>\<open>outcome.go\<close>) and the dead-letter entry (\<^verbatim>\<open>internal/lifecycle/dlq.go\<close>), and renewal
  (\<^verbatim>\<open>heartbeat.go\<close>).
\<close>

text \<open>
  \<^verbatim>\<open>store_cfg\<close> is the configuration of \<^verbatim>\<open>workers.Store\<close>. \<^verbatim>\<open>tx_input\<close> is what one transaction draws from
  outside: its \<^verbatim>\<open>now()\<close>, the clock sample after its locks, the identifiers of \<^verbatim>\<open>uuid.New()\<close> and the
  jitter sample.
\<close>

record store_cfg =
  cfg_leaseDuration :: dur
  cfg_retryPolicy :: RetryPolicy
  cfg_pow :: "f64 \<Rightarrow> f64 \<Rightarrow> f64"

record tx_input =
  ti_start :: ts
  ti_now :: ts
  ti_event :: uuid
  ti_dlq :: uuid
  ti_jitter :: "f64 option"

section \<open>Start\<close>

record StartResult =
  sr_AttemptID :: uuid
  sr_StartedAt :: "ts option"
  sr_TimeoutAt :: ts
  sr_Remaining :: dur
  sr_Replayed :: bool

definition Start :: "ts \<Rightarrow> string \<Rightarrow> Fence \<Rightarrow> db \<Rightarrow> store_error + (StartResult \<times> db)" where
  "Start now scope f d = (case ValidateFence f of
     Some e \<Rightarrow> Inl e
   | None \<Rightarrow> (case lockFence now scope f d of
       Inl e \<Rightarrow> Inl e
     | Inr st \<Rightarrow>
       if \<not> leaseUsable st then Inl ErrLeaseExpired
       else if st_jobStatus st = StatusRunning \<and> st_attemptStatus st = AttemptRunning then
         (case get_attempt d (AttemptID f) of
            None \<Rightarrow> Inl (ErrDatabase ''read replayed attempt start'')
          | Some a \<Rightarrow> (case a_timeout_at a of
              None \<Rightarrow> Inl ErrStateConflict
            | Some t \<Rightarrow> Inr (\<lparr> sr_AttemptID = AttemptID f, sr_StartedAt = a_started_at a, sr_TimeoutAt = t,
                sr_Remaining = remainingUntil t (st_serverNow st), sr_Replayed = True \<rparr>, d)))
       else if st_jobStatus st = StatusCancelRequested \<or> st_jobStatus st = StatusCanceled
       then Inl ErrCancellationRequested
       else if st_jobStatus st \<noteq> StatusLeased \<or> st_attemptStatus st \<noteq> AttemptLeased then Inl ErrStateConflict
       else (case get_job d (JobID f) of
         None \<Rightarrow> Inl (ErrDatabase ''read attempt timeout budget'')
       | Some j \<Rightarrow>
         let timeoutAt = add_dur (st_serverNow st) (j_timeout_seconds j * Second);
             pa = (\<lambda>a. a_id a = AttemptID f \<and> a_status a = AttemptLeased);
             pj = (\<lambda>r. j_id r = JobID f \<and> j_status r = StatusLeased)
         in if count_where pa (db_attempts d) \<noteq> 1 then Inl ErrStateConflict
            else if count_where pj (db_jobs d) \<noteq> 1 then Inl ErrStateConflict
            else Inr (\<lparr> sr_AttemptID = AttemptID f, sr_StartedAt = Some (st_serverNow st), sr_TimeoutAt = timeoutAt,
                sr_Remaining = j_timeout_seconds j * Second, sr_Replayed = False \<rparr>,
              d\<lparr> db_attempts := upd_where pa (\<lambda>a. a\<lparr> a_status := AttemptRunning,
                   a_started_at := Some (st_serverNow st), a_timeout_at := Some timeoutAt \<rparr>) (db_attempts d),
                 db_jobs := upd_where pj (\<lambda>r. r\<lparr> j_status := StatusRunning, j_updated_at := st_serverNow st \<rparr>)
                   (db_jobs d) \<rparr>))))"

section \<open>Results and success\<close>

record ResultRef =
  rr_Location :: Location
  rr_Inline :: "string option"
  rr_Bucket :: string
  rr_Key :: string
  rr_SizeBytes :: int
  rr_Checksum :: string

definition Classify :: "string \<Rightarrow> int \<Rightarrow> Location" where
  "Classify body thresholdBytes =
     (if int (length body) \<ge> thresholdBytes then LocationObject else LocationInline)"

definition body_empty :: "string option \<Rightarrow> bool" where
  "body_empty b = (case b of None \<Rightarrow> True | Some s \<Rightarrow> s = [])"

definition Result_Validate :: "result_row \<Rightarrow> bool" where
  "Result_Validate r = ((case r_location r of
       LocationInline \<Rightarrow> \<not> body_empty (r_inline r)
         \<and> \<not> (r_bucket r \<noteq> [] \<or> r_key r \<noteq> [] \<or> r_checksum r \<noteq> [])
     | LocationObject \<Rightarrow> r_inline r = None \<and> r_bucket r \<noteq> [] \<and> r_key r \<noteq> [] \<and> r_checksum r \<noteq> []
     | LocationOther _ \<Rightarrow> False) \<and> 0 \<le> r_size r)"

definition is_hex64 :: "string \<Rightarrow> bool" where
  "is_hex64 s = (length s = 64 \<and> list_all (\<lambda>c. (97 \<le> byte c \<and> byte c \<le> 102) \<or> (48 \<le> byte c \<and> byte c \<le> 57)) s)"

text \<open>The statement also fails on a second result of the job and on a checksum that is not hex.\<close>

definition InsertResultTx :: "result_row \<Rightarrow> db \<Rightarrow> store_error + db" where
  "InsertResultTx r d = (if \<not> Result_Validate r then Inl ErrInvalidResult
     else if lookup r_job_id (db_results d) (r_job_id r) \<noteq> None
       \<or> (r_checksum r \<noteq> [] \<and> \<not> is_hex64 (r_checksum r)) then Inl (ErrDatabase ''insert result'')
     else Inr (d\<lparr> db_results := db_results d @ [r] \<rparr>))"

definition results_Get :: "string \<Rightarrow> uuid \<Rightarrow> db \<Rightarrow> store_error + result_row" where
  "results_Get scope jobID d = (case find (\<lambda>r. r_job_id r = jobID \<and> r_scope r = scope) (db_results d) of
     None \<Rightarrow> Inl ErrResultNotFound | Some r \<Rightarrow> Inr r)"

definition result_of_ref :: "string \<Rightarrow> Fence \<Rightarrow> ResultRef \<Rightarrow> result_row" where
  "result_of_ref scope f ref = \<lparr> r_job_id = JobID f, r_attempt_id = AttemptID f, r_scope = scope,
     r_location = rr_Location ref, r_inline = rr_Inline ref, r_bucket = rr_Bucket ref, r_key = rr_Key ref,
     r_size = rr_SizeBytes ref, r_checksum = rr_Checksum ref \<rparr>"

definition complete_rows :: "ts \<Rightarrow> Fence \<Rightarrow> db \<Rightarrow> db" where
  "complete_rows now f d = d\<lparr>
     db_jobs := upd_where (\<lambda>r. j_id r = JobID f \<and> j_status r = StatusRunning)
       (\<lambda>r. r\<lparr> j_status := StatusSucceeded, j_updated_at := now \<rparr>) (db_jobs d),
     db_attempts := upd_where (\<lambda>a. a_id a = AttemptID f \<and> a_status a = AttemptRunning)
       (\<lambda>a. a\<lparr> a_status := AttemptSucceeded, a_finished_at := Some now \<rparr>) (db_attempts d),
     db_leases := upd_where (\<lambda>l. l_id l = LeaseID f \<and> l_status l = LeaseActive)
       (\<lambda>l. l\<lparr> l_status := LeaseCompleted, l_released_at := Some now \<rparr>) (db_leases d) \<rparr>"

definition Succeed :: "ts \<Rightarrow> string \<Rightarrow> Fence \<Rightarrow> ResultRef option \<Rightarrow> db \<Rightarrow> store_error + (unit \<times> db)" where
  "Succeed now scope f result d = (case ValidateFence f of
     Some e \<Rightarrow> Inl e
   | None \<Rightarrow> (case lockAuthorityRows now scope f d of
       Inl e \<Rightarrow> Inl e
     | Inr st \<Rightarrow>
       if st_jobStatus st = StatusSucceeded \<and> st_attemptStatus st = AttemptSucceeded
          \<and> st_leaseStatus st = LeaseCompleted then Inr ((), d)
       else if \<not> st_sessionHealthy st then Inl ErrFenceRejected
       else if timedOut st then Inl ErrAttemptTimedOut
       else if \<not> leaseUsable st then Inl ErrLeaseExpired
       else if st_jobStatus st \<noteq> StatusRunning \<or> st_attemptStatus st \<noteq> AttemptRunning then Inl ErrStateConflict
       else if count_where (\<lambda>r. j_id r = JobID f \<and> j_status r = StatusRunning) (db_jobs d) \<noteq> 1
         \<or> count_where (\<lambda>a. a_id a = AttemptID f \<and> a_status a = AttemptRunning) (db_attempts d) \<noteq> 1
         \<or> count_where (\<lambda>l. l_id l = LeaseID f \<and> l_status l = LeaseActive) (db_leases d) \<noteq> 1
       then Inl ErrStateConflict
       else let d1 = complete_rows (st_serverNow st) f d in
         (case result of None \<Rightarrow> Inr ((), d1)
          | Some ref \<Rightarrow> (case InsertResultTx (result_of_ref scope f ref) d1 of
              Inl e \<Rightarrow> Inl e
            | Inr d2 \<Rightarrow> Inr ((), d2)))))"

section \<open>Finalisation\<close>

record OutcomeResult =
  out_JobID :: uuid
  out_JobStatus :: Status
  out_AttemptStatus :: AttemptStatus
  out_RetryAt :: "ts option"
  out_RetryDelay :: "dur option"
  out_DeadLetterReason :: DLQReason
  out_Replayed :: bool

record attemptOutcome =
  ao_status :: AttemptStatus
  ao_class :: FailureClass
  ao_errorCode :: string
  ao_errorMessage :: string
  ao_outcomeRequestID :: "uuid option"
  ao_leaseStatus :: LeaseStatus

definition nullableString :: "string \<Rightarrow> string option" where
  "nullableString v = (if v = [] then None else Some v)"

definition derefString :: "string option \<Rightarrow> string" where
  "derefString v = (case v of None \<Rightarrow> [] | Some s \<Rightarrow> s)"

definition coalesce :: "'a option \<Rightarrow> 'a option \<Rightarrow> 'a option" where
  "coalesce x y = (case x of None \<Rightarrow> y | Some _ \<Rightarrow> x)"

text \<open>\<^verbatim>\<open>None\<close> is the zero time of the source.\<close>

definition setJobStatus :: "uuid \<Rightarrow> Status \<Rightarrow> ts option \<Rightarrow> ts \<Rightarrow> db \<Rightarrow> store_error + db" where
  "setJobStatus jobID status availableAt now d = (
     let p = (\<lambda>r. j_id r = jobID \<and> isExecutingJobStatus (j_status r));
         f = (\<lambda>r. r\<lparr> j_status := status, j_updated_at := now,
               j_available_at := (case availableAt of None \<Rightarrow> j_available_at r | Some t \<Rightarrow> t) \<rparr>)
     in if count_where p (db_jobs d) \<noteq> 1 then Inl ErrStateConflict
        else Inr (d\<lparr> db_jobs := upd_where p f (db_jobs d) \<rparr>))"

definition requeue_row :: "ts \<Rightarrow> job_row \<Rightarrow> job_row" where
  "requeue_row now r = r\<lparr> j_status := StatusQueued, j_available_at := now, j_updated_at := now,
     j_generation := j_generation r + 1, j_last_notification_at := Some now \<rparr>"

definition requeueJob :: "uuid \<Rightarrow> ts \<Rightarrow> db \<Rightarrow> store_error + (int \<times> db)" where
  "requeueJob jobID now d = (
     let p = (\<lambda>r. j_id r = jobID \<and> isExecutingJobStatus (j_status r)) in
     case find p (db_jobs d) of
       None \<Rightarrow> Inl ErrStateConflict
     | Some r \<Rightarrow> Inr (j_generation r + 1, d\<lparr> db_jobs := upd_where p (requeue_row now) (db_jobs d) \<rparr>))"

definition InsertDLQEntryTx :: "uuid \<Rightarrow> string \<Rightarrow> string \<Rightarrow> uuid \<Rightarrow> uuid option \<Rightarrow> DLQReason \<Rightarrow> ts \<Rightarrow> db
    \<Rightarrow> store_error + db" where
  "InsertDLQEntryTx did scope queue jobID attemptID reason createdAt d =
     (if \<not> DLQReason_Valid reason then Inl (ErrDatabase ''invalid dead-letter reason'')
      else if lookup d_id (db_dlq d) did \<noteq> None \<or> lookup d_job_id (db_dlq d) jobID \<noteq> None
      then Inl ErrDLQEntryExists
      else Inr (d\<lparr> db_dlq := db_dlq d @ [\<lparr> d_id = did, d_scope = scope, d_queue = queue, d_job_id = jobID,
             d_attempt_id = attemptID, d_reason = reason, d_created_at = createdAt \<rparr>] \<rparr>))"

text \<open>The row of the attempt once its outcome is recorded.\<close>

definition finish_attempt :: "ts \<Rightarrow> attemptOutcome \<Rightarrow> int option \<Rightarrow> ts option \<Rightarrow> attempt_row \<Rightarrow> attempt_row" where
  "finish_attempt now oc delayMs retryAt a = a\<lparr> a_status := ao_status oc, a_finished_at := Some now,
     a_failure_class := Some (ao_class oc), a_error_code := nullableString (ao_errorCode oc),
     a_error_message := nullableString (ao_errorMessage oc),
     a_outcome_request_id := coalesce (ao_outcomeRequestID oc) (a_outcome_request_id a),
     a_retry_delay_ms := delayMs, a_retry_at := retryAt \<rparr>"

definition release_lease :: "ts \<Rightarrow> LeaseStatus \<Rightarrow> lease_row \<Rightarrow> lease_row" where
  "release_lease now status l = l\<lparr> l_status := status, l_released_at := Some now \<rparr>"

text \<open>The unique index on outcome identities.\<close>

definition outcome_id_taken :: "uuid option \<Rightarrow> uuid \<Rightarrow> db \<Rightarrow> bool" where
  "outcome_id_taken oid aid d = (oid \<noteq> None
     \<and> list_ex (\<lambda>a. a_id a \<noteq> aid \<and> a_outcome_request_id a = oid) (db_attempts d))"

definition close_attempt :: "(attempt_row \<Rightarrow> attempt_row) \<Rightarrow> uuid option \<Rightarrow> LeaseStatus \<Rightarrow> ts \<Rightarrow> Fence \<Rightarrow> db
    \<Rightarrow> store_error + db" where
  "close_attempt g oid leaseStatus now f d = (
     let pa = (\<lambda>a. a_id a = AttemptID f \<and> isExecutingAttemptStatus (a_status a));
         pl = (\<lambda>l. l_id l = LeaseID f \<and> l_status l = LeaseActive)
     in if count_where pa (db_attempts d) \<noteq> 1 then Inl ErrStateConflict
        else if outcome_id_taken oid (AttemptID f) d then Inl ErrOutcomeConflict
        else if count_where pl (db_leases d) \<noteq> 1 then Inl ErrStateConflict
        else Inr (d\<lparr> db_attempts := upd_where pa g (db_attempts d),
                     db_leases := upd_where pl (release_lease now leaseStatus) (db_leases d) \<rparr>))"

text \<open>
  \<^verbatim>\<open>finalizeAttempt\<close> in two parts: the attempt and the lease are closed (\<^verbatim>\<open>close_attempt\<close>), then the job is
  settled as the decision says: it waits, is queued again with a fresh notification, or is
  dead-lettered.
\<close>

definition settle_job :: "tx_input \<Rightarrow> fenceState \<Rightarrow> Fence \<Rightarrow> Decision \<Rightarrow> int \<Rightarrow> ts option \<Rightarrow> OutcomeResult \<Rightarrow> db
    \<Rightarrow> store_error + (OutcomeResult \<times> db)" where
  "settle_job ti st f dec storedMillis retryAt result d1 = (
     let now = st_serverNow st in
     if Retry dec then
       (if storedMillis > 0 then
          (case setJobStatus (JobID f) StatusRetryWait retryAt now d1 of
             Inl e \<Rightarrow> Inl e
           | Inr d2 \<Rightarrow> Inr (result\<lparr> out_JobStatus := StatusRetryWait \<rparr>, d2))
        else (case requeueJob (JobID f) now d1 of
             Inl e \<Rightarrow> Inl e
           | Inr (generation, d2) \<Rightarrow>
              (case InsertWorkAvailableTx (ti_start ti) (ti_event ti) (JobID f) (st_queue st) generation None d2 of
                 Inl e \<Rightarrow> Inl e
               | Inr (_, d3) \<Rightarrow> Inr (result\<lparr> out_JobStatus := StatusQueued \<rparr>, d3))))
     else (case setJobStatus (JobID f) StatusDeadLettered None now d1 of
             Inl e \<Rightarrow> Inl e
           | Inr d2 \<Rightarrow>
              (case InsertDLQEntryTx (ti_dlq ti) (st_scope st) (st_queue st) (JobID f) (Some (AttemptID f))
                      (DeadLetterReason dec) now d2 of
                 Inl e \<Rightarrow> Inl e
               | Inr d3 \<Rightarrow> Inr (result\<lparr> out_DeadLetterReason := DeadLetterReason dec \<rparr>, d3))))"

definition stored_millis :: "Decision \<Rightarrow> int" where
  "stored_millis dec = (if Retry dec then go_div (DecisionDelay dec) Millisecond else 0)"

definition retry_at :: "ts \<Rightarrow> Decision \<Rightarrow> ts option" where
  "retry_at now dec = (if Retry dec then Some (add_dur now (stored_millis dec * Millisecond)) else None)"

definition delay_ms :: "Decision \<Rightarrow> int option" where
  "delay_ms dec = (if Retry dec then Some (stored_millis dec) else None)"

definition finalizeAttempt :: "tx_input \<Rightarrow> fenceState \<Rightarrow> Fence \<Rightarrow> attemptOutcome \<Rightarrow> Decision \<Rightarrow> db
    \<Rightarrow> store_error + (OutcomeResult \<times> db)" where
  "finalizeAttempt ti st f oc dec d = (
     let now = st_serverNow st;
         result = \<lparr> out_JobID = JobID f, out_JobStatus = StatusDeadLettered, out_AttemptStatus = ao_status oc,
                    out_RetryAt = retry_at now dec,
                    out_RetryDelay = map_option (\<lambda>ms. ms * Millisecond) (delay_ms dec),
                    out_DeadLetterReason = ReasonOther [], out_Replayed = False \<rparr>
     in case close_attempt (finish_attempt now oc (delay_ms dec) (retry_at now dec)) (ao_outcomeRequestID oc)
             (ao_leaseStatus oc) now f d of
       Inl e \<Rightarrow> Inl e
     | Inr d1 \<Rightarrow> settle_job ti st f dec (stored_millis dec) (retry_at now dec) result d1)"

definition cancel_attempt :: "ts \<Rightarrow> uuid option \<Rightarrow> attempt_row \<Rightarrow> attempt_row" where
  "cancel_attempt now oid a = a\<lparr> a_status := AttemptCanceled, a_finished_at := Some now,
     a_failure_class := Some ClassCanceled, a_error_code := Some CodeCanceled,
     a_error_message := Some MessageCanceled,
     a_outcome_request_id := coalesce oid (a_outcome_request_id a) \<rparr>"

definition finalizeCancellation :: "fenceState \<Rightarrow> Fence \<Rightarrow> uuid option \<Rightarrow> LeaseStatus \<Rightarrow> db
    \<Rightarrow> store_error + (OutcomeResult \<times> db)" where
  "finalizeCancellation st f oid leaseStatus d = (
     let now = st_serverNow st;
         pj = (\<lambda>r. j_id r = JobID f \<and> j_status r = StatusCancelRequested)
     in case close_attempt (cancel_attempt now oid) oid leaseStatus now f d of
       Inl e \<Rightarrow> Inl e
     | Inr d1 \<Rightarrow>
       if count_where pj (db_jobs d1) \<noteq> 1 then Inl ErrStateConflict
       else Inr (\<lparr> out_JobID = JobID f, out_JobStatus = StatusCanceled, out_AttemptStatus = AttemptCanceled,
                   out_RetryAt = None, out_RetryDelay = None, out_DeadLetterReason = ReasonOther [],
                   out_Replayed = False \<rparr>,
                 d1\<lparr> db_jobs := upd_where pj (\<lambda>r. r\<lparr> j_status := StatusCanceled, j_updated_at := now \<rparr>)
                       (db_jobs d1) \<rparr>))"

section \<open>Failure\<close>

record FailureReport =
  fr_Fence :: Fence
  fr_OutcomeRequestID :: uuid
  fr_Class :: FailureClass
  fr_ErrorCode :: string
  fr_ErrorMessage :: string

definition ValidateFailureReport :: "FailureReport \<Rightarrow> store_error option" where
  "ValidateFailureReport r = validation (fence_fields (fr_Fence r)
     @ uuid_field ''outcome_request_id'' (fr_OutcomeRequestID r)
     @ (if \<not> ReportableByHandler (fr_Class r)
        then [(''failure_class'', ''must be RETRYABLE or PERMANENT; timeout, cancellation, and abandonment are server-authoritative'')]
        else [])
     @ (case ValidateErrorCode (fr_ErrorCode r) of None \<Rightarrow> [] | Some m \<Rightarrow> [(''error_code'', m)])
     @ (case ValidateErrorMessage (fr_ErrorMessage r) of None \<Rightarrow> [] | Some m \<Rightarrow> [(''error_message'', m)]))"

definition decidedJobStatus :: "fenceState \<Rightarrow> Status" where
  "decidedJobStatus st = (if st_attemptStatus st = AttemptCanceled then StatusCanceled
     else case st_retryDelayMillis st of
       None \<Rightarrow> StatusDeadLettered
     | Some ms \<Rightarrow> if ms = 0 then StatusQueued else StatusRetryWait)"

definition replayedOutcome :: "fenceState \<Rightarrow> FailureReport \<Rightarrow> store_error + OutcomeResult" where
  "replayedOutcome st r =
     (if st_failureClass st \<noteq> Some (fr_Class r) then Inl ErrOutcomeConflict
      else if derefString (st_errorCode st) \<noteq> fr_ErrorCode r
        \<or> derefString (st_errorMessage st) \<noteq> fr_ErrorMessage r then Inl ErrOutcomeConflict
      else let jobStatus = decidedJobStatus st in
        Inr \<lparr> out_JobID = uuid_Nil, out_JobStatus = jobStatus, out_AttemptStatus = st_attemptStatus st,
              out_RetryAt = st_retryAt st,
              out_RetryDelay = map_option (\<lambda>ms. ms * Millisecond) (st_retryDelayMillis st),
              out_DeadLetterReason = (if jobStatus = StatusDeadLettered
                 then (if st_failureClass st = Some ClassPermanent then ReasonPermanentFailure
                       else ReasonAttemptsExhausted)
                 else ReasonOther []),
              out_Replayed = True \<rparr>)"

definition rejectForeignOutcomeIdentity :: "uuid \<Rightarrow> uuid \<Rightarrow> db \<Rightarrow> bool" where
  "rejectForeignOutcomeIdentity oid aid d =
     (case find (\<lambda>a. a_outcome_request_id a = Some oid) (db_attempts d) of
        Some a \<Rightarrow> a_id a \<noteq> aid | None \<Rightarrow> False)"

definition failure_outcome :: "FailureReport \<Rightarrow> attemptOutcome" where
  "failure_outcome r = \<lparr> ao_status = AttemptFailed, ao_class = fr_Class r, ao_errorCode = fr_ErrorCode r,
     ao_errorMessage = fr_ErrorMessage r, ao_outcomeRequestID = Some (fr_OutcomeRequestID r),
     ao_leaseStatus = LeaseReleased \<rparr>"

definition Fail :: "store_cfg \<Rightarrow> tx_input \<Rightarrow> string \<Rightarrow> FailureReport \<Rightarrow> db \<Rightarrow> store_error + (OutcomeResult \<times> db)" where
  "Fail cfg ti scope r d = (case ValidateFailureReport r of
     Some e \<Rightarrow> Inl e
   | None \<Rightarrow> (case lockAuthorityRows (ti_now ti) scope (fr_Fence r) d of
       Inl e \<Rightarrow> Inl e
     | Inr st \<Rightarrow>
       if st_outcomeRequestID st = Some (fr_OutcomeRequestID r) then
         (case replayedOutcome st r of
            Inl e \<Rightarrow> Inl e
          | Inr res \<Rightarrow> Inr (res\<lparr> out_JobID := JobID (fr_Fence r) \<rparr>, d))
       else if rejectForeignOutcomeIdentity (fr_OutcomeRequestID r) (AttemptID (fr_Fence r)) d
       then Inl ErrOutcomeConflict
       else if \<not> st_sessionHealthy st then Inl ErrFenceRejected
       else if timedOut st then Inl ErrAttemptTimedOut
       else if \<not> leaseUsable st then Inl ErrLeaseExpired
       else if st_jobStatus st \<noteq> StatusRunning \<or> st_attemptStatus st \<noteq> AttemptRunning then Inl ErrStateConflict
       else (case Decide (cfg_pow cfg) (cfg_retryPolicy cfg) (fr_Class r) (st_attemptNumber st)
                    (st_attemptNumber st) (st_maxAttempts st) (ti_jitter ti) of
               Inl _ \<Rightarrow> Inl ErrStateConflict
             | Inr dec \<Rightarrow> finalizeAttempt ti st (fr_Fence r) (failure_outcome r) dec d)))"

section \<open>Cancellation acknowledgement\<close>

record CancelAcknowledgment =
  ca_Fence :: Fence
  ca_OutcomeRequestID :: uuid

definition ValidateCancelAcknowledgment :: "CancelAcknowledgment \<Rightarrow> store_error option" where
  "ValidateCancelAcknowledgment a = validation (fence_fields (ca_Fence a)
     @ uuid_field ''outcome_request_id'' (ca_OutcomeRequestID a))"

definition AcknowledgeCancellation :: "ts \<Rightarrow> string \<Rightarrow> CancelAcknowledgment \<Rightarrow> db
    \<Rightarrow> store_error + (OutcomeResult \<times> db)" where
  "AcknowledgeCancellation now scope ack d = (case ValidateCancelAcknowledgment ack of
     Some e \<Rightarrow> Inl e
   | None \<Rightarrow> (case lockAuthorityRows now scope (ca_Fence ack) d of
       Inl e \<Rightarrow> Inl e
     | Inr st \<Rightarrow>
       if st_outcomeRequestID st = Some (ca_OutcomeRequestID ack) then
         (if st_attemptStatus st \<noteq> AttemptCanceled then Inl ErrOutcomeConflict
          else Inr (\<lparr> out_JobID = JobID (ca_Fence ack), out_JobStatus = decidedJobStatus st,
                 out_AttemptStatus = st_attemptStatus st, out_RetryAt = None, out_RetryDelay = None,
                 out_DeadLetterReason = ReasonOther [], out_Replayed = True \<rparr>, d))
       else if rejectForeignOutcomeIdentity (ca_OutcomeRequestID ack) (AttemptID (ca_Fence ack)) d
       then Inl ErrOutcomeConflict
       else if \<not> st_sessionHealthy st then Inl ErrFenceRejected
       else if \<not> leaseUsable st then Inl ErrLeaseExpired
       else if st_jobStatus st \<noteq> StatusCancelRequested \<or> \<not> isExecutingAttemptStatus (st_attemptStatus st)
       then Inl ErrStateConflict
       else finalizeCancellation st (ca_Fence ack) (Some (ca_OutcomeRequestID ack)) LeaseReleased d))"

section \<open>Renewal\<close>

record RenewalRequest =
  rq_Fence :: Fence
  rq_RenewalRequestID :: uuid
  rq_ExpectedVersion :: int

record RenewalResult =
  rn_LeaseID :: uuid
  rn_RenewalVersion :: int
  rn_ExpiresAt :: ts
  rn_Remaining :: dur
  rn_Replayed :: bool

definition ValidateRenewal :: "RenewalRequest \<Rightarrow> store_error option" where
  "ValidateRenewal r = validation (fence_fields (rq_Fence r)
     @ uuid_field ''renewal_request_id'' (rq_RenewalRequestID r)
     @ (if rq_ExpectedVersion r < 0 then [(''expected_renewal_version'', ''must not be negative'')] else []))"

definition RenewLease :: "dur \<Rightarrow> ts \<Rightarrow> string \<Rightarrow> RenewalRequest \<Rightarrow> db \<Rightarrow> store_error + (RenewalResult \<times> db)" where
  "RenewLease leaseDuration now scope req d = (case ValidateRenewal req of
     Some e \<Rightarrow> Inl e
   | None \<Rightarrow>
     if leaseDuration \<le> 0 then Inl (ErrDatabase ''lease duration must be positive'')
     else (case lockFence now scope (rq_Fence req) d of
       Inl e \<Rightarrow> Inl e
     | Inr st \<Rightarrow>
       if \<not> leaseUsable st then Inl ErrLeaseExpired
       else if timedOut st then Inl ErrAttemptTimedOut
       else if \<not> isExecutingJobStatus (st_jobStatus st) \<or> \<not> isExecutingAttemptStatus (st_attemptStatus st)
       then Inl ErrStateConflict
       else if st_lastRenewalRequestID st = Some (rq_RenewalRequestID req) then
         (if st_renewalVersion st \<noteq> rq_ExpectedVersion req + 1 then Inl ErrRenewalConflict
          else Inr (\<lparr> rn_LeaseID = LeaseID (rq_Fence req), rn_RenewalVersion = st_renewalVersion st,
                 rn_ExpiresAt = st_expiresAt st, rn_Remaining = remainingUntil (st_expiresAt st) (st_serverNow st),
                 rn_Replayed = True \<rparr>, d))
       else if (case find (\<lambda>l. l_renewal_id l = Some (rq_RenewalRequestID req)) (db_leases d) of
                  Some l \<Rightarrow> l_id l \<noteq> LeaseID (rq_Fence req) | None \<Rightarrow> False) then Inl ErrRenewalConflict
       else if st_renewalVersion st \<noteq> rq_ExpectedVersion req then Inl ErrRenewalConflict
       else let expiresAt = add_dur (st_serverNow st) leaseDuration;
                p = (\<lambda>l. l_id l = LeaseID (rq_Fence req) \<and> l_status l = LeaseActive
                       \<and> l_renewal_version l = rq_ExpectedVersion req)
            in if count_where p (db_leases d) \<noteq> 1 then Inl ErrRenewalConflict
               else if \<not> st_serverNow st < expiresAt then Inl (ErrDatabase ''renew lease'')
               else Inr (\<lparr> rn_LeaseID = LeaseID (rq_Fence req), rn_RenewalVersion = rq_ExpectedVersion req + 1,
                    rn_ExpiresAt = expiresAt, rn_Remaining = remainingUntil expiresAt (st_serverNow st),
                    rn_Replayed = False \<rparr>,
                  d\<lparr> db_leases := upd_where p (\<lambda>l. l\<lparr> l_renewed_at := st_serverNow st, l_expires_at := expiresAt,
                       l_renewal_version := l_renewal_version l + 1,
                       l_renewal_id := Some (rq_RenewalRequestID req) \<rparr>) (db_leases d) \<rparr>)))"

end
