(* ===== verification/Reconcile.thy ===== *)
theory Reconcile
  imports Outcome
begin

text \<open>
  Reconciliation (\<^verbatim>\<open>internal/workers/reconcile.go\<close>, \<^verbatim>\<open>timeout.go\<close>): expired leases become abandonment,
  timeout or a finalised cancellation, and running attempts past their deadline become timeouts.
  The per-candidate functions return the database and the statistics; an error is a failed
  transaction, which leaves the database as it was.
\<close>

record ReconcileStats =
  StaleSessions :: nat
  ExpiredLeases :: nat
  TimedOutAttempts :: nat
  CanceledAttempts :: nat
  RequeuedJobs :: nat
  RetryWaitingJobs :: nat
  DeadLetteredJobs :: nat
  Skipped :: nat

definition zero_stats :: ReconcileStats where
  "zero_stats = \<lparr> StaleSessions = 0, ExpiredLeases = 0, TimedOutAttempts = 0, CanceledAttempts = 0,
     RequeuedJobs = 0, RetryWaitingJobs = 0, DeadLetteredJobs = 0, Skipped = 0 \<rparr>"

definition ReconcileStats_Add :: "ReconcileStats \<Rightarrow> ReconcileStats \<Rightarrow> ReconcileStats" where
  "ReconcileStats_Add s t = \<lparr> StaleSessions = StaleSessions s + StaleSessions t,
     ExpiredLeases = ExpiredLeases s + ExpiredLeases t,
     TimedOutAttempts = TimedOutAttempts s + TimedOutAttempts t,
     CanceledAttempts = CanceledAttempts s + CanceledAttempts t,
     RequeuedJobs = RequeuedJobs s + RequeuedJobs t,
     RetryWaitingJobs = RetryWaitingJobs s + RetryWaitingJobs t,
     DeadLetteredJobs = DeadLetteredJobs s + DeadLetteredJobs t, Skipped = Skipped s + Skipped t \<rparr>"

definition skip_stat :: "ReconcileStats \<Rightarrow> ReconcileStats" where
  "skip_stat s = s\<lparr> Skipped := Skipped s + 1 \<rparr>"

definition timeout_outcome :: "LeaseStatus \<Rightarrow> attemptOutcome" where
  "timeout_outcome ls = \<lparr> ao_status = AttemptTimedOut, ao_class = ClassTimedOut, ao_errorCode = CodeTimeout,
     ao_errorMessage = MessageTimeout, ao_outcomeRequestID = None, ao_leaseStatus = ls \<rparr>"

definition abandon_outcome :: attemptOutcome where
  "abandon_outcome = \<lparr> ao_status = AttemptAbandoned, ao_class = ClassAbandoned, ao_errorCode = CodeAbandoned,
     ao_errorMessage = MessageAbandoned, ao_outcomeRequestID = None, ao_leaseStatus = LeaseExpired \<rparr>"

definition finalizeTimeout :: "store_cfg \<Rightarrow> tx_input \<Rightarrow> fenceState \<Rightarrow> Fence \<Rightarrow> ReconcileStats \<Rightarrow> db
    \<Rightarrow> store_error + (ReconcileStats \<times> db)" where
  "finalizeTimeout cfg ti st f stats d =
     (case Decide (cfg_pow cfg) (cfg_retryPolicy cfg) ClassTimedOut (st_attemptNumber st)
             (st_attemptNumber st) (st_maxAttempts st) (ti_jitter ti) of
        Inl _ \<Rightarrow> Inl (ErrDatabase ''decide timeout retry'')
      | Inr dec \<Rightarrow>
        let leaseStatus = (if st_leaseStatus st = LeaseActive \<and> \<not> st_serverNow st < st_expiresAt st
                           then LeaseExpired else LeaseReleased)
        in (case finalizeAttempt ti st f (timeout_outcome leaseStatus) dec d of
              Inl e \<Rightarrow> Inl e
            | Inr (result, d') \<Rightarrow>
              Inr (if out_JobStatus result = StatusDeadLettered
                   then stats\<lparr> DeadLetteredJobs := DeadLetteredJobs stats + 1 \<rparr>
                   else stats\<lparr> RetryWaitingJobs := RetryWaitingJobs stats + 1 \<rparr>, d')))"

section \<open>Due timeouts\<close>

definition timeout_candidates :: "ts \<Rightarrow> nat \<Rightarrow> db \<Rightarrow> uuid list" where
  "timeout_candidates now limit d = map a_id (select_ordered
     (\<lambda>a. a_status a = AttemptRunning \<and> (case a_timeout_at a of None \<Rightarrow> False | Some t \<Rightarrow> t \<le> now))
     (\<lambda>a. (case a_timeout_at a of None \<Rightarrow> 0 | Some t \<Rightarrow> t, a_id a)) limit (db_attempts d))"

definition attempt_fence :: "attempt_row \<Rightarrow> lease_row \<Rightarrow> Fence" where
  "attempt_fence a l = \<lparr> JobID = a_job_id a, AttemptID = a_id a, LeaseID = l_id l,
     WorkerID = a_worker_id a, SessionID = a_session_id a \<rparr>"

definition reconcileDueTimeout :: "store_cfg \<Rightarrow> tx_input \<Rightarrow> uuid \<Rightarrow> ReconcileStats \<Rightarrow> db
    \<Rightarrow> store_error + (ReconcileStats \<times> db)" where
  "reconcileDueTimeout cfg ti attemptID stats d = (case get_attempt d attemptID of
     None \<Rightarrow> Inr (skip_stat stats, d)
   | Some a \<Rightarrow> (case find (\<lambda>l. l_attempt_id l = attemptID) (db_leases d) of
       None \<Rightarrow> Inr (skip_stat stats, d)
     | Some l \<Rightarrow>
       let f = attempt_fence a l in
       (case lockFenceForReconciliation (ti_now ti) (a_scope a) f d of
          Inl e \<Rightarrow> if e = ErrFenceRejected then Inr (skip_stat stats, d) else Inl e
        | Inr st \<Rightarrow>
          if \<not> leaseUsable st \<or> \<not> timedOut st \<or> st_jobStatus st \<noteq> StatusRunning
             \<or> st_attemptStatus st \<noteq> AttemptRunning then Inr (skip_stat stats, d)
          else (case finalizeTimeout cfg ti st f stats d of
                  Inl e \<Rightarrow> Inl e
                | Inr (stats', d') \<Rightarrow> Inr (stats'\<lparr> TimedOutAttempts := TimedOutAttempts stats' + 1 \<rparr>, d')))))"

section \<open>Expired leases\<close>

definition expired_candidates :: "ts \<Rightarrow> nat \<Rightarrow> db \<Rightarrow> uuid list" where
  "expired_candidates now limit d = map l_id (select_ordered
     (\<lambda>l. l_status l = LeaseActive \<and> l_expires_at l \<le> now) (\<lambda>l. (l_expires_at l, l_id l)) limit (db_leases d))"

definition lease_fence :: "lease_row \<Rightarrow> Fence" where
  "lease_fence l = \<lparr> JobID = l_job_id l, AttemptID = l_attempt_id l, LeaseID = l_id l,
     WorkerID = l_worker_id l, SessionID = l_session_id l \<rparr>"

definition reconcileExpiredLease :: "store_cfg \<Rightarrow> tx_input \<Rightarrow> uuid \<Rightarrow> ReconcileStats \<Rightarrow> db
    \<Rightarrow> store_error + (ReconcileStats \<times> db)" where
  "reconcileExpiredLease cfg ti leaseID stats d = (case get_lease d leaseID of
     None \<Rightarrow> Inr (skip_stat stats, d)
   | Some l \<Rightarrow>
     let f = lease_fence l in
     (case lockFenceForReconciliation (ti_now ti) (l_scope l) f d of
        Inl e \<Rightarrow> if e = ErrFenceRejected then Inr (skip_stat stats, d) else Inl e
      | Inr st \<Rightarrow>
        if st_leaseStatus st \<noteq> LeaseActive \<or> st_serverNow st < st_expiresAt st then Inr (skip_stat stats, d)
        else if \<not> isExecutingAttemptStatus (st_attemptStatus st) then Inr (skip_stat stats, d)
        else if st_jobStatus st = StatusCancelRequested then
          (case finalizeCancellation st f None LeaseExpired d of
             Inl e \<Rightarrow> Inl e
           | Inr (_, d') \<Rightarrow> Inr (stats\<lparr> ExpiredLeases := ExpiredLeases stats + 1,
                                 CanceledAttempts := CanceledAttempts stats + 1 \<rparr>, d'))
        else if \<not> isExecutingJobStatus (st_jobStatus st) then Inr (skip_stat stats, d)
        else if timedOutBeforeLapse st then
          (case finalizeTimeout cfg ti st f stats d of
             Inl e \<Rightarrow> Inl e
           | Inr (stats', d') \<Rightarrow> Inr (stats'\<lparr> ExpiredLeases := ExpiredLeases stats' + 1,
                                 TimedOutAttempts := TimedOutAttempts stats' + 1 \<rparr>, d'))
        else (case Decide (cfg_pow cfg) (cfg_retryPolicy cfg) ClassAbandoned (st_attemptNumber st)
                     (st_attemptNumber st) (st_maxAttempts st) (ti_jitter ti) of
                Inl _ \<Rightarrow> Inl (ErrDatabase ''decide abandonment recovery'')
              | Inr dec \<Rightarrow> (case finalizeAttempt ti st f abandon_outcome dec d of
                  Inl e \<Rightarrow> Inl e
                | Inr (result, d') \<Rightarrow>
                  let stats1 = stats\<lparr> ExpiredLeases := ExpiredLeases stats + 1 \<rparr>
                  in Inr (if out_JobStatus result = StatusQueued
                          then stats1\<lparr> RequeuedJobs := RequeuedJobs stats1 + 1 \<rparr>
                          else stats1\<lparr> DeadLetteredJobs := DeadLetteredJobs stats1 + 1 \<rparr>, d')))))"

section \<open>The passes\<close>

text \<open>
  A pass handles its candidates one transaction after the other and stops at the first error, with
  the statistics and the database of the transactions that committed. \<^verbatim>\<open>inputs\<close> gives each
  candidate's transaction its own clock and identifiers.
\<close>

fun reconcile_loop :: "(uuid \<Rightarrow> ReconcileStats \<Rightarrow> db \<Rightarrow> store_error + (ReconcileStats \<times> db)) \<Rightarrow> uuid list
    \<Rightarrow> ReconcileStats \<Rightarrow> db \<Rightarrow> store_error option \<times> ReconcileStats \<times> db" where
  "reconcile_loop step [] stats d = (None, stats, d)"
| "reconcile_loop step (i # is) stats d = (case step i stats d of
     Inl e \<Rightarrow> (Some e, stats, d)
   | Inr (stats', d') \<Rightarrow> reconcile_loop step is stats' d')"

definition ReconcileExpiredLeases :: "store_cfg \<Rightarrow> ts \<Rightarrow> (uuid \<Rightarrow> tx_input) \<Rightarrow> int \<Rightarrow> db
    \<Rightarrow> store_error option \<times> ReconcileStats \<times> db" where
  "ReconcileExpiredLeases cfg now inputs limit d =
     (if limit < 1 then (Some (ErrDatabase ''scan limit must be positive''), zero_stats, d)
      else reconcile_loop (\<lambda>i. reconcileExpiredLease cfg (inputs i) i)
             (expired_candidates now (nat limit) d) zero_stats d)"

definition ReconcileDueTimeouts :: "store_cfg \<Rightarrow> ts \<Rightarrow> (uuid \<Rightarrow> tx_input) \<Rightarrow> int \<Rightarrow> db
    \<Rightarrow> store_error option \<times> ReconcileStats \<times> db" where
  "ReconcileDueTimeouts cfg now inputs limit d =
     (if limit < 1 then (Some (ErrDatabase ''scan limit must be positive''), zero_stats, d)
      else reconcile_loop (\<lambda>i. reconcileDueTimeout cfg (inputs i) i)
             (timeout_candidates now (nat limit) d) zero_stats d)"

end
