(* ===== verification/Authority.thy ===== *)
theory Authority
  imports Jobs Reconcile
begin

text \<open>
  The coupling between jobs, attempts and leases that gives a worker authority, as a predicate on the
  three lookups, and the four ways the transactions change it: a change of one bound triple, a change
  of a job no lease holds, a new job, and a new claim.
\<close>

definition held :: "Status \<Rightarrow> bool" where
  "held s = (s = StatusLeased \<or> s = StatusRunning \<or> s = StatusCancelRequested)"

text \<open>The columns of attempt and job a lease repeats.\<close>

definition bound :: "lease_row \<Rightarrow> attempt_row \<Rightarrow> job_row \<Rightarrow> bool" where
  "bound l a j = (a_job_id a = l_job_id l \<and> a_scope a = l_scope l \<and> a_queue a = l_queue l
     \<and> a_worker_id a = l_worker_id l \<and> a_session_id a = l_session_id l
     \<and> j_scope j = l_scope l \<and> j_queue j = l_queue l)"

text \<open>Job and attempt status while the lease is active.\<close>

definition live :: "Status \<Rightarrow> AttemptStatus \<Rightarrow> bool" where
  "live js as = ((js = StatusLeased \<and> as = AttemptLeased) \<or> (js = StatusRunning \<and> as = AttemptRunning)
     \<or> (js = StatusCancelRequested \<and> isExecutingAttemptStatus as))"

definition coupled :: "lease_row \<Rightarrow> attempt_row \<Rightarrow> job_row \<Rightarrow> bool" where
  "coupled l a j = (if l_status l = LeaseActive then live (j_status j) (a_status a)
     else \<not> isExecutingAttemptStatus (a_status a))"

definition auth_ok :: "(uuid \<Rightarrow> job_row option) \<Rightarrow> (uuid \<Rightarrow> attempt_row option) \<Rightarrow> (uuid \<Rightarrow> lease_row option) \<Rightarrow> bool" where
  "auth_ok J A L \<longleftrightarrow>
     (\<forall>i l. L i = Some l \<longrightarrow> (\<exists>a j. A (l_attempt_id l) = Some a \<and> J (l_job_id l) = Some j \<and> bound l a j \<and> coupled l a j))
   \<and> (\<forall>i k l m. L i = Some l \<and> L k = Some m \<and> l_attempt_id l = l_attempt_id m \<longrightarrow> i = k)
   \<and> (\<forall>i k l m. L i = Some l \<and> L k = Some m \<and> l_job_id l = l_job_id m
        \<and> l_status l = LeaseActive \<and> l_status m = LeaseActive \<longrightarrow> i = k)
   \<and> (\<forall>x a. A x = Some a \<longrightarrow> (\<exists>i l. L i = Some l \<and> l_attempt_id l = x))
   \<and> (\<forall>x j. J x = Some j \<and> held (j_status j) \<longrightarrow> (\<exists>i l. L i = Some l \<and> l_job_id l = x \<and> l_status l = LeaseActive))"

lemma auth_okI:
  assumes "\<And>i l. L i = Some l \<Longrightarrow> \<exists>a j. A (l_attempt_id l) = Some a \<and> J (l_job_id l) = Some j \<and> bound l a j \<and> coupled l a j"
    and "\<And>i k l m. L i = Some l \<Longrightarrow> L k = Some m \<Longrightarrow> l_attempt_id l = l_attempt_id m \<Longrightarrow> i = k"
    and "\<And>i k l m. L i = Some l \<Longrightarrow> L k = Some m \<Longrightarrow> l_job_id l = l_job_id m
        \<Longrightarrow> l_status l = LeaseActive \<Longrightarrow> l_status m = LeaseActive \<Longrightarrow> i = k"
    and "\<And>x a. A x = Some a \<Longrightarrow> \<exists>i l. L i = Some l \<and> l_attempt_id l = x"
    and "\<And>x j. J x = Some j \<Longrightarrow> held (j_status j) \<Longrightarrow> \<exists>i l. L i = Some l \<and> l_job_id l = x \<and> l_status l = LeaseActive"
  shows "auth_ok J A L"
  using assms unfolding auth_ok_def by blast

lemma auth_okD:
  assumes "auth_ok J A L"
  shows "L i = Some l \<Longrightarrow> \<exists>a j. A (l_attempt_id l) = Some a \<and> J (l_job_id l) = Some j \<and> bound l a j \<and> coupled l a j"
    and "L i = Some l \<Longrightarrow> L k = Some m \<Longrightarrow> l_attempt_id l = l_attempt_id m \<Longrightarrow> i = k"
    and "L i = Some l \<Longrightarrow> L k = Some m \<Longrightarrow> l_job_id l = l_job_id m
        \<Longrightarrow> l_status l = LeaseActive \<Longrightarrow> l_status m = LeaseActive \<Longrightarrow> i = k"
    and "A x = Some a \<Longrightarrow> \<exists>i l. L i = Some l \<and> l_attempt_id l = x"
    and "J x = Some j \<Longrightarrow> held (j_status j) \<Longrightarrow> \<exists>i l. L i = Some l \<and> l_job_id l = x \<and> l_status l = LeaseActive"
  using assms unfolding auth_ok_def by blast+

lemma live_held: "live js as \<Longrightarrow> held js \<and> isExecutingAttemptStatus as"
  by (auto simp: live_def held_def isExecutingAttemptStatus_def)

text \<open>A lease that is active holds its job; a job without an active lease is not held.\<close>

lemma auth_active_held:
  assumes "auth_ok J A L" and "L i = Some l" and "l_status l = LeaseActive" and "J (l_job_id l) = Some j"
  shows "held (j_status j)"
  using auth_okD(1) [OF assms(1,2)] assms(3,4) live_held by (auto simp: coupled_def)

text \<open>One bound triple changes and keeps its binding columns.\<close>

definition same_binding :: "lease_row \<Rightarrow> lease_row \<Rightarrow> attempt_row \<Rightarrow> attempt_row \<Rightarrow> job_row \<Rightarrow> job_row \<Rightarrow> bool" where
  "same_binding l l' a a' j j' = (l_job_id l' = l_job_id l \<and> l_attempt_id l' = l_attempt_id l
     \<and> (bound l a j \<longrightarrow> bound l' a' j') \<and> j_scope j' = j_scope j \<and> j_queue j' = j_queue j)"

lemma bound_job_cong: "bound l a j \<Longrightarrow> j_scope j' = j_scope j \<Longrightarrow> j_queue j' = j_queue j \<Longrightarrow> bound l a j'"
  by (simp add: bound_def)

lemma auth_triple:
  assumes ok: "auth_ok J A L" and l: "L i = Some l" and act: "l_status l = LeaseActive"
    and a: "A (l_attempt_id l) = Some a" and j: "J (l_job_id l) = Some j"
    and same: "same_binding l l' a a' j j'" and c: "coupled l' a' j'"
    and closed: "l_status l' \<noteq> LeaseActive \<Longrightarrow> \<not> held (j_status j')"
  shows "auth_ok (J(l_job_id l \<mapsto> j')) (A(l_attempt_id l \<mapsto> a')) (L(i \<mapsto> l'))"
proof (rule auth_okI)
  note D = auth_okD [OF ok]
  have b: "bound l a j"
    using D(1) [OF l] a j by auto
  have l': "l_job_id l' = l_job_id l" "l_attempt_id l' = l_attempt_id l" "bound l' a' j'"
    and j': "j_scope j' = j_scope j" "j_queue j' = j_queue j"
    using same b by (auto simp: same_binding_def)
  show "\<exists>a'' j''. (A(l_attempt_id l \<mapsto> a')) (l_attempt_id m) = Some a'' \<and> (J(l_job_id l \<mapsto> j')) (l_job_id m) = Some j''
      \<and> bound m a'' j'' \<and> coupled m a'' j''" if "(L(i \<mapsto> l')) k = Some m" for k m
  proof (cases "k = i")
    case True
    then show ?thesis
      using that l' c by auto
  next
    case False
    then have m: "L k = Some m"
      using that by simp
    obtain am jm where am: "A (l_attempt_id m) = Some am" "J (l_job_id m) = Some jm" "bound m am jm" "coupled m am jm"
      using D(1) [OF m] by blast
    have na: "l_attempt_id m \<noteq> l_attempt_id l"
      using D(2) [OF m l] False by blast
    have nj: "l_job_id m = l_job_id l \<Longrightarrow> l_status m \<noteq> LeaseActive"
      using D(3) [OF m l] False act by blast
    have "bound m am (if l_job_id m = l_job_id l then j' else jm)"
      using am j j' bound_job_cong [OF am(3)] by auto
    moreover have "coupled m am (if l_job_id m = l_job_id l then j' else jm)"
      using am nj by (auto simp: coupled_def)
    ultimately show ?thesis
      using am na by auto
  qed
  show "k = k'" if "(L(i \<mapsto> l')) k = Some m" "(L(i \<mapsto> l')) k' = Some m'" "l_attempt_id m = l_attempt_id m'" for k k' m m'
    using that D(2) l l' by (auto split: if_splits)
  show "k = k'" if "(L(i \<mapsto> l')) k = Some m" "(L(i \<mapsto> l')) k' = Some m'" "l_job_id m = l_job_id m'"
      "l_status m = LeaseActive" "l_status m' = LeaseActive" for k k' m m'
    using that D(3) l l' act by (auto split: if_splits)
  show "\<exists>k m. (L(i \<mapsto> l')) k = Some m \<and> l_attempt_id m = x" if "(A(l_attempt_id l \<mapsto> a')) x = Some b" for x b
    using that D(4) [of x] a l l'(2) by (cases "x = l_attempt_id l") (auto, metis option.inject)
  show "\<exists>k m. (L(i \<mapsto> l')) k = Some m \<and> l_job_id m = x \<and> l_status m = LeaseActive"
    if "(J(l_job_id l \<mapsto> j')) x = Some jx" "held (j_status jx)" for x jx
  proof (cases "x = l_job_id l")
    case True
    then show ?thesis
      using that closed l' by (auto intro!: exI [of _ i])
  next
    case False
    then have "J x = Some jx"
      using that by simp
    then obtain k m where "L k = Some m" "l_job_id m = x" "l_status m = LeaseActive"
      using D(5) [of x jx] \<open>held (j_status jx)\<close> by blast
    then show ?thesis
      using False l by (intro exI [of _ k] exI [of _ m]) auto
  qed
qed

text \<open>A job that no lease holds changes, and stays unheld.\<close>

lemma auth_unheld_job:
  assumes ok: "auth_ok J A L" and j: "J x = Some j" and "\<not> held (j_status j)" and "\<not> held (j_status j')"
    and "j_scope j' = j_scope j" "j_queue j' = j_queue j"
  shows "auth_ok (J(x \<mapsto> j')) A L"
proof (rule auth_okI)
  note D = auth_okD [OF ok]
  show "\<exists>a j''. A (l_attempt_id m) = Some a \<and> (J(x \<mapsto> j')) (l_job_id m) = Some j'' \<and> bound m a j'' \<and> coupled m a j''"
    if m: "L k = Some m" for k m
  proof -
    obtain am jm where am: "A (l_attempt_id m) = Some am" "J (l_job_id m) = Some jm" "bound m am jm" "coupled m am jm"
      using D(1) [OF m] by blast
    have "l_job_id m = x \<Longrightarrow> l_status m \<noteq> LeaseActive"
      using auth_active_held [OF ok m] j assms(3) by auto
    then have "coupled m am (if l_job_id m = x then j' else jm)"
      using am by (auto simp: coupled_def)
    moreover have "bound m am (if l_job_id m = x then j' else jm)"
      using am j assms(5,6) bound_job_cong [OF am(3)] by auto
    ultimately show ?thesis
      using am by auto
  qed
  show "\<exists>k m. L k = Some m \<and> l_job_id m = y \<and> l_status m = LeaseActive"
    if "(J(x \<mapsto> j')) y = Some jy" "held (j_status jy)" for y jy
    using that assms(4) D(5) [of y jy] by (auto split: if_splits)
qed (use auth_okD(2-4) [OF ok] in blast)+

lemma auth_new_job:
  assumes ok: "auth_ok J A L" and "J x = None" and "\<not> held (j_status j)"
  shows "auth_ok (J(x \<mapsto> j)) A L"
proof (rule auth_okI)
  note D = auth_okD [OF ok]
  show "\<exists>a j'. A (l_attempt_id m) = Some a \<and> (J(x \<mapsto> j)) (l_job_id m) = Some j' \<and> bound m a j' \<and> coupled m a j'"
    if "L k = Some m" for k m
    using D(1) [OF that] assms(2) by (metis fun_upd_apply option.distinct(1))
  show "\<exists>k m. L k = Some m \<and> l_job_id m = y \<and> l_status m = LeaseActive"
    if "(J(x \<mapsto> j)) y = Some jy" "held (j_status jy)" for y jy
    using that assms(3) D(5) [of y jy] by (auto split: if_splits)
qed (use auth_okD(2-4) [OF ok] in blast)+

text \<open>A claim: a job that is not held gets a new attempt and a new lease.\<close>

lemma auth_claim:
  assumes ok: "auth_ok J A L" and j: "J x = Some j" and nh: "\<not> held (j_status j)"
    and nl: "L i = None" and na: "A y = None"
    and j': "j_status j' = StatusLeased" "j_scope j' = j_scope j" "j_queue j' = j_queue j"
    and l: "l_job_id l = x" "l_attempt_id l = y" "l_status l = LeaseActive"
    and a: "a_status a = AttemptLeased" and b: "bound l a j'"
  shows "auth_ok (J(x \<mapsto> j')) (A(y \<mapsto> a)) (L(i \<mapsto> l))"
proof (rule auth_okI)
  note D = auth_okD [OF ok]
  have fresh: "l_attempt_id m \<noteq> y" if "L k = Some m" for k m
    using D(1) [OF that] na by auto
  have noact: "l_job_id m = x \<Longrightarrow> l_status m \<noteq> LeaseActive" if "L k = Some m" for k m
    using auth_active_held [OF ok that] j nh by auto
  show "\<exists>a'' j''. (A(y \<mapsto> a)) (l_attempt_id m) = Some a'' \<and> (J(x \<mapsto> j')) (l_job_id m) = Some j''
      \<and> bound m a'' j'' \<and> coupled m a'' j''" if "(L(i \<mapsto> l)) k = Some m" for k m
  proof (cases "k = i")
    case True
    then show ?thesis
      using that l a b j' by (auto simp: coupled_def live_def)
  next
    case False
    then have m: "L k = Some m"
      using that by simp
    obtain am jm where am: "A (l_attempt_id m) = Some am" "J (l_job_id m) = Some jm" "bound m am jm" "coupled m am jm"
      using D(1) [OF m] by blast
    have "coupled m am (if l_job_id m = x then j' else jm)"
      using am noact [OF m] by (auto simp: coupled_def)
    moreover have "bound m am (if l_job_id m = x then j' else jm)"
      using am j j' bound_job_cong [OF am(3)] by auto
    ultimately show ?thesis
      using am fresh [OF m] by auto
  qed
  show "k = k'" if "(L(i \<mapsto> l)) k = Some m" "(L(i \<mapsto> l)) k' = Some m'" "l_attempt_id m = l_attempt_id m'" for k k' m m'
    using that D(2) fresh l by (auto split: if_splits)
  show "k = k'" if "(L(i \<mapsto> l)) k = Some m" "(L(i \<mapsto> l)) k' = Some m'" "l_job_id m = l_job_id m'"
      "l_status m = LeaseActive" "l_status m' = LeaseActive" for k k' m m'
    using that D(3) noact l by (auto split: if_splits)
  show "\<exists>k m. (L(i \<mapsto> l)) k = Some m \<and> l_attempt_id m = z" if "(A(y \<mapsto> a)) z = Some c" for z c
    using that D(4) [of z] l nl by (cases "z = y") (auto, metis option.distinct(1))
  show "\<exists>k m. (L(i \<mapsto> l)) k = Some m \<and> l_job_id m = z \<and> l_status m = LeaseActive"
    if "(J(x \<mapsto> j')) z = Some jz" "held (j_status jz)" for z jz
    using that D(5) [of z jz] l nl by (cases "z = x") (auto, metis option.distinct(1))
qed

end
