(* ===== verification/Transitions.thy ===== *)
theory Transitions
  imports Authority
begin

text \<open>
  The lifecycle as an abstract transition system on the database: what a committed transaction may do
  to the tables, without the guards and the answers of the operations. The refinement that every
  store operation performs one of these transitions or none is in the theory of refinement; the
  invariants are proved here once, over the transitions.
\<close>

section \<open>Row changes\<close>

definition start_attempt :: "ts \<Rightarrow> job_row \<Rightarrow> attempt_row \<Rightarrow> attempt_row" where
  "start_attempt now j a = a\<lparr> a_status := AttemptRunning, a_started_at := Some now,
     a_timeout_at := Some (add_dur now (j_timeout_seconds j * Second)) \<rparr>"

definition set_status :: "ts \<Rightarrow> Status \<Rightarrow> job_row \<Rightarrow> job_row" where
  "set_status now s j = j\<lparr> j_status := s, j_updated_at := now \<rparr>"

definition cancel_row :: "ts \<Rightarrow> Status \<Rightarrow> job_row \<Rightarrow> job_row" where
  "cancel_row now s j = j\<lparr> j_status := s, j_cancel_requested_at := Some now, j_updated_at := now \<rparr>"

definition succeed_attempt :: "ts \<Rightarrow> attempt_row \<Rightarrow> attempt_row" where
  "succeed_attempt now a = a\<lparr> a_status := AttemptSucceeded, a_finished_at := Some now \<rparr>"

definition renew_row :: "ts \<Rightarrow> ts \<Rightarrow> uuid \<Rightarrow> lease_row \<Rightarrow> lease_row" where
  "renew_row now expires rid l = l\<lparr> l_renewed_at := now, l_expires_at := expires,
     l_renewal_version := l_renewal_version l + 1, l_renewal_id := Some rid \<rparr>"

definition wait_row :: "ts \<Rightarrow> ts \<Rightarrow> job_row \<Rightarrow> job_row" where
  "wait_row now until j = j\<lparr> j_status := StatusRetryWait, j_updated_at := now, j_available_at := until \<rparr>"

text \<open>A lease in force with its attempt and its job.\<close>

definition live_triple :: "db \<Rightarrow> lease_row \<Rightarrow> attempt_row \<Rightarrow> job_row \<Rightarrow> bool" where
  "live_triple d l a j = (get_lease d (l_id l) = Some l \<and> l_status l = LeaseActive
     \<and> get_attempt d (l_attempt_id l) = Some a \<and> get_job d (l_job_id l) = Some j)"

definition finish_pre :: "db \<Rightarrow> lease_row \<Rightarrow> attempt_row \<Rightarrow> job_row \<Rightarrow> attemptOutcome \<Rightarrow> bool" where
  "finish_pre d l a j oc = (live_triple d l a j \<and> isExecutingJobStatus (j_status j)
     \<and> ao_status oc \<in> {AttemptFailed, AttemptTimedOut, AttemptAbandoned}
     \<and> (ao_status oc \<noteq> AttemptAbandoned \<longrightarrow> a_status a = AttemptRunning)
     \<and> ao_leaseStatus oc \<in> {LeaseReleased, LeaseExpired}
     \<and> \<not> outcome_id_taken (ao_outcomeRequestID oc) (a_id a) d)"

definition close_rows :: "attempt_row \<Rightarrow> lease_row \<Rightarrow> db \<Rightarrow> db" where
  "close_rows a' l' d = d\<lparr> db_attempts := put a_id a' (db_attempts d), db_leases := put l_id l' (db_leases d) \<rparr>"

definition new_job_ok :: "db \<Rightarrow> job_row \<Rightarrow> bool" where
  "new_job_ok d j = (get_job d (j_id j) = None \<and> get_queue d (j_queue j) \<noteq> None \<and> 1 \<le> j_max_attempts j
     \<and> 1 \<le> j_timeout_seconds j \<and> j_cancel_requested_at j = None
     \<and> (if j_status j = StatusQueued then j_generation j = 1 \<and> j_last_notification_at j \<noteq> None
        else j_status j = StatusPending \<and> j_generation j = 0 \<and> j_last_notification_at j = None
             \<and> j_scheduled_at j \<noteq> None))"

text \<open>Sessions may be added, refreshed or retired; a retired one is never current again.\<close>

definition limits_ok :: "session_row list \<Rightarrow> bool" where
  "limits_ok ss = (\<forall>s\<in>set ss. 1 \<le> s_concurrency_limit s \<and> s_concurrency_limit s \<le> MaxWorkerConcurrency)"

definition one_current :: "session_row list \<Rightarrow> bool" where
  "one_current ss = (\<forall>s\<in>set ss. \<forall>t\<in>set ss. isCurrentSessionStatus (s_status s) \<and> isCurrentSessionStatus (s_status t)
     \<and> s_worker_id s = s_worker_id t \<longrightarrow> s_id s = s_id t)"

definition session_kept :: "session_row \<Rightarrow> session_row \<Rightarrow> bool" where
  "session_kept s s' = (s_worker_id s' = s_worker_id s \<and> s_scope s' = s_scope s
     \<and> s_concurrency_limit s' = s_concurrency_limit s \<and> s_worker_group s' = s_worker_group s
     \<and> s_worker_key_id s' = s_worker_key_id s \<and> s_last_heartbeat_at s \<le> s_last_heartbeat_at s'
     \<and> (isCurrentSessionStatus (s_status s') \<longrightarrow> s_status s' = s_status s)
     \<and> (\<not> isCurrentSessionStatus (s_status s) \<longrightarrow> s' = s))"

definition sessions_evolve :: "session_row list \<Rightarrow> session_row list \<Rightarrow> bool" where
  "sessions_evolve ss ss' = ((keys_distinct s_id ss \<longrightarrow> keys_distinct s_id ss')
     \<and> (\<forall>i s. lookup s_id ss i = Some s \<longrightarrow> (\<exists>s'. lookup s_id ss' i = Some s' \<and> session_kept s s'))
     \<and> (limits_ok ss \<longrightarrow> limits_ok ss') \<and> (one_current ss \<longrightarrow> one_current ss'))"

text \<open>Publication keeps every event and never makes a published one pending.\<close>

definition events_evolve :: "(event_row \<Rightarrow> event_row) \<Rightarrow> bool" where
  "events_evolve g = (\<forall>e. e_id (g e) = e_id e \<and> e_job_id (g e) = e_job_id e \<and> e_generation (g e) = e_generation e
     \<and> (e_status (g e) = EventPending \<longrightarrow> e_status e = EventPending))"

section \<open>Transitions\<close>

inductive moves :: "db \<Rightarrow> db \<Rightarrow> bool" where
  T_sessions: "sessions_evolve (db_sessions d) ss \<Longrightarrow> moves d (d\<lparr> db_workers := ws, db_sessions := ss \<rparr>)"
| T_events: "events_evolve g \<Longrightarrow> moves d (d\<lparr> db_outbox := map g (db_outbox d) \<rparr>)"
| T_submit: "new_job_ok d j \<Longrightarrow> find_idempotency (j_scope j) key d = None \<Longrightarrow> j_replayed_from j = None
    \<Longrightarrow> es = (if j_status j = StatusQueued then [work_available t eid (j_id j) (j_queue j) 1 tr] else [])
    \<Longrightarrow> (j_status j = StatusQueued \<longrightarrow> get_event d eid = None)
    \<Longrightarrow> moves d (d\<lparr> db_jobs := db_jobs d @ [j],
          db_idempotency := db_idempotency d @ [\<lparr> i_scope = j_scope j, i_key = key, i_fingerprint = fp, i_job_id = j_id j \<rparr>],
          db_outbox := db_outbox d @ es \<rparr>)"
| T_replay: "get_job d x = Some orig \<Longrightarrow> j_status orig = StatusDeadLettered
    \<Longrightarrow> j = replacement_job now jid (j_scope orig) orig \<Longrightarrow> new_job_ok d j
    \<Longrightarrow> find_replay (j_scope orig) x key d = None \<Longrightarrow> get_event d eid = None
    \<Longrightarrow> moves d (d\<lparr> db_jobs := db_jobs d @ [j],
          db_replays := db_replays d @ [\<lparr> p_scope = j_scope orig, p_original = x, p_key = key, p_replacement = jid \<rparr>],
          db_outbox := db_outbox d @ [work_available t eid jid (j_queue j) 1 None] \<rparr>)"
| T_cancel_idle: "get_job d x = Some j \<Longrightarrow> j_status j \<in> {StatusPending, StatusQueued, StatusRetryWait}
    \<Longrightarrow> moves d (d\<lparr> db_jobs := put j_id (cancel_row now StatusCanceled j) (db_jobs d) \<rparr>)"
| T_cancel_held: "get_job d x = Some j \<Longrightarrow> isExecutingJobStatus (j_status j)
    \<Longrightarrow> moves d (d\<lparr> db_jobs := put j_id (cancel_row now StatusCancelRequested j) (db_jobs d) \<rparr>)"
| T_promote: "get_job d x = Some j \<Longrightarrow> j_status j \<in> {StatusPending, StatusRetryWait} \<Longrightarrow> j_available_at j \<le> now
    \<Longrightarrow> get_event d eid = None
    \<Longrightarrow> moves d (d\<lparr> db_jobs := put j_id (promote_row now j) (db_jobs d),
          db_outbox := db_outbox d @ [work_available t eid x (j_queue j) (j_generation j + 1) None] \<rparr>)"
| T_renotify: "get_job d x = Some j \<Longrightarrow> j_status j = StatusQueued \<Longrightarrow> 1 \<le> j_generation j
    \<Longrightarrow> j_last_notification_at j \<noteq> None
    \<Longrightarrow> \<not> HasPendingWorkAvailableTx x (j_generation j) d \<Longrightarrow> get_event d eid = None
    \<Longrightarrow> moves d (d\<lparr> db_jobs := put j_id (j\<lparr> j_last_notification_at := Some now \<rparr>) (db_jobs d),
          db_outbox := db_outbox d @ [work_available t eid x (j_queue j) (j_generation j) None] \<rparr>)"
| T_claim: "get_job d (j_id j) = Some j \<Longrightarrow> j_status j = StatusQueued \<Longrightarrow> j_scope j = scope
    \<Longrightarrow> int (length (attempts_of d (j_id j))) < j_max_attempts j
    \<Longrightarrow> get_queue d (j_queue j) = Some q \<Longrightarrow> int (active_for_queue d (j_queue j)) < q_max_concurrency q
    \<Longrightarrow> get_session d (cr_SessionID req) = Some s \<Longrightarrow> s_worker_id s = cr_WorkerID req \<Longrightarrow> s_scope s = scope
    \<Longrightarrow> int (active_for_worker d (cr_WorkerID req)) < s_concurrency_limit s
    \<Longrightarrow> get_attempt d aid = None \<Longrightarrow> get_lease d lid = None
    \<Longrightarrow> \<forall>l\<in>set (db_leases d). l_claim_request_id l \<noteq> cr_ClaimRequestID req \<and> l_attempt_id l \<noteq> aid
    \<Longrightarrow> a = new_attempt t0 aid scope req j (next_attempt_number d (j_id j))
    \<Longrightarrow> l = new_lease now dur lid aid scope req j \<Longrightarrow> now < add_dur now dur
    \<Longrightarrow> moves d (d\<lparr> db_attempts := db_attempts d @ [a], db_leases := db_leases d @ [l],
          db_jobs := put j_id (set_status now StatusLeased j) (db_jobs d) \<rparr>)"
| T_start: "live_triple d l a j \<Longrightarrow> j_status j = StatusLeased \<Longrightarrow> a_status a = AttemptLeased
    \<Longrightarrow> moves d (d\<lparr> db_attempts := put a_id (start_attempt now j a) (db_attempts d),
          db_jobs := put j_id (set_status now StatusRunning j) (db_jobs d) \<rparr>)"
| T_succeed: "live_triple d l a j \<Longrightarrow> j_status j = StatusRunning \<Longrightarrow> a_status a = AttemptRunning
    \<Longrightarrow> rs = [] \<or> (\<exists>r. rs = [r] \<and> r_job_id r = j_id j \<and> r_attempt_id r = a_id a \<and> r_scope r = j_scope j
          \<and> lookup r_job_id (db_results d) (j_id j) = None)
    \<Longrightarrow> moves d ((close_rows (succeed_attempt now a) (release_lease now LeaseCompleted l) d)
          \<lparr> db_jobs := put j_id (set_status now StatusSucceeded j) (db_jobs d), db_results := db_results d @ rs \<rparr>)"
| T_renew: "live_triple d l a j \<Longrightarrow> isExecutingJobStatus (j_status j) \<Longrightarrow> now < l_expires_at l \<Longrightarrow> now < expires
    \<Longrightarrow> moves d (d\<lparr> db_leases := put l_id (renew_row now expires rid l) (db_leases d) \<rparr>)"
| T_retry: "finish_pre d l a j oc \<Longrightarrow> a_number a < j_max_attempts j \<Longrightarrow> 0 < ms
    \<Longrightarrow> ra = add_dur now (ms * Millisecond)
    \<Longrightarrow> moves d ((close_rows (finish_attempt now oc (Some ms) (Some ra) a) (release_lease now (ao_leaseStatus oc) l) d)
          \<lparr> db_jobs := put j_id (wait_row now ra j) (db_jobs d) \<rparr>)"
| T_requeue: "finish_pre d l a j oc \<Longrightarrow> a_number a < j_max_attempts j \<Longrightarrow> get_event d eid = None
    \<Longrightarrow> moves d ((close_rows (finish_attempt now oc (Some 0) (Some now) a) (release_lease now (ao_leaseStatus oc) l) d)
          \<lparr> db_jobs := put j_id (requeue_row now j) (db_jobs d),
            db_outbox := db_outbox d @ [work_available t eid (j_id j) (j_queue j) (j_generation j + 1) None] \<rparr>)"
| T_dead: "finish_pre d l a j oc \<Longrightarrow> DLQReason_Valid reason
    \<Longrightarrow> (reason = ReasonAttemptsExhausted \<longrightarrow> j_max_attempts j \<le> a_number a)
    \<Longrightarrow> lookup d_id (db_dlq d) did = None \<Longrightarrow> lookup d_job_id (db_dlq d) (j_id j) = None
    \<Longrightarrow> moves d ((close_rows (finish_attempt now oc None None a) (release_lease now (ao_leaseStatus oc) l) d)
          \<lparr> db_jobs := put j_id (set_status now StatusDeadLettered j) (db_jobs d),
            db_dlq := db_dlq d @ [\<lparr> d_id = did, d_scope = j_scope j, d_queue = j_queue j, d_job_id = j_id j,
              d_attempt_id = Some (a_id a), d_reason = reason, d_created_at = now \<rparr>] \<rparr>)"
| T_cancel_finish: "live_triple d l a j \<Longrightarrow> j_status j = StatusCancelRequested
    \<Longrightarrow> ls \<in> {LeaseReleased, LeaseExpired} \<Longrightarrow> \<not> outcome_id_taken oid (a_id a) d
    \<Longrightarrow> moves d ((close_rows (cancel_attempt now oid a) (release_lease now ls l) d)
          \<lparr> db_jobs := put j_id (set_status now StatusCanceled j) (db_jobs d) \<rparr>)"

end
