(* ===== verification/Invariant.thy ===== *)
theory Invariant
  imports Transitions
begin

text \<open>
  The invariant of the database, one predicate per concern, and its preservation by every lifecycle
  transition. The predicates include the CHECK, UNIQUE and foreign-key constraints of the schema the
  operations rely on.
\<close>

lemma live_tripleD:
  assumes "live_triple d l a j"
  shows "get_lease d (l_id l) = Some l" "l_status l = LeaseActive" "get_attempt d (a_id a) = Some a"
    "get_job d (j_id j) = Some j" "a_id a = l_attempt_id l" "j_id j = l_job_id l"
proof -
  have t: "get_lease d (l_id l) = Some l" "l_status l = LeaseActive"
    "get_attempt d (l_attempt_id l) = Some a" "get_job d (l_job_id l) = Some j"
    using assms by (simp_all add: live_triple_def)
  moreover have "a_id a = l_attempt_id l" "j_id j = l_job_id l"
    using t by (auto dest: lookup_key)
  ultimately show "get_lease d (l_id l) = Some l" "l_status l = LeaseActive" "get_attempt d (a_id a) = Some a"
    "get_job d (j_id j) = Some j" "a_id a = l_attempt_id l" "j_id j = l_job_id l"
    by simp_all
qed

section \<open>Keys\<close>

definition keys_ok :: "db \<Rightarrow> bool" where
  "keys_ok d = (keys_distinct j_id (db_jobs d) \<and> keys_distinct a_id (db_attempts d)
     \<and> keys_distinct l_id (db_leases d) \<and> keys_distinct s_id (db_sessions d)
     \<and> keys_distinct e_id (db_outbox d) \<and> keys_distinct r_job_id (db_results d)
     \<and> keys_distinct d_job_id (db_dlq d))"

lemma keys_ok_moves:
  assumes "moves d d'" and "keys_ok d"
  shows "keys_ok d'"
  using assms
proof cases
  case (T_events g)
  then have "e_id \<circ> g = e_id"
    by (auto simp: events_evolve_def)
  then show ?thesis
    using T_events assms(2) by (simp add: keys_ok_def)
next
  case (T_claim j scope q req s aid lid a t0 l now dur)
  then show ?thesis
    using assms(2) by (simp add: keys_ok_def map_key_put keys_distinct_insert lookup_None_iff new_attempt_def new_lease_def)
next
  case (T_succeed l a j rs now)
  then show ?thesis
    using assms(2) by (force simp: keys_ok_def map_key_put close_rows_def lookup_None_iff)
qed (auto simp: keys_ok_def map_key_put close_rows_def sessions_evolve_def new_job_ok_def lookup_None_iff
    work_available_def replacement_job_def split: if_splits)

section \<open>Authority\<close>

abbreviation auth_db :: "db \<Rightarrow> bool" where
  "auth_db d \<equiv> auth_ok (get_job d) (get_attempt d) (get_lease d)"

lemma get_put_job: "get_job d (j_id j) = Some j0 \<Longrightarrow> lookup j_id (put j_id j (db_jobs d)) = (get_job d)(j_id j \<mapsto> j)"
  by (simp add: lookup_put)

text \<open>The change of a live triple on the tables.\<close>

lemma auth_close:
  assumes ok: "auth_db d" and t: "live_triple d l a j"
    and "l_id l' = l_id l" "a_id a' = a_id a" "j_id j' = j_id j"
    and "same_binding l l' a a' j j'" and "coupled l' a' j'"
    and "l_status l' \<noteq> LeaseActive \<Longrightarrow> \<not> held (j_status j')"
  shows "auth_ok (lookup j_id (put j_id j' (db_jobs d))) (lookup a_id (put a_id a' (db_attempts d)))
    (lookup l_id (put l_id l' (db_leases d)))"
proof -
  note T = live_tripleD [OF t]
  have "lookup j_id (put j_id j' (db_jobs d)) = (get_job d)(l_job_id l \<mapsto> j')"
    "lookup a_id (put a_id a' (db_attempts d)) = (get_attempt d)(l_attempt_id l \<mapsto> a')"
    "lookup l_id (put l_id l' (db_leases d)) = (get_lease d)(l_id l \<mapsto> l')"
    using T assms(3-5) by (simp_all add: lookup_put)
  moreover have "auth_ok ((get_job d)(l_job_id l \<mapsto> j')) ((get_attempt d)(l_attempt_id l \<mapsto> a')) ((get_lease d)(l_id l \<mapsto> l'))"
    using T t assms(6-8) by (intro auth_triple [OF ok]) (auto simp: live_triple_def)
  ultimately show ?thesis
    by simp
qed

lemma put_same: "keys_distinct key t \<Longrightarrow> lookup key t (key r) = Some r \<Longrightarrow> put key r t = t"
  by (induction t) (auto simp: put_def lookup_Cons image_iff intro!: map_idI split: if_splits)

lemmas row_defs = start_attempt_def set_status_def cancel_row_def succeed_attempt_def renew_row_def wait_row_def
  finish_attempt_def release_lease_def cancel_attempt_def requeue_row_def promote_row_def

lemma auth_moves:
  assumes "moves d d'" and ok: "auth_db d" and k: "keys_ok d"
  shows "auth_db d'"
  using assms(1)
proof cases
  case (T_submit j key es t eid tr fp)
  then show ?thesis
    using auth_new_job [OF ok] by (auto simp: new_job_ok_def lookup_insert held_def split: if_splits)
next
  case (T_replay x orig j now jid key eid t)
  then show ?thesis
    using auth_new_job [OF ok] by (auto simp: new_job_ok_def lookup_insert held_def replacement_job_def split: if_splits)
next
  case (T_cancel_idle x j now)
  then have "j_id j = x"
    by (auto dest: lookup_key)
  then show ?thesis
    using T_cancel_idle auth_unheld_job [OF ok] by (auto simp: lookup_put held_def row_defs)
next
  case (T_cancel_held x j now)
  have x: "j_id j = x"
    using T_cancel_held by (auto dest: lookup_key)
  obtain i l where l: "get_lease d i = Some l" "l_job_id l = x" "l_status l = LeaseActive"
    using auth_okD(5) [OF ok, of x j] T_cancel_held by (auto simp: held_def isExecutingJobStatus_def)
  obtain a where a: "get_attempt d (l_attempt_id l) = Some a" "bound l a j" "coupled l a j"
    using auth_okD(1) [OF ok l(1)] l T_cancel_held by auto
  have i: "l_id l = i" and ai: "a_id a = l_attempt_id l"
    using l a by (auto dest: lookup_key)
  have t: "live_triple d l a j"
    using l a i T_cancel_held by (simp add: live_triple_def)
  let ?j = "cancel_row now StatusCancelRequested j"
  have "auth_ok (lookup j_id (put j_id ?j (db_jobs d))) (lookup a_id (put a_id a (db_attempts d)))
    (lookup l_id (put l_id l (db_leases d)))"
    using a l by (intro auth_close [OF ok t])
      (auto simp: same_binding_def bound_def row_defs coupled_def live_def isExecutingAttemptStatus_def)
  then show ?thesis
    using T_cancel_held k live_tripleD [OF t] by (simp add: keys_ok_def put_same)
next
  case (T_promote x j now eid t)
  then have "j_id j = x"
    by (auto dest: lookup_key)
  then show ?thesis
    using T_promote auth_unheld_job [OF ok] by (auto simp: lookup_put held_def row_defs)
next
  case (T_renotify x j eid t now)
  then have "j_id j = x"
    by (auto dest: lookup_key)
  then show ?thesis
    using T_renotify auth_unheld_job [OF ok] by (auto simp: lookup_put held_def row_defs)
next
  case (T_claim j scope q req s aid lid a t0 l now dur)
  have "auth_ok ((get_job d)(j_id j \<mapsto> set_status now StatusLeased j)) ((get_attempt d)(aid \<mapsto> a)) ((get_lease d)(lid \<mapsto> l))"
    using T_claim by (intro auth_claim [OF ok]) (auto simp: held_def row_defs bound_def new_attempt_def new_lease_def)
  then show ?thesis
    using T_claim by (simp add: lookup_put lookup_insert set_status_def new_attempt_def new_lease_def)
next
  case (T_start l a j now)
  have "auth_ok (lookup j_id (put j_id (set_status now StatusRunning j) (db_jobs d)))
      (lookup a_id (put a_id (start_attempt now j a) (db_attempts d))) (lookup l_id (put l_id l (db_leases d)))"
    using T_start by (intro auth_close [OF ok T_start(2)])
      (auto simp: same_binding_def bound_def row_defs coupled_def live_def live_triple_def)
  then show ?thesis
    using T_start k live_tripleD [OF T_start(2)] by (simp add: keys_ok_def put_same)
next
  case (T_succeed l a j rs now)
  then show ?thesis
    using auth_close [OF ok T_succeed(2), of "release_lease now LeaseCompleted l" "succeed_attempt now a"
        "set_status now StatusSucceeded j"]
    by (simp add: same_binding_def bound_def row_defs coupled_def isExecutingAttemptStatus_def held_def close_rows_def)
next
  case (T_renew l a j now expires rid)
  have "coupled l a j"
    using auth_okD(1) [OF ok] T_renew by (fastforce simp: live_triple_def)
  then have "auth_ok (lookup j_id (put j_id j (db_jobs d))) (lookup a_id (put a_id a (db_attempts d)))
      (lookup l_id (put l_id (renew_row now expires rid l) (db_leases d)))"
    using T_renew by (intro auth_close [OF ok T_renew(2)])
      (auto simp: same_binding_def bound_def row_defs coupled_def live_triple_def)
  then show ?thesis
    using T_renew k live_tripleD [OF T_renew(2)] by (simp add: keys_ok_def put_same)
next
  case (T_retry l a j oc ms ra now)
  then have "live_triple d l a j"
    by (simp add: finish_pre_def)
  then show ?thesis
    using auth_close [OF ok, of l a j "release_lease now (ao_leaseStatus oc) l"
        "finish_attempt now oc (Some ms) (Some ra) a" "wait_row now ra j"] T_retry
    by (auto simp: same_binding_def bound_def row_defs coupled_def isExecutingAttemptStatus_def held_def close_rows_def finish_pre_def)
next
  case (T_requeue l a j oc eid t now)
  then have "live_triple d l a j"
    by (simp add: finish_pre_def)
  then show ?thesis
    using auth_close [OF ok, of l a j "release_lease now (ao_leaseStatus oc) l"
        "finish_attempt now oc (Some 0) (Some now) a" "requeue_row now j"] T_requeue
    by (auto simp: same_binding_def bound_def row_defs coupled_def isExecutingAttemptStatus_def held_def close_rows_def finish_pre_def)
next
  case (T_dead l a j oc reason did now)
  then have "live_triple d l a j"
    by (simp add: finish_pre_def)
  then show ?thesis
    using auth_close [OF ok, of l a j "release_lease now (ao_leaseStatus oc) l"
        "finish_attempt now oc None None a" "set_status now StatusDeadLettered j"] T_dead
    by (auto simp: same_binding_def bound_def row_defs coupled_def isExecutingAttemptStatus_def held_def close_rows_def finish_pre_def)
next
  case (T_cancel_finish l a j ls oid now)
  then show ?thesis
    using auth_close [OF ok T_cancel_finish(2), of "release_lease now ls l" "cancel_attempt now oid a"
        "set_status now StatusCanceled j"]
    by (auto simp: same_binding_def bound_def row_defs coupled_def isExecutingAttemptStatus_def held_def close_rows_def)
qed (use ok in simp_all)

section \<open>The evolution of single rows\<close>

text \<open>
  The state machine of one job row, of one attempt row and of one lease row. Every transition of the
  database moves each existing row along one of these edges or leaves it alone.
\<close>

inductive job_step :: "job_row \<Rightarrow> job_row \<Rightarrow> bool" where
  J_cancel: "j_status j \<in> {StatusPending, StatusQueued, StatusRetryWait} \<Longrightarrow> job_step j (cancel_row now StatusCanceled j)"
| J_request: "isExecutingJobStatus (j_status j) \<Longrightarrow> job_step j (cancel_row now StatusCancelRequested j)"
| J_promote: "j_status j \<in> {StatusPending, StatusRetryWait} \<Longrightarrow> j_available_at j \<le> now \<Longrightarrow> job_step j (promote_row now j)"
| J_renotify: "j_status j = StatusQueued \<Longrightarrow> 1 \<le> j_generation j \<Longrightarrow> j_last_notification_at j \<noteq> None
    \<Longrightarrow> job_step j (j\<lparr> j_last_notification_at := Some now \<rparr>)"
| J_lease: "j_status j = StatusQueued \<Longrightarrow> job_step j (set_status now StatusLeased j)"
| J_start: "j_status j = StatusLeased \<Longrightarrow> job_step j (set_status now StatusRunning j)"
| J_succeed: "j_status j = StatusRunning \<Longrightarrow> job_step j (set_status now StatusSucceeded j)"
| J_wait: "isExecutingJobStatus (j_status j) \<Longrightarrow> job_step j (wait_row now until j)"
| J_requeue: "isExecutingJobStatus (j_status j) \<Longrightarrow> job_step j (requeue_row now j)"
| J_dead: "isExecutingJobStatus (j_status j) \<Longrightarrow> job_step j (set_status now StatusDeadLettered j)"
| J_canceled: "j_status j = StatusCancelRequested \<Longrightarrow> job_step j (set_status now StatusCanceled j)"

inductive attempt_step :: "attempt_row \<Rightarrow> attempt_row \<Rightarrow> bool" where
  A_start: "a_status a = AttemptLeased \<Longrightarrow> attempt_step a (start_attempt now j a)"
| A_succeed: "a_status a = AttemptRunning \<Longrightarrow> attempt_step a (succeed_attempt now a)"
| A_finish: "isExecutingAttemptStatus (a_status a) \<Longrightarrow> ao_status oc \<in> {AttemptFailed, AttemptTimedOut, AttemptAbandoned}
    \<Longrightarrow> (ao_status oc \<noteq> AttemptAbandoned \<longrightarrow> a_status a = AttemptRunning)
    \<Longrightarrow> (ms = None \<longleftrightarrow> ra = None) \<Longrightarrow> (\<forall>m. ms = Some m \<longrightarrow> 0 \<le> m) \<Longrightarrow> attempt_step a (finish_attempt now oc ms ra a)"
| A_cancel: "isExecutingAttemptStatus (a_status a) \<Longrightarrow> attempt_step a (cancel_attempt now oid a)"

inductive lease_step :: "lease_row \<Rightarrow> lease_row \<Rightarrow> bool" where
  L_renew: "l_status l = LeaseActive \<Longrightarrow> now < l_expires_at l \<Longrightarrow> now < expires
    \<Longrightarrow> lease_step l (renew_row now expires rid l)"
| L_release: "l_status l = LeaseActive \<Longrightarrow> s \<noteq> LeaseActive \<Longrightarrow> lease_step l (release_lease now s l)"

lemma put_job_step:
  assumes "get_job d x = Some j" and "get_job d (j_id j0) = Some j0" and "j_id j1 = j_id j0" and "job_step j0 j1"
  shows "\<exists>j'. lookup j_id (put j_id j1 (db_jobs d)) x = Some j' \<and> job_step\<^sup>=\<^sup>= j j'"
  using assms by (cases "x = j_id j0") (auto simp: lookup_put_apply)

lemma put_attempt_step:
  assumes "get_attempt d x = Some a" and "get_attempt d (a_id a0) = Some a0" and "a_id a1 = a_id a0" and "attempt_step a0 a1"
  shows "\<exists>a'. lookup a_id (put a_id a1 (db_attempts d)) x = Some a' \<and> attempt_step\<^sup>=\<^sup>= a a'"
  using assms by (cases "x = a_id a0") (auto simp: lookup_put_apply)

lemma put_lease_step:
  assumes "get_lease d x = Some l" and "get_lease d (l_id l0) = Some l0" and "l_id l1 = l_id l0" and "lease_step l0 l1"
  shows "\<exists>l'. lookup l_id (put l_id l1 (db_leases d)) x = Some l' \<and> lease_step\<^sup>=\<^sup>= l l'"
  using assms by (cases "x = l_id l0") (auto simp: lookup_put_apply)

lemma row_ids [simp]:
  "j_id (set_status now s j) = j_id j" "j_id (cancel_row now s j) = j_id j" "j_id (wait_row now u j) = j_id j"
  "j_id (requeue_row now j) = j_id j" "j_id (promote_row now j) = j_id j"
  "a_id (start_attempt now j a) = a_id a" "a_id (succeed_attempt now a) = a_id a"
  "a_id (finish_attempt now oc ms ra a) = a_id a" "a_id (cancel_attempt now oid a) = a_id a"
  "l_id (renew_row now e rid l) = l_id l" "l_id (release_lease now ls l) = l_id l"
  by (simp_all add: row_defs)

lemma finish_preD: "finish_pre d l a j oc \<Longrightarrow> live_triple d l a j \<and> isExecutingJobStatus (j_status j)
    \<and> ao_status oc \<in> {AttemptFailed, AttemptTimedOut, AttemptAbandoned}
    \<and> (ao_status oc \<noteq> AttemptAbandoned \<longrightarrow> a_status a = AttemptRunning)
    \<and> ao_leaseStatus oc \<noteq> LeaseActive \<and> \<not> outcome_id_taken (ao_outcomeRequestID oc) (a_id a) d"
  by (auto simp: finish_pre_def)

lemma moves_job:
  assumes "moves d d'" and "get_job d x = Some j"
  shows "\<exists>j'. get_job d' x = Some j' \<and> job_step\<^sup>=\<^sup>= j j'"
  using assms(1)
proof cases
  case (T_cancel_idle y k now)
  then show ?thesis
    using put_job_step [OF assms(2), of k] J_cancel [of k] lookup_key by fastforce
next
  case (T_cancel_held y k now)
  then show ?thesis
    using put_job_step [OF assms(2), of k] J_request [of k] lookup_key by fastforce
next
  case (T_promote y k now eid t)
  then show ?thesis
    using put_job_step [OF assms(2), of k] J_promote [of k] lookup_key by fastforce
next
  case (T_renotify y k eid t now)
  then show ?thesis
    using put_job_step [OF assms(2), of k] J_renotify [of k] lookup_key by fastforce
next
  case (T_claim k scope q req s aid lid a t0 l now dur)
  then show ?thesis
    using put_job_step [OF assms(2), of k] J_lease [of k] by simp
next
  case (T_start l a k now)
  then show ?thesis
    using put_job_step [OF assms(2), of k] J_start [of k] live_tripleD [of d l a k] by simp
next
  case (T_succeed l a k rs now)
  then show ?thesis
    using put_job_step [OF assms(2), of k] J_succeed [of k] live_tripleD [of d l a k] by (simp add: close_rows_def)
next
  case (T_retry l a k oc ms ra now)
  then show ?thesis
    using put_job_step [OF assms(2), of k] J_wait [of k] finish_preD [of d l a k oc] live_tripleD [of d l a k]
    by (simp add: close_rows_def)
next
  case (T_requeue l a k oc eid t now)
  then show ?thesis
    using put_job_step [OF assms(2), of k] J_requeue [of k] finish_preD [of d l a k oc] live_tripleD [of d l a k]
    by (simp add: close_rows_def)
next
  case (T_dead l a k oc reason did now)
  then show ?thesis
    using put_job_step [OF assms(2), of k] J_dead [of k] finish_preD [of d l a k oc] live_tripleD [of d l a k]
    by (simp add: close_rows_def)
next
  case (T_cancel_finish l a k ls oid now)
  then show ?thesis
    using put_job_step [OF assms(2), of k] J_canceled [of k] live_tripleD [of d l a k] by (simp add: close_rows_def)
qed (use assms(2) in \<open>simp_all add: lookup_append close_rows_def\<close>)

lemma live_triple_executing:
  assumes "auth_db d" and "live_triple d l a j"
  shows "live (j_status j) (a_status a)" "isExecutingAttemptStatus (a_status a)" "bound l a j"
proof -
  have "coupled l a j" "bound l a j" "l_status l = LeaseActive"
    using auth_okD(1) [OF assms(1)] assms(2) by (fastforce simp: live_triple_def)+
  then show "live (j_status j) (a_status a)" "isExecutingAttemptStatus (a_status a)" "bound l a j"
    using live_held by (auto simp: coupled_def)
qed

lemma moves_attempt:
  assumes "moves d d'" and ok: "auth_db d" and "get_attempt d x = Some a"
  shows "\<exists>a'. get_attempt d' x = Some a' \<and> attempt_step\<^sup>=\<^sup>= a a'"
  using assms(1)
proof cases
  case (T_start l b k now)
  then show ?thesis
    using put_attempt_step [OF assms(3), of b] A_start [of b] live_tripleD [of d l b k] by simp
next
  case (T_succeed l b k rs now)
  then show ?thesis
    using put_attempt_step [OF assms(3), of b] A_succeed [of b] live_tripleD [of d l b k] by (simp add: close_rows_def)
next
  case (T_retry l b k oc ms ra now)
  then show ?thesis
    using put_attempt_step [OF assms(3), of b] A_finish [of b oc "Some ms" "Some ra"] finish_preD [of d l b k oc]
      live_tripleD [of d l b k] live_triple_executing [OF ok, of l b k]
    by (simp add: close_rows_def)
next
  case (T_requeue l b k oc eid t now)
  then show ?thesis
    using put_attempt_step [OF assms(3), of b] A_finish [of b oc "Some 0" "Some now"] finish_preD [of d l b k oc]
      live_tripleD [of d l b k] live_triple_executing [OF ok, of l b k]
    by (simp add: close_rows_def)
next
  case (T_dead l b k oc reason did now)
  then show ?thesis
    using put_attempt_step [OF assms(3), of b] A_finish [of b oc None None] finish_preD [of d l b k oc]
      live_tripleD [of d l b k] live_triple_executing [OF ok, of l b k]
    by (simp add: close_rows_def)
next
  case (T_cancel_finish l b k ls oid now)
  then show ?thesis
    using put_attempt_step [OF assms(3), of b] A_cancel [of b] live_tripleD [of d l b k]
      live_triple_executing [OF ok, of l b k] by (simp add: close_rows_def)
qed (use assms(3) in \<open>simp_all add: lookup_append close_rows_def\<close>)

lemma moves_lease:
  assumes "moves d d'" and "get_lease d x = Some l"
  shows "\<exists>l'. get_lease d' x = Some l' \<and> lease_step\<^sup>=\<^sup>= l l'"
  using assms(1)
proof cases
  case (T_succeed m b k rs now)
  then show ?thesis
    using put_lease_step [OF assms(2), of m] L_release [of m LeaseCompleted] live_tripleD [of d m b k]
    by (simp add: close_rows_def)
next
  case (T_renew m b k now expires rid)
  then show ?thesis
    using put_lease_step [OF assms(2), of m] L_renew [of m now expires] live_tripleD [of d m b k] by simp
next
  case (T_retry m b k oc ms ra now)
  then show ?thesis
    using put_lease_step [OF assms(2), of m] L_release [of m "ao_leaseStatus oc"] finish_preD [of d m b k oc]
      live_tripleD [of d m b k] by (simp add: close_rows_def)
next
  case (T_requeue m b k oc eid t now)
  then show ?thesis
    using put_lease_step [OF assms(2), of m] L_release [of m "ao_leaseStatus oc"] finish_preD [of d m b k oc]
      live_tripleD [of d m b k] by (simp add: close_rows_def)
next
  case (T_dead m b k oc reason did now)
  then show ?thesis
    using put_lease_step [OF assms(2), of m] L_release [of m "ao_leaseStatus oc"] finish_preD [of d m b k oc]
      live_tripleD [of d m b k] by (simp add: close_rows_def)
next
  case (T_cancel_finish m b k ls oid now)
  then show ?thesis
    using put_lease_step [OF assms(2), of m] L_release [of m ls] live_tripleD [of d m b k] by (auto simp: close_rows_def)
qed (use assms(2) in \<open>simp_all add: lookup_append close_rows_def\<close>)

text \<open>Rows that appear.\<close>

lemma moves_new_job:
  assumes "moves d d'" and "get_job d x = None" and "get_job d' x = Some j"
  shows "new_job_ok d j \<and> j_id j = x"
  using assms by cases (auto simp: lookup_append lookup_put_apply close_rows_def split: if_splits)

lemma moves_new_attempt:
  assumes "moves d d'" and "get_attempt d x = None" and "get_attempt d' x = Some a"
  shows "\<exists>t0 scope req j. a = new_attempt t0 x scope req j (next_attempt_number d (j_id j))"
  using assms by cases (auto simp: lookup_append lookup_put_apply close_rows_def new_attempt_def split: if_splits)

lemma moves_new_lease:
  assumes "moves d d'" and "get_lease d x = None" and "get_lease d' x = Some l"
  shows "l_id l = x \<and> l_status l = LeaseActive \<and> l_released_at l = None \<and> l_renewed_at l < l_expires_at l
    \<and> l_renewal_version l = 0 \<and> l_renewal_id l = None"
  using assms by cases (auto simp: lookup_append lookup_put_apply close_rows_def new_lease_def split: if_splits)

section \<open>Row invariants\<close>

text \<open>The CHECK constraints on one job, one attempt and one lease.\<close>

definition job_ok :: "job_row \<Rightarrow> bool" where
  "job_ok j = ((j_cancel_requested_at j \<noteq> None) = (j_status j \<in> {StatusCancelRequested, StatusCanceled})
     \<and> 0 \<le> j_generation j \<and> (j_generation j = 0) = (j_last_notification_at j = None)
     \<and> (j_status j = StatusQueued \<longrightarrow> 1 \<le> j_generation j)
     \<and> (j_status j = StatusPending \<longrightarrow> j_scheduled_at j \<noteq> None)
     \<and> 1 \<le> j_max_attempts j \<and> 1 \<le> j_timeout_seconds j)"

definition attempt_ok :: "attempt_row \<Rightarrow> bool" where
  "attempt_ok a = ((case a_status a of
       AttemptLeased \<Rightarrow> a_started_at a = None \<and> a_finished_at a = None
     | AttemptRunning \<Rightarrow> a_started_at a \<noteq> None \<and> a_finished_at a = None
     | AttemptCanceled \<Rightarrow> a_finished_at a \<noteq> None
     | AttemptAbandoned \<Rightarrow> a_finished_at a \<noteq> None
     | _ \<Rightarrow> a_started_at a \<noteq> None \<and> a_finished_at a \<noteq> None)
     \<and> (a_retry_delay_ms a = None) = (a_retry_at a = None)
     \<and> (\<forall>ms. a_retry_delay_ms a = Some ms \<longrightarrow> 0 \<le> ms)
     \<and> (a_timeout_at a = None) = (a_started_at a = None)
     \<and> (isExecutingAttemptStatus (a_status a) \<longrightarrow> a_outcome_request_id a = None \<and> a_failure_class a = None
          \<and> a_retry_delay_ms a = None))"

definition lease_ok :: "lease_row \<Rightarrow> bool" where
  "lease_ok l = ((l_status l = LeaseActive) = (l_released_at l = None) \<and> l_renewed_at l < l_expires_at l
     \<and> 0 \<le> l_renewal_version l \<and> (l_renewal_version l = 0) = (l_renewal_id l = None))"

lemma job_ok_step: "job_step j j' \<Longrightarrow> job_ok j \<Longrightarrow> job_ok j'"
  by (induction rule: job_step.induct) (auto simp: job_ok_def row_defs isExecutingJobStatus_def)

lemma attempt_ok_step: "attempt_step a a' \<Longrightarrow> attempt_ok a \<Longrightarrow> attempt_ok a'"
  by (induction rule: attempt_step.induct)
    (auto simp: attempt_ok_def row_defs isExecutingAttemptStatus_def coalesce_def split: AttemptStatus.splits option.splits)

lemma lease_ok_step: "lease_step l l' \<Longrightarrow> lease_ok l \<Longrightarrow> lease_ok l'"
  by (induction rule: lease_step.induct) (auto simp: lease_ok_def row_defs)

definition rows_ok :: "db \<Rightarrow> bool" where
  "rows_ok d = ((\<forall>x j. get_job d x = Some j \<longrightarrow> job_ok j) \<and> (\<forall>x a. get_attempt d x = Some a \<longrightarrow> attempt_ok a)
     \<and> (\<forall>x l. get_lease d x = Some l \<longrightarrow> lease_ok l))"

lemma new_job_ok_row: "new_job_ok d j \<Longrightarrow> job_ok j"
  by (auto simp: new_job_ok_def job_ok_def split: if_splits)

lemma rows_ok_moves:
  assumes m: "moves d d'" and ok: "auth_db d" and r: "rows_ok d"
  shows "rows_ok d'"
  unfolding rows_ok_def
proof (intro conjI allI impI)
  fix x j
  assume j: "get_job d' x = Some j"
  show "job_ok j"
  proof (cases "get_job d x")
    case None
    then show ?thesis
      using moves_new_job [OF m None j] new_job_ok_row by blast
  next
    case (Some j0)
    then have "job_step\<^sup>=\<^sup>= j0 j"
      using moves_job [OF m Some] j by auto
    then show ?thesis
      using r Some job_ok_step by (auto simp: rows_ok_def)
  qed
next
  fix x a
  assume a: "get_attempt d' x = Some a"
  show "attempt_ok a"
  proof (cases "get_attempt d x")
    case None
    then show ?thesis
      using moves_new_attempt [OF m None a] by (auto simp: attempt_ok_def new_attempt_def)
  next
    case (Some a0)
    then have "attempt_step\<^sup>=\<^sup>= a0 a"
      using moves_attempt [OF m ok Some] a by auto
    then show ?thesis
      using r Some attempt_ok_step by (auto simp: rows_ok_def)
  qed
next
  fix x l
  assume l: "get_lease d' x = Some l"
  show "lease_ok l"
  proof (cases "get_lease d x")
    case None
    then show ?thesis
      using moves_new_lease [OF m None l] by (simp add: lease_ok_def)
  next
    case (Some l0)
    then have "lease_step\<^sup>=\<^sup>= l0 l"
      using moves_lease [OF m Some] l by auto
    then show ?thesis
      using r Some lease_ok_step by (auto simp: rows_ok_def)
  qed
qed

section \<open>References\<close>

definition refs_ok :: "db \<Rightarrow> bool" where
  "refs_ok d = ((\<forall>x j. get_job d x = Some j \<longrightarrow> get_queue d (j_queue j) \<noteq> None)
     \<and> (\<forall>i l. get_lease d i = Some l \<longrightarrow> (\<exists>s. get_session d (l_session_id l) = Some s
          \<and> s_worker_id s = l_worker_id l \<and> s_scope s = l_scope l)))"

lemma moves_queues: "moves d d' \<Longrightarrow> db_queues d' = db_queues d"
  by (induction rule: moves.induct) (simp_all add: close_rows_def)

lemma job_step_static:
  "job_step j j' \<Longrightarrow> j_id j' = j_id j \<and> j_scope j' = j_scope j \<and> j_queue j' = j_queue j \<and> j_max_attempts j' = j_max_attempts j
    \<and> j_timeout_seconds j' = j_timeout_seconds j \<and> j_payload j' = j_payload j \<and> j_job_type j' = j_job_type j
    \<and> j_priority j' = j_priority j \<and> j_required_capabilities j' = j_required_capabilities j
    \<and> j_scheduled_at j' = j_scheduled_at j \<and> j_replayed_from j' = j_replayed_from j \<and> j_created_at j' = j_created_at j"
  by (induction rule: job_step.induct) (simp_all add: row_defs)

lemma attempt_step_static:
  "attempt_step a a' \<Longrightarrow> a_id a' = a_id a \<and> a_job_id a' = a_job_id a \<and> a_scope a' = a_scope a \<and> a_queue a' = a_queue a
    \<and> a_number a' = a_number a \<and> a_worker_id a' = a_worker_id a \<and> a_session_id a' = a_session_id a"
  by (induction rule: attempt_step.induct) (simp_all add: row_defs)

lemma lease_step_static:
  "lease_step l l' \<Longrightarrow> l_id l' = l_id l \<and> l_job_id l' = l_job_id l \<and> l_attempt_id l' = l_attempt_id l \<and> l_scope l' = l_scope l
    \<and> l_queue l' = l_queue l \<and> l_worker_id l' = l_worker_id l \<and> l_session_id l' = l_session_id l
    \<and> l_claim_request_id l' = l_claim_request_id l \<and> l_acquired_at l' = l_acquired_at l"
  by (induction rule: lease_step.induct) (simp_all add: row_defs)

lemma session_kept_refl: "session_kept s s"
  by (simp add: session_kept_def)

lemma moves_session:
  assumes "moves d d'" and "get_session d i = Some s"
  shows "\<exists>s'. get_session d' i = Some s' \<and> session_kept s s'"
  using assms by cases (auto simp: sessions_evolve_def close_rows_def session_kept_refl)

lemma moves_new_lease_session:
  assumes "moves d d'" and "get_lease d x = None" and "get_lease d' x = Some l"
  shows "\<exists>s. get_session d' (l_session_id l) = Some s \<and> s_worker_id s = l_worker_id l \<and> s_scope s = l_scope l"
  using assms by cases (auto simp: lookup_append lookup_put_apply close_rows_def new_lease_def split: if_splits)

lemma refs_ok_moves:
  assumes m: "moves d d'" and r: "refs_ok d"
  shows "refs_ok d'"
  unfolding refs_ok_def
proof (intro conjI allI impI)
  fix x j
  assume j: "get_job d' x = Some j"
  show "get_queue d' (j_queue j) \<noteq> None"
  proof (cases "get_job d x")
    case None
    then show ?thesis
      using moves_new_job [OF m None j] moves_queues [OF m] by (auto simp: new_job_ok_def)
  next
    case (Some j0)
    then have "j_queue j = j_queue j0"
      using moves_job [OF m Some] j job_step_static by auto
    then show ?thesis
      using r Some moves_queues [OF m] by (auto simp: refs_ok_def)
  qed
next
  fix i l
  assume l: "get_lease d' i = Some l"
  show "\<exists>s. get_session d' (l_session_id l) = Some s \<and> s_worker_id s = l_worker_id l \<and> s_scope s = l_scope l"
  proof (cases "get_lease d i")
    case None
    then show ?thesis
      using moves_new_lease_session [OF m None l] by blast
  next
    case (Some l0)
    then have e: "l_session_id l = l_session_id l0" "l_worker_id l = l_worker_id l0" "l_scope l = l_scope l0"
      using moves_lease [OF m Some] l lease_step_static by auto
    obtain s where "get_session d (l_session_id l0) = Some s" "s_worker_id s = l_worker_id l0" "s_scope s = l_scope l0"
      using r Some unfolding refs_ok_def by blast
    then show ?thesis
      using moves_session [OF m, of "l_session_id l0" s] e by (auto simp: session_kept_def)
  qed
qed

end
