(* ===== verification/Budget.thy ===== *)
theory Budget
  imports Invariant
begin

text \<open>
  The attempt budget: the attempts of a job are numbered consecutively, never exceed its maximum, and
  a job that waits for a worker has budget left.
\<close>

section \<open>Attempt budget\<close>

definition budget_ok :: "db \<Rightarrow> bool" where
  "budget_ok d = (\<forall>x j. get_job d x = Some j \<longrightarrow>
     map a_number (attempts_of d x) = [1..int (length (attempts_of d x))]
     \<and> int (length (attempts_of d x)) \<le> j_max_attempts j
     \<and> (j_status j \<in> {StatusPending, StatusQueued, StatusRetryWait} \<longrightarrow> int (length (attempts_of d x)) < j_max_attempts j)
     \<and> (\<forall>a\<in>set (attempts_of d x). isExecutingAttemptStatus (a_status a) \<longrightarrow> a_number a = int (length (attempts_of d x))))"

lemma fold_max_upto: "fold max [1..int n] 0 = int n"
proof (induction n)
  case (Suc n)
  have "[1..int (Suc n)] = [1..int n] @ [int (Suc n)]"
    using upto_rec2 [of 1 "int (Suc n)"] by simp
  then show ?case
    using Suc by simp
qed simp

lemma next_attempt_number_upto:
  "map a_number (attempts_of d x) = [1..int (length (attempts_of d x))]
    \<Longrightarrow> next_attempt_number d x = int (length (attempts_of d x)) + 1"
  by (simp add: next_attempt_number_def fold_max_upto)

text \<open>Attempts belong to existing jobs; only a held job has an executing attempt.\<close>

lemma attempt_has_job:
  assumes ok: "auth_db d" and k: "keys_ok d" and "a \<in> set (db_attempts d)"
  obtains l j where "get_lease d (l_id l) = Some l" and "l_attempt_id l = a_id a" and "l_job_id l = a_job_id a"
    and "get_job d (a_job_id a) = Some j" and "bound l a j" and "coupled l a j"
proof -
  have a: "get_attempt d (a_id a) = Some a"
    using assms k lookup_in_set [of a_id "db_attempts d" a] by (simp add: keys_ok_def)
  then obtain i l where l: "get_lease d i = Some l" "l_attempt_id l = a_id a"
    using auth_okD(4) [OF ok] by blast
  then obtain a2 j where "get_attempt d (l_attempt_id l) = Some a2" "get_job d (l_job_id l) = Some j"
    "bound l a2 j" "coupled l a2 j"
    using auth_okD(1) [OF ok] by blast
  then show thesis
    using that [of l j] l a lookup_key [OF l(1)] by (auto simp: bound_def)
qed

lemma attempts_of_no_job:
  assumes "auth_db d" and "keys_ok d" and "get_job d x = None"
  shows "attempts_of d x = []"
proof -
  have "a_job_id a \<noteq> x" if "a \<in> set (db_attempts d)" for a
    using attempt_has_job [OF assms(1,2) that] assms(3) by (metis option.distinct(1))
  then show ?thesis
    by (simp add: attempts_of_def filter_empty_conv)
qed

lemma attempts_of_unheld:
  assumes ok: "auth_db d" and k: "keys_ok d" and j: "get_job d x = Some j" "\<not> held (j_status j)" and a: "a \<in> set (attempts_of d x)"
  shows "\<not> isExecutingAttemptStatus (a_status a)"
proof -
  have "a \<in> set (db_attempts d)" "a_job_id a = x"
    using a by (auto simp: attempts_of_def)
  then obtain l where l: "get_lease d (l_id l) = Some l" "l_job_id l = x" "coupled l a j"
    using attempt_has_job [OF ok k] j by (metis option.inject)
  then have "l_status l \<noteq> LeaseActive"
    using auth_active_held [OF ok l(1)] j by auto
  then show ?thesis
    using l by (simp add: coupled_def)
qed

lemma attempts_of_put:
  assumes "keys_ok d" and "get_attempt d (a_id a0) = Some a0" and "a_id a1 = a_id a0" and "a_job_id a1 = a_job_id a0"
  shows "attempts_of (d\<lparr> db_attempts := put a_id a1 (db_attempts d) \<rparr>) x = put a_id a1 (attempts_of d x)"
proof -
  have "a = a0" if "a \<in> set (db_attempts d)" "a_id a = a_id a0" for a
    using assms that lookup_in_set [of a_id "db_attempts d" a] by (simp add: keys_ok_def)
  then show ?thesis
    unfolding attempts_of_def using assms(3,4)
    by (simp, intro filter_put_same) auto
qed

text \<open>Apart from a claim, a transition keeps the attempts of a job, their numbers, and starts none.\<close>

definition attempts_kept :: "attempt_row list \<Rightarrow> attempt_row list \<Rightarrow> bool" where
  "attempts_kept as bs = list_all2 (\<lambda>a b. a_number b = a_number a
     \<and> (isExecutingAttemptStatus (a_status b) \<longrightarrow> isExecutingAttemptStatus (a_status a))) as bs"

lemma attempts_kept_refl: "attempts_kept as as"
  by (simp add: attempts_kept_def list_all2_refl)

lemma attempts_kept_put:
  assumes "keys_ok d" and "get_attempt d (a_id a0) = Some a0" and "attempt_step a0 a1" and "isExecutingAttemptStatus (a_status a0)"
  shows "attempts_kept (attempts_of d x) (attempts_of (d\<lparr> db_attempts := put a_id a1 (db_attempts d) \<rparr>) x)"
proof -
  note st = attempt_step_static [OF assms(3)]
  have "a = a0" if "a \<in> set (attempts_of d x)" "a_id a = a_id a0" for a
    using assms(1,2) that lookup_in_set [of a_id "db_attempts d" a] by (simp add: keys_ok_def attempts_of_def)
  then show ?thesis
    using st assms(4) attempts_of_put [OF assms(1,2), of a1 x]
    by (auto simp: attempts_kept_def put_def list_all2_map2 intro!: list_all2_refl list.rel_refl_strong)
qed

lemma moves_attempts:
  assumes "moves d d'" and ok: "auth_db d" and k: "keys_ok d"
  shows "(\<forall>x. attempts_kept (attempts_of d x) (attempts_of d' x))
    \<or> (\<exists>a j. get_job d (a_job_id a) = Some j \<and> j_status j = StatusQueued
         \<and> int (length (attempts_of d (a_job_id a))) < j_max_attempts j
         \<and> a_number a = next_attempt_number d (a_job_id a) \<and> db_attempts d' = db_attempts d @ [a])"
  using assms(1)
proof cases
  case (T_claim j scope q req s aid lid a t0 l now dur)
  then show ?thesis
    by (intro disjI2 exI [of _ a] exI [of _ j]) (simp add: new_attempt_def)
next
  case (T_start l b j now)
  then show ?thesis
    using attempts_kept_put [OF k, of b "start_attempt now j b"] live_tripleD [of d l b j]
    by (auto simp: A_start isExecutingAttemptStatus_def attempts_of_def)
next
  case (T_succeed l b j rs now)
  then show ?thesis
    using attempts_kept_put [OF k, of b "succeed_attempt now b"] live_tripleD [of d l b j]
    by (auto simp: A_succeed isExecutingAttemptStatus_def attempts_of_def close_rows_def)
next
  case (T_retry l b j oc ms ra now)
  then show ?thesis
    using attempts_kept_put [OF k, of b "finish_attempt now oc (Some ms) (Some ra) b"] finish_preD [of d l b j oc]
      live_tripleD [of d l b j] live_triple_executing [OF ok, of l b j] A_finish [of b oc "Some ms" "Some ra"]
    by (auto simp: attempts_of_def close_rows_def)
next
  case (T_requeue l b j oc eid t now)
  then show ?thesis
    using attempts_kept_put [OF k, of b "finish_attempt now oc (Some 0) (Some now) b"] finish_preD [of d l b j oc]
      live_tripleD [of d l b j] live_triple_executing [OF ok, of l b j] A_finish [of b oc "Some 0" "Some now"]
    by (auto simp: attempts_of_def close_rows_def)
next
  case (T_dead l b j oc reason did now)
  then show ?thesis
    using attempts_kept_put [OF k, of b "finish_attempt now oc None None b"] finish_preD [of d l b j oc]
      live_tripleD [of d l b j] live_triple_executing [OF ok, of l b j] A_finish [of b oc None None]
    by (auto simp: attempts_of_def close_rows_def)
next
  case (T_cancel_finish l b j ls oid now)
  then show ?thesis
    using attempts_kept_put [OF k, of b "cancel_attempt now oid b"]
      live_tripleD [of d l b j] live_triple_executing [OF ok, of l b j] A_cancel [of b]
    by (auto simp: attempts_of_def close_rows_def)
qed (simp_all add: attempts_kept_refl attempts_of_def)

text \<open>A job waits for a worker only if it waited before or its executing attempt left budget.\<close>

abbreviation waiting :: "Status \<Rightarrow> bool" where
  "waiting s \<equiv> s \<in> {StatusPending, StatusQueued, StatusRetryWait}"

lemma moves_waiting:
  assumes "moves d d'" and "get_job d x = Some j" and "get_job d' x = Some j'" and "waiting (j_status j')"
  shows "waiting (j_status j) \<or> (\<exists>l a. live_triple d l a j \<and> a_number a < j_max_attempts j)"
  using assms
proof cases
  case (T_retry l a k oc ms ra now)
  then show ?thesis
    using assms(2-) finish_preD [of d l a k oc] live_tripleD [of d l a k]
    by (auto simp: close_rows_def lookup_put_apply split: if_splits)
next
  case (T_requeue l a k oc eid t now)
  then show ?thesis
    using assms(2-) finish_preD [of d l a k oc] live_tripleD [of d l a k]
    by (auto simp: close_rows_def lookup_put_apply split: if_splits)
next
  case (T_promote y k now eid t)
  then show ?thesis
    using assms(2-) lookup_key [OF T_promote(2)] by (auto simp: lookup_put_apply row_defs split: if_splits)
next
  case (T_renotify y k eid t now)
  then show ?thesis
    using assms(2-) lookup_key [OF T_renotify(2)] by (auto simp: lookup_put_apply row_defs split: if_splits)
qed (auto simp: lookup_append lookup_put_apply close_rows_def row_defs split: if_splits)

lemma moves_waiting_claimed:
  assumes "moves d d'" and "db_attempts d' = db_attempts d @ [a]" and "get_job d' (a_job_id a) = Some j'"
  shows "\<not> waiting (j_status j')"
  using assms
proof cases
  case (T_claim j scope q req s aid lid b t0 l now dur)
  then show ?thesis
    using assms(2,3) by (auto simp: lookup_put_apply row_defs new_attempt_def split: if_splits)
qed (auto simp: close_rows_def put_def dest: arg_cong [of _ _ length])

lemma attempts_kept_length: "attempts_kept as bs \<Longrightarrow> length bs = length as"
  by (simp add: attempts_kept_def list_all2_lengthD)

lemma attempts_kept_numbers: "attempts_kept as bs \<Longrightarrow> map a_number bs = map a_number as"
  unfolding attempts_kept_def by (induction rule: list_all2_induct) simp_all

lemma attempts_kept_executing:
  assumes "attempts_kept as bs" and "b \<in> set bs" and "isExecutingAttemptStatus (a_status b)"
  shows "\<exists>a\<in>set as. isExecutingAttemptStatus (a_status a) \<and> a_number b = a_number a"
  using assms unfolding attempts_kept_def by (induction rule: list_all2_induct) auto

lemma budget_okD:
  assumes "budget_ok d" and "get_job d x = Some j"
  shows "map a_number (attempts_of d x) = [1..int (length (attempts_of d x))]"
    and "int (length (attempts_of d x)) \<le> j_max_attempts j"
    and "waiting (j_status j) \<Longrightarrow> int (length (attempts_of d x)) < j_max_attempts j"
    and "a \<in> set (attempts_of d x) \<Longrightarrow> isExecutingAttemptStatus (a_status a) \<Longrightarrow> a_number a = int (length (attempts_of d x))"
  using assms by (auto simp: budget_ok_def)

lemma live_triple_number:
  assumes "auth_db d" and "keys_ok d" and "budget_ok d" and t: "live_triple d l a j"
  shows "a_number a = int (length (attempts_of d (j_id j)))"
proof -
  have "a \<in> set (attempts_of d (j_id j))"
    using live_tripleD [OF t] live_triple_executing(3) [OF assms(1) t] lookup_SomeD [of a_id "db_attempts d" "a_id a" a]
    by (auto simp: attempts_of_def bound_def)
  then show ?thesis
    using budget_okD(4) [OF assms(3)] live_tripleD [OF t] live_triple_executing(2) [OF assms(1) t] by blast
qed

lemma budget_kept:
  assumes m: "moves d d'" and ok: "auth_db d" and k: "keys_ok d" and b: "budget_ok d"
    and kept: "\<forall>x. attempts_kept (attempts_of d x) (attempts_of d' x)"
  shows "budget_ok d'"
  unfolding budget_ok_def
proof (intro allI impI)
  fix x j'
  assume j': "get_job d' x = Some j'"
  have kx: "attempts_kept (attempts_of d x) (attempts_of d' x)"
    using kept by blast
  note K = attempts_kept_length [OF kx] attempts_kept_numbers [OF kx] attempts_kept_executing [OF kx]
  show "map a_number (attempts_of d' x) = [1..int (length (attempts_of d' x))]
     \<and> int (length (attempts_of d' x)) \<le> j_max_attempts j'
     \<and> (waiting (j_status j') \<longrightarrow> int (length (attempts_of d' x)) < j_max_attempts j')
     \<and> (\<forall>a\<in>set (attempts_of d' x). isExecutingAttemptStatus (a_status a) \<longrightarrow> a_number a = int (length (attempts_of d' x)))"
  proof (cases "get_job d x")
    case None
    then have "attempts_of d' x = []" "1 \<le> j_max_attempts j'"
      using attempts_of_no_job [OF ok k None] K(1) moves_new_job [OF m None j'] by (auto simp: new_job_ok_def)
    then show ?thesis
      by simp
  next
    case (Some j)
    have mx: "j_max_attempts j' = j_max_attempts j"
      using moves_job [OF m Some] j' job_step_static by auto
    have "int (length (attempts_of d x)) < j_max_attempts j" if "waiting (j_status j')"
      using moves_waiting [OF m Some j' that] budget_okD(3) [OF b Some] live_triple_number [OF ok k b]
        lookup_key [OF Some] by auto
    moreover have "a_number c = int (length (attempts_of d x))"
      if "c \<in> set (attempts_of d' x)" "isExecutingAttemptStatus (a_status c)" for c
      using K(3) [OF that] budget_okD(4) [OF b Some] by metis
    ultimately show ?thesis
      using budget_okD(1,2) [OF b Some] K(1,2) mx by auto
  qed
qed

lemma budget_claim:
  assumes m: "moves d d'" and ok: "auth_db d" and k: "keys_ok d" and b: "budget_ok d"
    and j: "get_job d (a_job_id a) = Some j" "j_status j = StatusQueued"
    and n: "a_number a = next_attempt_number d (a_job_id a)" and d': "db_attempts d' = db_attempts d @ [a]"
  shows "budget_ok d'"
  unfolding budget_ok_def
proof (intro allI impI)
  fix x j'
  assume j': "get_job d' x = Some j'"
  have new: "attempts_of d' x = attempts_of d x @ (if a_job_id a = x then [a] else [])"
    using d' by (simp add: attempts_of_def)
  show "map a_number (attempts_of d' x) = [1..int (length (attempts_of d' x))]
     \<and> int (length (attempts_of d' x)) \<le> j_max_attempts j'
     \<and> (waiting (j_status j') \<longrightarrow> int (length (attempts_of d' x)) < j_max_attempts j')
     \<and> (\<forall>a\<in>set (attempts_of d' x). isExecutingAttemptStatus (a_status a) \<longrightarrow> a_number a = int (length (attempts_of d' x)))"
  proof (cases "x = a_job_id a")
    case True
    let ?n = "int (length (attempts_of d x))"
    have B: "map a_number (attempts_of d x) = [1..?n]" "?n < j_max_attempts j" "a_number a = ?n + 1"
      using budget_okD(1,3) [OF b j(1)] j(2) n next_attempt_number_upto [of d x] True by auto
    have "[1..?n + 1] = [1..?n] @ [?n + 1]"
      using upto_rec2 [of 1 "?n + 1"] by simp
    moreover have "\<not> isExecutingAttemptStatus (a_status c)" if "c \<in> set (attempts_of d x)" for c
      using attempts_of_unheld [OF ok k j(1)] j(2) that True by (auto simp: held_def)
    moreover have "j_max_attempts j' = j_max_attempts j"
      using moves_job [OF m j(1)] j' True job_step_static by auto
    ultimately show ?thesis
      using new B True moves_waiting_claimed [OF m d'] j' by (auto simp: add.commute)
  next
    case False
    then have same: "attempts_of d' x = attempts_of d x"
      using new by simp
    show ?thesis
    proof (cases "get_job d x")
      case None
      then show ?thesis
        using attempts_of_no_job [OF ok k None] same moves_new_job [OF m None j'] by (auto simp: new_job_ok_def)
    next
      case (Some j0)
      have mx: "j_max_attempts j' = j_max_attempts j0"
        using moves_job [OF m Some] j' job_step_static by auto
      have "int (length (attempts_of d x)) < j_max_attempts j0" if "waiting (j_status j')"
        using moves_waiting [OF m Some j' that] budget_okD(3) [OF b Some] live_triple_number [OF ok k b]
          lookup_key [OF Some] by auto
      then show ?thesis
        using budget_okD [OF b Some] same mx by auto
    qed
  qed
qed

lemma budget_ok_moves:
  assumes "moves d d'" and "auth_db d" and "keys_ok d" and "budget_ok d"
  shows "budget_ok d'"
  using moves_attempts [OF assms(1-3)] budget_kept [OF assms] budget_claim [OF assms] by blast

end
