(* ===== verification/Integrity.thy ===== *)
theory Integrity
  imports Budget
begin

text \<open>
  The rest of the database invariant: dead-letter entries, results, work notifications, session and
  concurrency limits, unique request identities, and the records of idempotent requests; and the
  whole invariant \<^verbatim>\<open>db_ok\<close>, which every lifecycle transition preserves.
\<close>

lemma moves_job_back:
  assumes "moves d d'" and "get_job d' x = Some j'"
  shows "(get_job d x = None \<and> new_job_ok d j' \<and> j_id j' = x) \<or> (\<exists>j. get_job d x = Some j \<and> job_step\<^sup>=\<^sup>= j j')"
proof (cases "get_job d x")
  case None
  then show ?thesis
    using moves_new_job [OF assms(1) None assms(2)] by simp
next
  case (Some j)
  then show ?thesis
    using moves_job [OF assms(1) Some] assms(2) by simp
qed

text \<open>A terminal job, a finished attempt and a released lease have no successor.\<close>

lemma job_step_terminal: "job_step j j' \<Longrightarrow> \<not> Terminal (j_status j)"
  by (induction rule: job_step.induct) (auto simp: isExecutingJobStatus_def)

lemma attempt_step_executing: "attempt_step a a' \<Longrightarrow> isExecutingAttemptStatus (a_status a)"
  by (induction rule: attempt_step.induct) (auto simp: isExecutingAttemptStatus_def)

lemma lease_step_active: "lease_step l l' \<Longrightarrow> l_status l = LeaseActive"
  by (induction rule: lease_step.induct) auto

lemma moves_terminal_job: "moves d d' \<Longrightarrow> get_job d x = Some j \<Longrightarrow> Terminal (j_status j) \<Longrightarrow> get_job d' x = Some j"
  using moves_job job_step_terminal by fastforce

lemma moves_finished_attempt:
  "moves d d' \<Longrightarrow> auth_db d \<Longrightarrow> get_attempt d x = Some a \<Longrightarrow> \<not> isExecutingAttemptStatus (a_status a) \<Longrightarrow> get_attempt d' x = Some a"
  using moves_attempt attempt_step_executing by fastforce

lemma moves_released_lease: "moves d d' \<Longrightarrow> get_lease d x = Some l \<Longrightarrow> l_status l \<noteq> LeaseActive \<Longrightarrow> get_lease d' x = Some l"
  using moves_lease lease_step_active by fastforce

section \<open>Dead letters\<close>

definition dlq_entry_ok :: "db \<Rightarrow> dlq_row \<Rightarrow> bool" where
  "dlq_entry_ok d e = (DLQReason_Valid (d_reason e) \<and> get_job d (d_job_id e) \<noteq> None
     \<and> (\<exists>i a. d_attempt_id e = Some i \<and> get_attempt d i = Some a \<and> a_job_id a = d_job_id e
          \<and> \<not> isExecutingAttemptStatus (a_status a)))"

definition dlq_ok :: "db \<Rightarrow> bool" where
  "dlq_ok d = ((\<forall>x j. get_job d x = Some j \<longrightarrow> (j_status j = StatusDeadLettered) = (x \<in> d_job_id ` set (db_dlq d)))
     \<and> (\<forall>e\<in>set (db_dlq d). dlq_entry_ok d e))"

lemma dlq_entry_moves:
  assumes m: "moves d d'" and ok: "auth_db d" and e: "dlq_entry_ok d e"
  shows "dlq_entry_ok d' e"
proof -
  obtain j i a where "get_job d (d_job_id e) = Some j" "d_attempt_id e = Some i" "get_attempt d i = Some a"
    "a_job_id a = d_job_id e" "\<not> isExecutingAttemptStatus (a_status a)" "DLQReason_Valid (d_reason e)"
    using e unfolding dlq_entry_ok_def by blast
  then show ?thesis
    using moves_job [OF m, of "d_job_id e" j] moves_finished_attempt [OF m ok, of i a] by (auto simp: dlq_entry_ok_def)
qed

lemma dlq_dead: "dlq_ok d \<Longrightarrow> get_job d x = Some j \<Longrightarrow> (j_status j = StatusDeadLettered) = (x \<in> d_job_id ` set (db_dlq d))"
  by (simp add: dlq_ok_def)

lemma dlq_job:
  assumes "dlq_ok d" and "x \<in> d_job_id ` set (db_dlq d)"
  obtains j where "get_job d x = Some j" and "j_status j = StatusDeadLettered"
proof -
  have "get_job d x \<noteq> None"
    using assms by (auto simp: dlq_ok_def dlq_entry_ok_def)
  then show thesis
    using that dlq_dead [OF assms(1), of x] assms(2) by blast
qed

lemma moves_dlq:
  assumes "moves d d'" and ok: "auth_db d"
  shows "(db_dlq d' = db_dlq d \<and> (\<forall>x j'. get_job d' x = Some j' \<and> j_status j' = StatusDeadLettered \<longrightarrow> get_job d x = Some j'))
    \<or> (\<exists>e j j' a. db_dlq d' = db_dlq d @ [e] \<and> get_job d (d_job_id e) = Some j \<and> get_job d' (d_job_id e) = Some j'
         \<and> j_status j' = StatusDeadLettered \<and> DLQReason_Valid (d_reason e) \<and> d_attempt_id e = Some (a_id a)
         \<and> get_attempt d' (a_id a) = Some a \<and> a_job_id a = d_job_id e \<and> \<not> isExecutingAttemptStatus (a_status a)
         \<and> (\<forall>x k. x \<noteq> d_job_id e \<longrightarrow> get_job d' x = Some k \<longrightarrow> get_job d x = Some k))"
  using assms(1)
proof cases
  case (T_dead l a j oc reason did now)
  let ?a = "finish_attempt now oc None None a" and ?j = "set_status now StatusDeadLettered j"
  have t: "live_triple d l a j" "ao_status oc \<in> {AttemptFailed, AttemptTimedOut, AttemptAbandoned}"
    using T_dead finish_preD by blast+
  have "get_attempt d' (a_id ?a) = Some ?a" "get_job d' (j_id j) = Some ?j" "get_job d (j_id j) = Some j"
    using T_dead live_tripleD [OF t(1)] by (simp_all add: close_rows_def lookup_put_apply)
  moreover have "a_job_id ?a = j_id j"
    using live_triple_executing(3) [OF ok t(1)] live_tripleD [OF t(1)] by (simp add: row_defs bound_def)
  ultimately show ?thesis
    using T_dead t(2) by (intro disjI2 exI [of _ "\<lparr> d_id = did, d_scope = j_scope j, d_queue = j_queue j, d_job_id = j_id j,
              d_attempt_id = Some (a_id a), d_reason = reason, d_created_at = now \<rparr>"] exI [of _ j] exI [of _ ?j] exI [of _ ?a])
      (auto simp: close_rows_def row_defs isExecutingAttemptStatus_def lookup_put_apply)
qed ((intro disjI1 conjI allI impI;
    force simp: close_rows_def lookup_append lookup_put_apply row_defs new_job_ok_def replacement_job_def split: if_splits option.splits)+)

lemma dlq_ok_moves:
  assumes m: "moves d d'" and ok: "auth_db d" and q: "dlq_ok d"
  shows "dlq_ok d'"
  using moves_dlq [OF m ok]
proof (elim disjE exE conjE)
  assume e: "db_dlq d' = db_dlq d"
    and dead: "\<forall>x j'. get_job d' x = Some j' \<and> j_status j' = StatusDeadLettered \<longrightarrow> get_job d x = Some j'"
  have "(j_status j = StatusDeadLettered) = (x \<in> d_job_id ` set (db_dlq d))" if j: "get_job d' x = Some j" for x j
  proof
    assume "j_status j = StatusDeadLettered"
    then show "x \<in> d_job_id ` set (db_dlq d)"
      using dead j dlq_dead [OF q] by blast
  next
    assume "x \<in> d_job_id ` set (db_dlq d)"
    then obtain j0 where "get_job d x = Some j0" "j_status j0 = StatusDeadLettered"
      by (rule dlq_job [OF q])
    then show "j_status j = StatusDeadLettered"
      using moves_terminal_job [OF m, of x j0] j by simp
  qed
  then show ?thesis
    using e q dlq_entry_moves [OF m ok] by (simp add: dlq_ok_def)
next
  fix e j j' a
  assume e: "db_dlq d' = db_dlq d @ [e]" and j: "get_job d (d_job_id e) = Some j" "get_job d' (d_job_id e) = Some j'"
    "j_status j' = StatusDeadLettered" and r: "DLQReason_Valid (d_reason e)" and a: "d_attempt_id e = Some (a_id a)"
    "get_attempt d' (a_id a) = Some a" "a_job_id a = d_job_id e" "\<not> isExecutingAttemptStatus (a_status a)"
    and same: "\<forall>x k. x \<noteq> d_job_id e \<longrightarrow> get_job d' x = Some k \<longrightarrow> get_job d x = Some k"
  have "(j_status k = StatusDeadLettered) = (x \<in> d_job_id ` set (db_dlq d'))" if k: "get_job d' x = Some k" for x k
    using e j same k dlq_dead [OF q, of x k] by (cases "x = d_job_id e") simp_all
  moreover have "dlq_entry_ok d' e"
    using a j r by (simp add: dlq_entry_ok_def)
  ultimately show ?thesis
    using e q dlq_entry_moves [OF m ok] by (simp add: dlq_ok_def)
qed

section \<open>Results\<close>

definition result_ok :: "db \<Rightarrow> result_row \<Rightarrow> bool" where
  "result_ok d r = (\<exists>j a. get_job d (r_job_id r) = Some j \<and> j_status j = StatusSucceeded
     \<and> get_attempt d (r_attempt_id r) = Some a \<and> a_status a = AttemptSucceeded \<and> a_job_id a = r_job_id r)"

definition results_ok :: "db \<Rightarrow> bool" where
  "results_ok d = (\<forall>r\<in>set (db_results d). result_ok d r)"

lemma result_moves:
  assumes m: "moves d d'" and ok: "auth_db d" and r: "result_ok d r"
  shows "result_ok d' r"
proof -
  obtain j a where "get_job d (r_job_id r) = Some j" "j_status j = StatusSucceeded"
    "get_attempt d (r_attempt_id r) = Some a" "a_status a = AttemptSucceeded" "a_job_id a = r_job_id r"
    using r unfolding result_ok_def by blast
  then show ?thesis
    using moves_terminal_job [OF m, of "r_job_id r" j] moves_finished_attempt [OF m ok, of "r_attempt_id r" a]
    by (simp add: isExecutingAttemptStatus_def result_ok_def)
qed

lemma moves_results:
  assumes "moves d d'" and ok: "auth_db d"
  shows "db_results d' = db_results d \<or> (\<exists>r. db_results d' = db_results d @ [r] \<and> result_ok d' r)"
  using assms(1)
proof cases
  case (T_succeed l a j rs now)
  have "get_attempt d (a_id a) = Some a" "get_job d (j_id j) = Some j" "a_job_id a = j_id j"
    using live_tripleD [OF T_succeed(2)] live_triple_executing(3) [OF ok T_succeed(2)] by (simp_all add: bound_def)
  then show ?thesis
    using T_succeed by (auto simp: result_ok_def close_rows_def lookup_put_apply row_defs)
qed (simp_all add: close_rows_def)

lemma results_ok_moves:
  assumes "moves d d'" and "auth_db d" and "results_ok d"
  shows "results_ok d'"
  using moves_results [OF assms(1,2)] result_moves [OF assms(1,2)] assms(3) by (auto simp: results_ok_def)

section \<open>Sessions and capacity\<close>

definition sessions_ok :: "db \<Rightarrow> bool" where
  "sessions_ok d = (limits_ok (db_sessions d) \<and> one_current (db_sessions d))"

lemma sessions_ok_moves:
  assumes "moves d d'" and "sessions_ok d"
  shows "sessions_ok d'"
  using assms by cases (simp_all add: sessions_ok_def sessions_evolve_def close_rows_def)

definition capacity_ok :: "db \<Rightarrow> bool" where
  "capacity_ok d = ((\<forall>n q. get_queue d n = Some q \<longrightarrow> int (active_for_queue d n) \<le> q_max_concurrency q)
     \<and> (\<forall>w. int (active_for_worker d w) \<le> MaxWorkerConcurrency))"

text \<open>Apart from a claim, no transition adds an active lease.\<close>

definition active_shrinks :: "lease_row list \<Rightarrow> lease_row list \<Rightarrow> bool" where
  "active_shrinks t t' = ((\<forall>n. count_where (\<lambda>l. l_queue l = n \<and> l_status l = LeaseActive) t'
        \<le> count_where (\<lambda>l. l_queue l = n \<and> l_status l = LeaseActive) t)
     \<and> (\<forall>w. count_where (\<lambda>l. l_worker_id l = w \<and> l_status l = LeaseActive) t'
        \<le> count_where (\<lambda>l. l_worker_id l = w \<and> l_status l = LeaseActive) t))"

lemma active_shrinks_refl: "active_shrinks t t"
  by (simp add: active_shrinks_def)

lemma active_shrinks_put:
  assumes "keys_ok d" and "get_lease d (l_id l) = Some l" and "lease_step l l'"
  shows "active_shrinks (db_leases d) (put l_id l' (db_leases d))"
proof -
  have "l_id l' = l_id l" "l_queue l' = l_queue l" "l_worker_id l' = l_worker_id l" "l_status l = LeaseActive"
    using lease_step_static [OF assms(3)] lease_step_active [OF assms(3)] by simp_all
  then show ?thesis
    using assms(1,2) by (auto simp: active_shrinks_def keys_ok_def intro!: count_where_put_mono [of l_id _ l' l])
qed

lemma moves_active:
  assumes "moves d d'" and k: "keys_ok d"
  shows "active_shrinks (db_leases d) (db_leases d')
    \<or> (\<exists>l q s. db_leases d' = db_leases d @ [l] \<and> get_queue d (l_queue l) = Some q
         \<and> int (active_for_queue d (l_queue l)) < q_max_concurrency q
         \<and> get_session d (l_session_id l) = Some s \<and> int (active_for_worker d (l_worker_id l)) < s_concurrency_limit s)"
  using assms(1)
proof cases
  case (T_claim j scope q req s aid lid a t0 l now dur)
  then show ?thesis
    by (intro disjI2 exI [of _ l] exI [of _ q] exI [of _ s]) (simp add: new_lease_def)
next
  case (T_succeed l a j rs now)
  then show ?thesis
    using active_shrinks_put [OF k, of l] live_tripleD [of d l a j] L_release [of l LeaseCompleted] by (simp add: close_rows_def)
next
  case (T_renew l a j now expires rid)
  then show ?thesis
    using active_shrinks_put [OF k, of l] live_tripleD [of d l a j] L_renew [of l now expires rid] by simp
next
  case (T_retry l a j oc ms ra now)
  then show ?thesis
    using active_shrinks_put [OF k, of l] finish_preD [of d l a j oc] live_tripleD [of d l a j] L_release [of l "ao_leaseStatus oc"]
    by (simp add: close_rows_def)
next
  case (T_requeue l a j oc eid t now)
  then show ?thesis
    using active_shrinks_put [OF k, of l] finish_preD [of d l a j oc] live_tripleD [of d l a j] L_release [of l "ao_leaseStatus oc"]
    by (simp add: close_rows_def)
next
  case (T_dead l a j oc reason did now)
  then show ?thesis
    using active_shrinks_put [OF k, of l] finish_preD [of d l a j oc] live_tripleD [of d l a j] L_release [of l "ao_leaseStatus oc"]
    by (simp add: close_rows_def)
next
  case (T_cancel_finish l a j ls oid now)
  then have "active_shrinks (db_leases d) (put l_id (release_lease now ls l) (db_leases d))"
    using active_shrinks_put [OF k, of l] live_tripleD [of d l a j] L_release [of l ls] by auto
  then show ?thesis
    using T_cancel_finish by (simp add: close_rows_def)
qed (simp_all add: active_shrinks_refl)

lemma capacity_ok_moves:
  assumes m: "moves d d'" and k: "keys_ok d" and s: "sessions_ok d" and c: "capacity_ok d"
  shows "capacity_ok d'"
  using moves_active [OF m k]
proof (elim disjE exE conjE)
  assume "active_shrinks (db_leases d) (db_leases d')"
  then have "active_for_queue d' n \<le> active_for_queue d n" "active_for_worker d' w \<le> active_for_worker d w" for n w
    by (simp_all add: active_shrinks_def active_for_queue_def active_for_worker_def)
  then show ?thesis
    using c moves_queues [OF m] unfolding capacity_ok_def by (metis order_trans of_nat_le_iff)
next
  fix l q t
  assume l: "db_leases d' = db_leases d @ [l]" and q: "get_queue d (l_queue l) = Some q"
    and a: "int (active_for_queue d (l_queue l)) < q_max_concurrency q"
    and t: "get_session d (l_session_id l) = Some t" "int (active_for_worker d (l_worker_id l)) < s_concurrency_limit t"
  have "s_concurrency_limit t \<le> MaxWorkerConcurrency"
    using lookup_SomeD [OF t(1)] s by (auto simp: sessions_ok_def limits_ok_def)
  then show ?thesis
    using c l q a t(2) moves_queues [OF m]
    by (auto simp: capacity_ok_def active_for_queue_def active_for_worker_def)
qed

end
