(* ===== verification/Records.thy ===== *)
theory Records
  imports Integrity
begin

text \<open>
  Work notifications, request identities and the records of idempotent requests, and the whole
  database invariant \<^verbatim>\<open>db_ok\<close> with its preservation by every lifecycle transition.
\<close>

section \<open>Notifications\<close>

text \<open>The notification generation of a job; a job that does not exist was never announced.\<close>

definition generation_in :: "job_row list \<Rightarrow> uuid \<Rightarrow> int" where
  "generation_in js x = (case lookup j_id js x of None \<Rightarrow> 0 | Some j \<Rightarrow> j_generation j)"

definition announced :: "event_row list \<Rightarrow> uuid \<Rightarrow> int set" where
  "announced es x = e_generation ` {e \<in> set es. e_job_id e = x}"

definition pending_unique :: "event_row list \<Rightarrow> bool" where
  "pending_unique es = (\<forall>e\<in>set es. \<forall>f\<in>set es. e_status e = EventPending \<and> e_status f = EventPending
     \<and> e_job_id e = e_job_id f \<and> e_generation e = e_generation f \<longrightarrow> e_id e = e_id f)"

definition notify_ok :: "db \<Rightarrow> bool" where
  "notify_ok d = ((\<forall>x. announced (db_outbox d) x = {1..generation_in (db_jobs d) x}) \<and> pending_unique (db_outbox d))"

lemma generation_put:
  "lookup j_id js (j_id j) \<noteq> None \<Longrightarrow> generation_in (put j_id j js) = (generation_in js)(j_id j := j_generation j)"
  by (rule ext) (auto simp: generation_in_def lookup_put_apply)

lemma generation_put_same:
  "lookup j_id js (j_id j) = Some k \<Longrightarrow> j_generation j = j_generation k \<Longrightarrow> generation_in (put j_id j js) = generation_in js"
  by (rule ext) (simp add: generation_in_def lookup_put_apply)

lemma generation_append:
  "lookup j_id js (j_id j) = None \<Longrightarrow> generation_in (js @ [j]) = (generation_in js)(j_id j := j_generation j)"
  by (rule ext) (simp add: generation_in_def lookup_insert)

lemma generation_append_0:
  "lookup j_id js (j_id j) = None \<Longrightarrow> j_generation j = 0 \<Longrightarrow> generation_in (js @ [j]) = generation_in js"
  by (rule ext) (simp add: generation_in_def lookup_insert)

definition announces :: "db \<Rightarrow> event_row \<Rightarrow> db \<Rightarrow> bool" where
  "announces d e d' = (db_outbox d' = db_outbox d @ [e]
     \<and> generation_in (db_jobs d') = (generation_in (db_jobs d))(e_job_id e := e_generation e)
     \<and> (e_generation e = generation_in (db_jobs d) (e_job_id e) + 1
        \<or> (e_generation e = generation_in (db_jobs d) (e_job_id e) \<and> 1 \<le> e_generation e
             \<and> \<not> HasPendingWorkAvailableTx (e_job_id e) (e_generation e) d)))"

definition keeps_announced :: "db \<Rightarrow> db \<Rightarrow> bool" where
  "keeps_announced d d' = ((\<exists>g. events_evolve g \<and> db_outbox d' = map g (db_outbox d))
     \<and> generation_in (db_jobs d') = generation_in (db_jobs d))"

lemma keeps_announced_same:
  "db_outbox d' = db_outbox d \<Longrightarrow> generation_in (db_jobs d') = generation_in (db_jobs d) \<Longrightarrow> keeps_announced d d'"
  by (auto simp: keeps_announced_def events_evolve_def intro!: exI [of _ id])

lemma generation_in_Some: "lookup j_id js x = Some j \<Longrightarrow> generation_in js x = j_generation j"
  by (simp add: generation_in_def)

lemma generation_in_None: "lookup j_id js x = None \<Longrightarrow> generation_in js x = 0"
  by (simp add: generation_in_def)

lemma moves_announces:
  assumes "moves d d'"
  shows "keeps_announced d d' \<or> (\<exists>e. e_status e = EventPending \<and> announces d e d')"
  using assms
proof cases
  case (T_events g)
  then show ?thesis
    by (auto simp: keeps_announced_def)
next
  case (T_submit j key es t eid tr fp)
  show ?thesis
  proof (cases "j_status j = StatusQueued")
    case True
    then have "announces d (work_available t eid (j_id j) (j_queue j) 1 tr) d'"
      using T_submit by (simp add: announces_def work_available_def new_job_ok_def generation_append generation_in_None)
    then show ?thesis
      by (auto simp: work_available_def)
  next
    case False
    then show ?thesis
      using T_submit by (intro disjI1 keeps_announced_same) (simp_all add: new_job_ok_def generation_append_0)
  qed
next
  case (T_replay x orig j now jid key eid t)
  then have "announces d (work_available t eid jid (j_queue j) 1 None) d'"
    by (simp add: announces_def work_available_def new_job_ok_def generation_append generation_in_None replacement_job_def)
  then show ?thesis
    by (auto simp: work_available_def)
next
  case (T_promote x j now eid t)
  then have "announces d (work_available t eid x (j_queue j) (j_generation j + 1) None) d'"
    using lookup_key [OF T_promote(2)]
    by (simp add: announces_def work_available_def generation_put generation_in_Some row_defs)
  then show ?thesis
    by (auto simp: work_available_def)
next
  case (T_renotify x j eid t now)
  then have "announces d (work_available t eid x (j_queue j) (j_generation j) None) d'"
    using lookup_key [OF T_renotify(2)]
    by (simp add: announces_def work_available_def generation_put generation_in_Some)
  then show ?thesis
    by (auto simp: work_available_def)
next
  case (T_requeue l a j oc eid t now)
  then have "announces d (work_available t eid (j_id j) (j_queue j) (j_generation j + 1) None) d'"
    using live_tripleD [of d l a j] finish_preD [of d l a j oc]
    by (simp add: announces_def work_available_def generation_put generation_in_Some row_defs close_rows_def)
  then show ?thesis
    by (auto simp: work_available_def)
next
  case (T_cancel_idle x j now)
  then show ?thesis
    using lookup_key [OF T_cancel_idle(2)]
    by (intro disjI1 keeps_announced_same) (auto simp: row_defs intro!: generation_put_same [of _ _ j])
next
  case (T_cancel_held x j now)
  then show ?thesis
    using lookup_key [OF T_cancel_held(2)]
    by (intro disjI1 keeps_announced_same) (auto simp: row_defs intro!: generation_put_same [of _ _ j])
next
  case (T_claim j scope q req s aid lid a t0 l now dur)
  then show ?thesis
    by (intro disjI1 keeps_announced_same) (auto simp: row_defs intro!: generation_put_same [of _ _ j])
next
  case (T_start l a j now)
  then show ?thesis
    using live_tripleD [OF T_start(2)]
    by (intro disjI1 keeps_announced_same) (auto simp: row_defs intro!: generation_put_same [of _ _ j])
next
  case (T_succeed l a j rs now)
  then show ?thesis
    using live_tripleD [OF T_succeed(2)]
    by (intro disjI1 keeps_announced_same) (auto simp: row_defs close_rows_def intro!: generation_put_same [of _ _ j])
next
  case (T_retry l a j oc ms ra now)
  then have "live_triple d l a j"
    using finish_preD by blast
  then show ?thesis
    using T_retry(1) live_tripleD [of d l a j]
    by (intro disjI1 keeps_announced_same) (auto simp: row_defs close_rows_def intro!: generation_put_same [of _ _ j])
next
  case (T_dead l a j oc reason did now)
  then have "live_triple d l a j"
    using finish_preD by blast
  then show ?thesis
    using T_dead(1) live_tripleD [of d l a j]
    by (intro disjI1 keeps_announced_same) (auto simp: row_defs close_rows_def intro!: generation_put_same [of _ _ j])
next
  case (T_cancel_finish l a j ls oid now)
  then show ?thesis
    using live_tripleD(4) [OF T_cancel_finish(2)]
    by (intro disjI1 keeps_announced_same) (simp_all add: close_rows_def generation_put_same [of _ _ j] set_status_def)
qed (simp_all add: keeps_announced_same)

lemma announced_map: "events_evolve g \<Longrightarrow> announced (map g es) x = announced es x"
  by (force simp: announced_def events_evolve_def image_iff)

lemma pending_uniqueD:
  assumes "pending_unique es" and "e \<in> set es" and "f \<in> set es" and "e_status e = EventPending" and "e_status f = EventPending"
    and "e_job_id e = e_job_id f" and "e_generation e = e_generation f"
  shows "e_id e = e_id f"
  using assms unfolding pending_unique_def by blast

lemma pending_unique_map:
  assumes "events_evolve g" and "pending_unique es"
  shows "pending_unique (map g es)"
proof -
  have g: "e_id (g e) = e_id e" "e_job_id (g e) = e_job_id e" "e_generation (g e) = e_generation e"
    "e_status (g e) = EventPending \<Longrightarrow> e_status e = EventPending" for e
    using assms(1) by (auto simp: events_evolve_def)
  show ?thesis
    unfolding pending_unique_def
  proof (intro ballI impI)
    fix x y
    assume "x \<in> set (map g es)" "y \<in> set (map g es)"
    then obtain e f where ef: "e \<in> set es" "x = g e" "f \<in> set es" "y = g f"
      by auto
    assume "e_status x = EventPending \<and> e_status y = EventPending \<and> e_job_id x = e_job_id y \<and> e_generation x = e_generation y"
    then show "e_id x = e_id y"
      using pending_uniqueD [OF assms(2) ef(1,3)] ef g(4) [of e] g(4) [of f] g(1-3) by simp
  qed
qed

lemma announced_append: "announced (es @ [e]) x = (if e_job_id e = x then insert (e_generation e) (announced es x) else announced es x)"
  by (auto simp: announced_def)

lemma pending_unique_append:
  assumes "pending_unique es"
    and "\<And>f. f \<in> set es \<Longrightarrow> \<not> (e_status f = EventPending \<and> e_job_id f = e_job_id e \<and> e_generation f = e_generation e)"
  shows "pending_unique (es @ [e])"
  unfolding pending_unique_def
proof (intro ballI impI)
  fix f g
  assume "f \<in> set (es @ [e])" "g \<in> set (es @ [e])"
    and p: "e_status f = EventPending \<and> e_status g = EventPending \<and> e_job_id f = e_job_id g \<and> e_generation f = e_generation g"
  then consider "f \<in> set es" "g \<in> set es" | "f = e" "g = e" | "f \<in> set es" "g = e" | "f = e" "g \<in> set es"
    by auto
  then show "e_id f = e_id g"
    using pending_uniqueD [OF assms(1), of f g] assms(2) [of f] assms(2) [of g] p by cases simp_all
qed

lemma interval_insert: "(0::int) \<le> g \<Longrightarrow> insert (g + 1) {1..g} = {1..g + 1}"
  by auto

lemma generation_nonneg: "rows_ok d \<Longrightarrow> 0 \<le> generation_in (db_jobs d) x"
  by (auto simp: generation_in_def rows_ok_def job_ok_def split: option.split)

lemma announces_ok:
  assumes a: "announces d e d'" and p: "e_status e = EventPending" and r: "rows_ok d" and n: "notify_ok d"
  shows "notify_ok d'"
proof -
  let ?g = "generation_in (db_jobs d) (e_job_id e)"
  have an: "announced (db_outbox d) x = {1..generation_in (db_jobs d) x}" for x
    using n by (simp add: notify_ok_def)
  have new: "db_outbox d' = db_outbox d @ [e]" "generation_in (db_jobs d') = (generation_in (db_jobs d))(e_job_id e := e_generation e)"
    and g: "e_generation e = ?g + 1 \<or> (e_generation e = ?g \<and> 1 \<le> e_generation e
             \<and> \<not> HasPendingWorkAvailableTx (e_job_id e) (e_generation e) d)"
    using a by (simp_all add: announces_def)
  have "insert (e_generation e) {1..?g} = {1..e_generation e}"
    using g generation_nonneg [OF r, of "e_job_id e"] by auto
  moreover have fresh: "\<not> (e_status f = EventPending \<and> e_job_id f = e_job_id e \<and> e_generation f = e_generation e)"
    if f: "f \<in> set (db_outbox d)" for f
  proof -
    have "e_generation f \<in> {1..?g}" if "e_job_id f = e_job_id e"
      using an [of "e_job_id e"] f that by (auto simp: announced_def)
    then show ?thesis
      using g f by (auto simp: HasPendingWorkAvailableTx_def list_ex_iff)
  qed
  then have "pending_unique (db_outbox d')"
    using n new(1) pending_unique_append [of "db_outbox d" e] by (simp add: notify_ok_def)
  ultimately show ?thesis
    using an new by (simp add: notify_ok_def announced_append)
qed

lemma notify_ok_moves:
  assumes m: "moves d d'" and r: "rows_ok d" and n: "notify_ok d"
  shows "notify_ok d'"
  using moves_announces [OF m]
proof (elim disjE exE conjE)
  assume k: "keeps_announced d d'"
  then obtain g where "events_evolve g" "db_outbox d' = map g (db_outbox d)"
    by (auto simp: keeps_announced_def)
  then show ?thesis
    using k n by (simp add: keeps_announced_def notify_ok_def announced_map pending_unique_map)
next
  fix e
  assume "e_status e = EventPending" "announces d e d'"
  then show ?thesis
    using announces_ok [of d e d'] r n by simp
qed

section \<open>Request identities\<close>

definition outcome_unique :: "attempt_row list \<Rightarrow> bool" where
  "outcome_unique t = (\<forall>a\<in>set t. \<forall>b\<in>set t. a_outcome_request_id a \<noteq> None
     \<and> a_outcome_request_id a = a_outcome_request_id b \<longrightarrow> a_id a = a_id b)"

definition ids_ok :: "db \<Rightarrow> bool" where
  "ids_ok d = (keys_distinct l_claim_request_id (db_leases d) \<and> keys_distinct l_attempt_id (db_leases d)
     \<and> outcome_unique (db_attempts d))"

lemma outcome_uniqueD:
  assumes "outcome_unique t" and "a \<in> set t" and "b \<in> set t"
    and "a_outcome_request_id a = Some z" and "a_outcome_request_id b = Some z"
  shows "a_id a = a_id b"
proof -
  have "a_outcome_request_id a \<noteq> None \<and> a_outcome_request_id a = a_outcome_request_id b"
    using assms(4,5) by simp
  then show ?thesis
    using assms(1-3) unfolding outcome_unique_def by blast
qed

lemma outcome_uniqueI:
  assumes "\<And>a b z. a \<in> set t \<Longrightarrow> b \<in> set t \<Longrightarrow> a_outcome_request_id a = Some z \<Longrightarrow> a_outcome_request_id b = Some z \<Longrightarrow> a_id a = a_id b"
  shows "outcome_unique t"
  unfolding outcome_unique_def
proof (intro ballI impI)
  fix a b
  assume ab: "a \<in> set t" "b \<in> set t" and "a_outcome_request_id a \<noteq> None \<and> a_outcome_request_id a = a_outcome_request_id b"
  then obtain z where "a_outcome_request_id a = Some z" "a_outcome_request_id b = Some z"
    by (metis option.exhaust)
  then show "a_id a = a_id b"
    using assms ab by blast
qed

lemma outcome_unique_append:
  assumes u: "outcome_unique t" and "a_outcome_request_id x = None"
  shows "outcome_unique (t @ [x])"
proof (rule outcome_uniqueI)
  fix a b z
  assume "a \<in> set (t @ [x])" "b \<in> set (t @ [x])" and z: "a_outcome_request_id a = Some z" "a_outcome_request_id b = Some z"
  then have "a \<in> set t" "b \<in> set t"
    using assms(2) by auto
  then show "a_id a = a_id b"
    using outcome_uniqueD [OF u, of a b z] z by blast
qed

lemma outcome_unique_put:
  assumes u: "outcome_unique t"
    and f: "\<And>b z. b \<in> set t \<Longrightarrow> a_id b \<noteq> a_id a' \<Longrightarrow> a_outcome_request_id a' = Some z \<Longrightarrow> a_outcome_request_id b \<noteq> Some z"
  shows "outcome_unique (put a_id a' t)"
proof (rule outcome_uniqueI)
  fix a b z
  assume "a \<in> set (put a_id a' t)" "b \<in> set (put a_id a' t)" and z: "a_outcome_request_id a = Some z" "a_outcome_request_id b = Some z"
  then consider "a = a'" "b = a'" | "a = a'" "b \<in> set t" "a_id b \<noteq> a_id a'" | "b = a'" "a \<in> set t" "a_id a \<noteq> a_id a'"
    | "a \<in> set t" "b \<in> set t"
    using in_put [of a a_id a' t] in_put [of b a_id a' t] by blast
  then show "a_id a = a_id b"
    using z f [of a z] f [of b z] outcome_uniqueD [OF u, of a b z] by cases simp_all
qed

lemma outcome_not_taken:
  "\<not> outcome_id_taken oid x d \<Longrightarrow> b \<in> set (db_attempts d) \<Longrightarrow> a_id b \<noteq> x \<Longrightarrow> oid = Some z \<Longrightarrow> a_outcome_request_id b \<noteq> Some z"
  by (auto simp: outcome_id_taken_def list_ex_iff)

text \<open>An executing attempt has no outcome identity yet.\<close>

lemma live_no_outcome:
  assumes "auth_db d" and "rows_ok d" and t: "live_triple d l a j"
  shows "a_outcome_request_id a = None"
proof -
  have "attempt_ok a"
    using assms(2) live_tripleD(3) [OF t] by (auto simp: rows_ok_def)
  then show ?thesis
    using live_triple_executing(2) [OF assms(1) t] by (simp add: attempt_ok_def)
qed

lemma outcome_unique_moves:
  assumes "moves d d'" and ok: "auth_db d" and r: "rows_ok d" and u: "outcome_unique (db_attempts d)"
  shows "outcome_unique (db_attempts d')"
  using assms(1)
proof cases
  case (T_claim j scope q req s aid lid a t0 l now dur)
  have "a_outcome_request_id a = None"
    using T_claim by (simp add: new_attempt_def)
  then have "outcome_unique (db_attempts d @ [a])"
    by (rule outcome_unique_append [OF u])
  then show ?thesis
    using T_claim(1) by simp
next
  case (T_start l a j now)
  have "outcome_unique (put a_id (start_attempt now j a) (db_attempts d))"
    using live_no_outcome [OF ok r T_start(2)] by (intro outcome_unique_put [OF u]) (simp add: row_defs)
  then show ?thesis
    using T_start(1) by simp
next
  case (T_succeed l a j rs now)
  have "outcome_unique (put a_id (succeed_attempt now a) (db_attempts d))"
    using live_no_outcome [OF ok r T_succeed(2)] by (intro outcome_unique_put [OF u]) (simp add: row_defs)
  then show ?thesis
    using T_succeed(1) by (simp add: close_rows_def)
next
  case (T_retry l a j oc ms ra now)
  have p: "live_triple d l a j" "\<not> outcome_id_taken (ao_outcomeRequestID oc) (a_id a) d"
    using T_retry(2) finish_preD by blast+
  have "outcome_unique (put a_id (finish_attempt now oc (Some ms) (Some ra) a) (db_attempts d))"
    using live_no_outcome [OF ok r p(1)] outcome_not_taken [OF p(2)]
    by (intro outcome_unique_put [OF u]) (simp add: row_defs coalesce_def split: option.splits)
  then show ?thesis
    using T_retry(1) by (simp add: close_rows_def)
next
  case (T_requeue l a j oc eid t now)
  have p: "live_triple d l a j" "\<not> outcome_id_taken (ao_outcomeRequestID oc) (a_id a) d"
    using T_requeue(2) finish_preD by blast+
  have "outcome_unique (put a_id (finish_attempt now oc (Some 0) (Some now) a) (db_attempts d))"
    using live_no_outcome [OF ok r p(1)] outcome_not_taken [OF p(2)]
    by (intro outcome_unique_put [OF u]) (simp add: row_defs coalesce_def split: option.splits)
  then show ?thesis
    using T_requeue(1) by (simp add: close_rows_def)
next
  case (T_dead l a j oc reason did now)
  have p: "live_triple d l a j" "\<not> outcome_id_taken (ao_outcomeRequestID oc) (a_id a) d"
    using T_dead(2) finish_preD by blast+
  have "outcome_unique (put a_id (finish_attempt now oc None None a) (db_attempts d))"
    using live_no_outcome [OF ok r p(1)] outcome_not_taken [OF p(2)]
    by (intro outcome_unique_put [OF u]) (simp add: row_defs coalesce_def split: option.splits)
  then show ?thesis
    using T_dead(1) by (simp add: close_rows_def)
next
  case (T_cancel_finish l a j ls oid now)
  have "outcome_unique (put a_id (cancel_attempt now oid a) (db_attempts d))"
    using live_no_outcome [OF ok r T_cancel_finish(2)] outcome_not_taken [OF T_cancel_finish(5)]
    by (intro outcome_unique_put [OF u]) (simp add: row_defs coalesce_def split: option.splits)
  then show ?thesis
    using T_cancel_finish(1) by (simp add: close_rows_def)
qed (use u in simp_all)

lemma ids_ok_moves:
  assumes m: "moves d d'" and ok: "auth_db d" and k: "keys_ok d" and r: "rows_ok d" and i: "ids_ok d"
  shows "ids_ok d'"
proof -
  have same: "x = l" if "x \<in> set (db_leases d)" "l_id x = l_id l" "get_lease d (l_id l) = Some l" for x l
    using k that lookup_in_set [of l_id "db_leases d" x] by (simp add: keys_ok_def)
  have put: "map l_claim_request_id (put l_id l' (db_leases d)) = map l_claim_request_id (db_leases d)
    \<and> map l_attempt_id (put l_id l' (db_leases d)) = map l_attempt_id (db_leases d)"
    if "get_lease d (l_id l) = Some l" "l_id l' = l_id l" "l_claim_request_id l' = l_claim_request_id l"
      "l_attempt_id l' = l_attempt_id l" for l l'
    using that same [of _ l] by (intro conjI map_put) metis+
  have "keys_distinct l_claim_request_id (db_leases d') \<and> keys_distinct l_attempt_id (db_leases d')"
    using m
  proof cases
    case (T_claim j scope q req s aid lid a t0 l now dur)
    then show ?thesis
      using i by (auto simp: ids_ok_def new_lease_def)
  next
    case (T_renew l a j now expires rid)
    then show ?thesis
      using i put [OF live_tripleD(1) [OF T_renew(2)]] by (simp add: ids_ok_def row_defs)
  next
    case (T_succeed l a j rs now)
    then show ?thesis
      using i put [OF live_tripleD(1) [OF T_succeed(2)]] by (simp add: ids_ok_def row_defs close_rows_def)
  next
    case (T_retry l a j oc ms ra now)
    then show ?thesis
      using i put [OF live_tripleD(1), of l a j] finish_preD [of d l a j oc] by (simp add: ids_ok_def row_defs close_rows_def)
  next
    case (T_requeue l a j oc eid t now)
    then show ?thesis
      using i put [OF live_tripleD(1), of l a j] finish_preD [of d l a j oc] by (simp add: ids_ok_def row_defs close_rows_def)
  next
    case (T_dead l a j oc reason did now)
    then show ?thesis
      using i put [OF live_tripleD(1), of l a j] finish_preD [of d l a j oc] by (simp add: ids_ok_def row_defs close_rows_def)
  next
    case (T_cancel_finish l a j ls oid now)
    then show ?thesis
      using i put [OF live_tripleD(1) [OF T_cancel_finish(2)]] by (simp add: ids_ok_def row_defs close_rows_def)
  qed (use i in \<open>simp_all add: ids_ok_def\<close>)
  then show ?thesis
    using outcome_unique_moves [OF m ok r] i by (simp add: ids_ok_def)
qed

section \<open>Idempotent requests\<close>

text \<open>Submission keys and replay keys are recorded once and name a job of their scope.\<close>

definition idempotency_ok :: "db \<Rightarrow> idempotency_row \<Rightarrow> bool" where
  "idempotency_ok d i = (\<exists>j. get_job d (i_job_id i) = Some j \<and> j_scope j = i_scope i \<and> j_replayed_from j = None)"

definition replay_ok :: "db \<Rightarrow> replay_row \<Rightarrow> bool" where
  "replay_ok d p = ((\<exists>j. get_job d (p_original p) = Some j \<and> j_status j = StatusDeadLettered)
     \<and> (\<exists>j. get_job d (p_replacement p) = Some j \<and> j_scope j = p_scope p \<and> j_replayed_from j = Some (p_original p)))"

definition requests_ok :: "db \<Rightarrow> bool" where
  "requests_ok d = (keys_distinct (\<lambda>i. (i_scope i, i_key i)) (db_idempotency d)
     \<and> keys_distinct (\<lambda>p. (p_scope p, p_original p, p_key p)) (db_replays d)
     \<and> (\<forall>i\<in>set (db_idempotency d). idempotency_ok d i) \<and> (\<forall>p\<in>set (db_replays d). replay_ok d p))"

lemma moves_job_static:
  assumes "moves d d'" and "get_job d x = Some j"
  obtains j' where "get_job d' x = Some j'" and "j_scope j' = j_scope j" and "j_replayed_from j' = j_replayed_from j"
proof -
  obtain j' where "get_job d' x = Some j'" "job_step\<^sup>=\<^sup>= j j'"
    using moves_job [OF assms] by blast
  then show thesis
    using that [of j'] job_step_static [of j j'] by auto
qed

lemma idempotency_moves:
  assumes "moves d d'" and "idempotency_ok d i"
  shows "idempotency_ok d' i"
  using assms(2) moves_job_static [OF assms(1)] unfolding idempotency_ok_def by metis

lemma replay_moves:
  assumes m: "moves d d'" and "replay_ok d p"
  shows "replay_ok d' p"
proof -
  obtain j k where jk: "get_job d (p_original p) = Some j" "j_status j = StatusDeadLettered"
    "get_job d (p_replacement p) = Some k" "j_scope k = p_scope p" "j_replayed_from k = Some (p_original p)"
    using assms(2) unfolding replay_ok_def by blast
  obtain k' where "get_job d' (p_replacement p) = Some k'" "j_scope k' = j_scope k" "j_replayed_from k' = j_replayed_from k"
    using moves_job_static [OF m jk(3)] by blast
  then show ?thesis
    using moves_terminal_job [OF m jk(1)] jk by (simp add: replay_ok_def)
qed

lemma find_idempotency_None:
  "find_idempotency s k d = None \<longleftrightarrow> (s, k) \<notin> (\<lambda>i. (i_scope i, i_key i)) ` set (db_idempotency d)"
  by (auto simp: find_idempotency_def find_None_iff)

lemma find_replay_None:
  "find_replay s x k d = None \<longleftrightarrow> (s, x, k) \<notin> (\<lambda>p. (p_scope p, p_original p, p_key p)) ` set (db_replays d)"
  by (auto simp: find_replay_def find_None_iff)

lemma moves_requests:
  assumes "moves d d'"
  shows "(db_idempotency d' = db_idempotency d \<or> (\<exists>i. db_idempotency d' = db_idempotency d @ [i]
       \<and> find_idempotency (i_scope i) (i_key i) d = None \<and> idempotency_ok d' i))
     \<and> (db_replays d' = db_replays d \<or> (\<exists>p. db_replays d' = db_replays d @ [p]
       \<and> find_replay (p_scope p) (p_original p) (p_key p) d = None \<and> replay_ok d' p))"
  using assms
proof cases
  case (T_submit j key es t eid tr fp)
  then show ?thesis
    by (auto simp: idempotency_ok_def new_job_ok_def lookup_insert)
next
  case (T_replay x orig j now jid key eid t)
  then have "x \<noteq> jid" "get_job d' jid = Some j" "get_job d' x = Some orig" "j_id orig = x"
    using lookup_key [OF T_replay(2)] by (auto simp: new_job_ok_def lookup_insert replacement_job_def)
  then show ?thesis
    using T_replay by (auto simp: replay_ok_def replacement_job_def)
qed (simp_all add: close_rows_def)

lemma requests_ok_moves:
  assumes m: "moves d d'" and r: "requests_ok d"
  shows "requests_ok d'"
proof -
  have i: "keys_distinct (\<lambda>i. (i_scope i, i_key i)) (db_idempotency d') \<and> (\<forall>i\<in>set (db_idempotency d'). idempotency_ok d' i)"
    using moves_requests [OF m, THEN conjunct1] r idempotency_moves [OF m]
    by (auto simp: requests_ok_def find_idempotency_None)
  have "keys_distinct (\<lambda>p. (p_scope p, p_original p, p_key p)) (db_replays d') \<and> (\<forall>p\<in>set (db_replays d'). replay_ok d' p)"
    using moves_requests [OF m, THEN conjunct2] r replay_moves [OF m]
    by (auto simp: requests_ok_def find_replay_None)
  then show ?thesis
    using i by (simp add: requests_ok_def)
qed

section \<open>The database invariant\<close>

definition db_ok :: "db \<Rightarrow> bool" where
  "db_ok d = (keys_ok d \<and> auth_db d \<and> rows_ok d \<and> refs_ok d \<and> budget_ok d \<and> dlq_ok d \<and> results_ok d
     \<and> sessions_ok d \<and> capacity_ok d \<and> notify_ok d \<and> ids_ok d \<and> requests_ok d)"

lemma db_okD:
  assumes "db_ok d"
  shows "keys_ok d" "auth_db d" "rows_ok d" "refs_ok d" "budget_ok d" "dlq_ok d" "results_ok d"
    "sessions_ok d" "capacity_ok d" "notify_ok d" "ids_ok d" "requests_ok d"
  using assms by (simp_all add: db_ok_def)

lemma db_ok_moves:
  assumes m: "moves d d'" and ok: "db_ok d"
  shows "db_ok d'"
proof -
  note D = db_okD [OF ok]
  show ?thesis
    unfolding db_ok_def
    using keys_ok_moves [OF m D(1)] auth_moves [OF m D(2,1)] rows_ok_moves [OF m D(2,3)] refs_ok_moves [OF m D(4)]
      budget_ok_moves [OF m D(2,1,5)] dlq_ok_moves [OF m D(2,6)] results_ok_moves [OF m D(2,7)] sessions_ok_moves [OF m D(8)]
      capacity_ok_moves [OF m D(1,8,9)] notify_ok_moves [OF m D(3,10)] ids_ok_moves [OF m D(2,1,3,11)]
      requests_ok_moves [OF m D(12)]
    by (intro conjI)
qed

lemma initial_db_ok: "db_ok initial_db"
  unfolding db_ok_def
  by (simp add: initial_db_def keys_ok_def auth_ok_def rows_ok_def refs_ok_def budget_ok_def dlq_ok_def results_ok_def
      sessions_ok_def limits_ok_def one_current_def capacity_ok_def notify_ok_def announced_def generation_in_def
      pending_unique_def ids_ok_def outcome_unique_def requests_ok_def active_for_queue_def active_for_worker_def
      MaxWorkerConcurrency_def lookup_Cons)

end
