(* ===== verification/Refinement.thy ===== *)
theory Refinement
  imports Records Reconcile
begin

text \<open>
  Every store operation refines the lifecycle: from a database that satisfies the invariant, the
  database it commits is the one it started from or the result of one lifecycle transition. A failed
  transaction commits nothing.
\<close>

definition refines :: "db \<Rightarrow> store_error + ('a \<times> db) \<Rightarrow> bool" where
  "refines d r = (case r of Inl e \<Rightarrow> True | Inr (x, d') \<Rightarrow> d' = d \<or> moves d d')"

lemma refines_simps [simp]:
  "refines d (Inl e)" "refines d (Inr (x, d))"
  by (simp_all add: refines_def)

lemma refines_Inr: "moves d d' \<Longrightarrow> refines d (Inr (x, d'))"
  by (simp add: refines_def)

lemma refinesD: "refines d (Inr (x, d')) \<Longrightarrow> d' = d \<or> moves d d'"
  by (simp add: refines_def)

lemma refines_commit: "refines d r \<Longrightarrow> commit d r = d \<or> moves d (commit d r)"
  by (auto simp: refines_def commit_def split: sum.splits prod.splits)

section \<open>Statements by primary key\<close>

lemma upd_job:
  "keys_ok d \<Longrightarrow> get_job d x = Some j \<Longrightarrow> p j \<Longrightarrow> j_id (f j) = j_id j
    \<Longrightarrow> upd_where (\<lambda>r. j_id r = x \<and> p r) f (db_jobs d) = put j_id (f j) (db_jobs d)"
  by (simp add: upd_where_put keys_ok_def)

lemma upd_attempt:
  "keys_ok d \<Longrightarrow> get_attempt d x = Some a \<Longrightarrow> p a \<Longrightarrow> a_id (f a) = a_id a
    \<Longrightarrow> upd_where (\<lambda>r. a_id r = x \<and> p r) f (db_attempts d) = put a_id (f a) (db_attempts d)"
  by (simp add: upd_where_put keys_ok_def)

lemma upd_lease:
  "keys_ok d \<Longrightarrow> get_lease d x = Some l \<Longrightarrow> p l \<Longrightarrow> l_id (f l) = l_id l
    \<Longrightarrow> upd_where (\<lambda>r. l_id r = x \<and> p r) f (db_leases d) = put l_id (f l) (db_leases d)"
  by (simp add: upd_where_put keys_ok_def)

section \<open>Locked authority rows\<close>

text \<open>A fence that names an active lease locks the live triple of that lease.\<close>

definition fenced :: "db \<Rightarrow> string \<Rightarrow> ts \<Rightarrow> Fence \<Rightarrow> fenceState \<Rightarrow> lease_row \<Rightarrow> attempt_row \<Rightarrow> job_row \<Rightarrow> bool" where
  "fenced d scope now f st l a j = (live_triple d l a j \<and> (\<exists>ss. st = fence_state_of scope now ss j a l)
     \<and> l_id l = LeaseID f \<and> a_id a = AttemptID f \<and> j_id j = JobID f \<and> j_scope j = scope \<and> l_queue l = j_queue j)"

lemma lock_fenced:
  assumes "lockAuthorityRows now scope f d = Inr st" and "st_leaseStatus st = LeaseActive" and "auth_db d"
  obtains l a j where "fenced d scope now f st l a j"
  using assms(1)
proof (rule lockAuthorityRowsE)
  fix q ss j a l
  assume l: "get_lease d (LeaseID f) = Some l" "lease_matches scope f l" and j: "get_job d (JobID f) = Some j" "j_scope j = scope"
    and a: "get_attempt d (AttemptID f) = Some a" and st: "st = fence_state_of scope now ss j a l"
  have "live_triple d l a j"
    using l j a st assms(2) lookup_key [OF l(1)] by (simp add: live_triple_def lease_matches_def)
  then show thesis
    using that [of l a j] st j lookup_key [OF l(1)] lookup_key [OF j(1)] lookup_key [OF a]
      live_triple_executing(3) [OF assms(3), of l a j] by (auto simp: fenced_def bound_def)
qed

lemma fencedD:
  assumes "fenced d scope now f st l a j"
  shows "live_triple d l a j" "l_id l = LeaseID f" "a_id a = AttemptID f" "j_id j = JobID f" "j_scope j = scope"
    "get_lease d (LeaseID f) = Some l" "get_attempt d (AttemptID f) = Some a" "get_job d (JobID f) = Some j"
    "l_status l = LeaseActive" "l_queue l = j_queue j" "st_serverNow st = now" "st_jobStatus st = j_status j"
    "st_attemptStatus st = a_status a" "st_attemptNumber st = a_number a" "st_maxAttempts st = j_max_attempts j"
    "st_queue st = j_queue j" "st_scope st = scope" "st_expiresAt st = l_expires_at l"
    "st_renewalVersion st = l_renewal_version l" "st_leaseStatus st = LeaseActive" "st_timeoutAt st = a_timeout_at a"
  using assms live_tripleD [of d l a j] by (auto simp: fenced_def)

lemma leaseUsable_active: "leaseUsable st \<Longrightarrow> st_leaseStatus st = LeaseActive"
  by (simp add: leaseUsable_def)

section \<open>Claim\<close>

lemma reserve_refines:
  assumes k: "keys_ok d" and j: "get_job d (j_id j) = Some j" "j_status j = StatusQueued" "j_scope j = scope"
    and b: "int (length (attempts_of d (j_id j))) < j_max_attempts j"
    and q: "get_queue d (j_queue j) = Some q" "int (active_for_queue d (j_queue j)) < q_max_concurrency q"
    and s: "get_session d (cr_SessionID req) = Some s" "s_worker_id s = cr_WorkerID req" "s_scope s = scope"
      "int (active_for_worker d (cr_WorkerID req)) < s_concurrency_limit s"
  shows "refines d (reserve ck dur aid lid scope req j d)"
proof (cases "reserve ck dur aid lid scope req j d")
  case (Inr r)
  let ?a = "new_attempt (ck_start ck) aid scope req j (next_attempt_number d (j_id j))"
  let ?l = "new_lease (ck_issue ck) dur lid aid scope req j"
  have "upd_where (\<lambda>r. j_id r = j_id j \<and> j_scope r = scope \<and> j_status r = StatusQueued)
      (\<lambda>r. r\<lparr> j_status := StatusLeased, j_updated_at := ck_issue ck \<rparr>) (db_jobs d)
    = put j_id (set_status (ck_issue ck) StatusLeased j) (db_jobs d)"
    using upd_job [OF k j(1), of "\<lambda>r. j_scope r = scope \<and> j_status r = StatusQueued"] j by (simp add: set_status_def)
  then have d': "snd r = d\<lparr> db_attempts := db_attempts d @ [?a], db_leases := db_leases d @ [?l],
      db_jobs := put j_id (set_status (ck_issue ck) StatusLeased j) (db_jobs d) \<rparr>"
    and g: "get_attempt d aid = None" "get_lease d lid = None" "ck_issue ck < add_dur (ck_issue ck) dur"
      "\<forall>l\<in>set (db_leases d). l_claim_request_id l \<noteq> cr_ClaimRequestID req \<and> l_attempt_id l \<noteq> aid"
    using Inr by (auto simp: reserve_def Let_def new_lease_def list_ex_iff split: if_splits)
  have "moves d (snd r)"
    unfolding d' by (rule T_claim [OF j b q s g(1,2,4) refl refl g(3)])
  then show ?thesis
    using Inr by (cases r) (simp add: refines_def)
qed simp

lemma Claim_refines:
  assumes ok: "db_ok d"
  shows "refines d (Claim ck dur aid lid scope req d)"
proof -
  note D = db_okD [OF ok]
  have "refines d (select_and_reserve ck dur aid lid scope req s d)"
    if q: "get_queue d (cr_Queue req) = Some q" "\<not> int (active_for_queue d (cr_Queue req)) \<ge> q_max_concurrency q"
      and s: "get_session d (cr_SessionID req) = Some s" "s_worker_id s = cr_WorkerID req" "s_scope s = scope"
      "\<not> int (active_for_worker d (cr_WorkerID req)) \<ge> s_concurrency_limit s" for q s
  proof (cases "select_ordered (eligible (ck_select ck) scope (cr_Queue req) s d) claim_order 1 (db_jobs d)")
    case Nil
    then show ?thesis
      by (simp add: select_and_reserve_def)
  next
    case (Cons j rest)
    then have "j \<in> set (db_jobs d)" and e: "eligible (ck_select ck) scope (cr_Queue req) s d j"
      using set_select_ordered [of j] by (metis list.set_intros(1))+
    then have j: "get_job d (j_id j) = Some j"
      using D(1) lookup_in_set [of j_id "db_jobs d" j] by (simp add: keys_ok_def)
    have "refines d (reserve ck dur aid lid scope req j d)"
      using e q s by (intro reserve_refines [OF D(1) j]) (auto simp: eligible_def due_queued_def)
    then show ?thesis
      using Cons by (simp add: select_and_reserve_def)
  qed
  then show ?thesis
    by (simp add: Claim_def Let_def split: option.split)
qed

section \<open>Start, success and renewal\<close>

lemma Start_refines:
  assumes ok: "db_ok d"
  shows "refines d (Start now scope f d)"
proof -
  note D = db_okD [OF ok]
  have "refines d (Start now scope f d)"
    if lk: "lockFence now scope f d = Inr st" and use: "leaseUsable st"
      and st: "st_jobStatus st = StatusLeased" "st_attemptStatus st = AttemptLeased" for st
  proof -
    obtain l a j where F: "fenced d scope now f st l a j"
      using lock_fenced [OF _ leaseUsable_active [OF use] D(2)] lk by (blast elim: lockFenceE)
    note fd = fencedD [OF F]
    have "moves d (d\<lparr> db_attempts := put a_id (start_attempt now j a) (db_attempts d),
          db_jobs := put j_id (set_status now StatusRunning j) (db_jobs d) \<rparr>)"
      using fd st by (intro T_start [of d l]) auto
    moreover have "upd_where (\<lambda>r. a_id r = AttemptID f \<and> a_status r = AttemptLeased)
        (\<lambda>a. a\<lparr> a_status := AttemptRunning, a_started_at := Some now,
           a_timeout_at := Some (add_dur now (j_timeout_seconds j * Second)) \<rparr>) (db_attempts d)
      = put a_id (start_attempt now j a) (db_attempts d)"
      using upd_attempt [OF D(1) fd(7), of "\<lambda>a. a_status a = AttemptLeased"] fd st by (simp add: start_attempt_def)
    moreover have "upd_where (\<lambda>r. j_id r = JobID f \<and> j_status r = StatusLeased)
        (\<lambda>r. r\<lparr> j_status := StatusRunning, j_updated_at := now \<rparr>) (db_jobs d)
      = put j_id (set_status now StatusRunning j) (db_jobs d)"
      using upd_job [OF D(1) fd(8), of "\<lambda>a. j_status a = StatusLeased"] fd st by (simp add: set_status_def)
    ultimately show ?thesis
      using lk use st fd(8,11) by (simp add: Start_def Let_def refines_Inr split: option.split)
  qed
  then show ?thesis
    by (cases "lockFence now scope f d") (auto simp: Start_def Let_def split: option.split)
qed

lemma complete_rows_put:
  assumes k: "keys_ok d" and F: "fenced d scope now f st l a j" and st: "j_status j = StatusRunning" "a_status a = AttemptRunning"
  shows "complete_rows now f d = (close_rows (succeed_attempt now a) (release_lease now LeaseCompleted l) d)
          \<lparr> db_jobs := put j_id (set_status now StatusSucceeded j) (db_jobs d) \<rparr>"
proof -
  note fd = fencedD [OF F]
  show ?thesis
    using upd_job [OF k fd(8), of "\<lambda>r. j_status r = StatusRunning"] upd_attempt [OF k fd(7), of "\<lambda>r. a_status r = AttemptRunning"]
      upd_lease [OF k fd(6), of "\<lambda>r. l_status r = LeaseActive"] fd(9) st
    by (simp add: complete_rows_def close_rows_def row_defs)
qed

lemma Succeed_refines:
  assumes ok: "db_ok d"
  shows "refines d (Succeed now scope f result d)"
proof -
  note D = db_okD [OF ok]
  have "refines d (case result of None \<Rightarrow> Inr ((), complete_rows now f d)
          | Some ref \<Rightarrow> (case InsertResultTx (result_of_ref scope f ref) (complete_rows now f d) of
              Inl e \<Rightarrow> Inl e | Inr d2 \<Rightarrow> Inr ((), d2)))"
    if lk: "lockAuthorityRows now scope f d = Inr st" and use: "leaseUsable st"
      and st: "st_jobStatus st = StatusRunning" "st_attemptStatus st = AttemptRunning" for st
  proof -
    obtain l a j where F: "fenced d scope now f st l a j"
      using lock_fenced [OF lk leaseUsable_active [OF use] D(2)] by blast
    note fd = fencedD [OF F]
    have run: "j_status j = StatusRunning" "a_status a = AttemptRunning"
      using st fd by simp_all
    let ?d1 = "complete_rows now f d"
    have d1: "?d1 = (close_rows (succeed_attempt now a) (release_lease now LeaseCompleted l) d)
          \<lparr> db_jobs := put j_id (set_status now StatusSucceeded j) (db_jobs d) \<rparr>"
      by (rule complete_rows_put [OF D(1) F run])
    have m: "moves d (?d1\<lparr> db_results := db_results d @ rs \<rparr>)"
      if "rs = [] \<or> (\<exists>r. rs = [r] \<and> r_job_id r = j_id j \<and> r_attempt_id r = a_id a \<and> r_scope r = j_scope j
          \<and> lookup r_job_id (db_results d) (j_id j) = None)" for rs
      using T_succeed [OF fd(1) run that, of now] d1 by simp
    have e: "?d1\<lparr> db_results := db_results d \<rparr> = ?d1" "db_results ?d1 = db_results d"
      by (simp_all add: complete_rows_def)
    have "moves d ?d1"
      using m [of "[]"] unfolding append_Nil2 e(1) by simp
    then show ?thesis
      using e(2) m [of "[result_of_ref scope f ref]" for ref] fd(3-5)
      by (auto simp: refines_def InsertResultTx_def result_of_ref_def split: option.split sum.split)
  qed
  moreover have "st_serverNow st = now" if "lockAuthorityRows now scope f d = Inr st" for st
    using that by (auto elim!: lockAuthorityRowsE)
  ultimately show ?thesis
    by (auto simp: Succeed_def Let_def split: option.split sum.split)
qed

lemma RenewLease_refines:
  assumes ok: "db_ok d"
  shows "refines d (RenewLease dur now scope req d)"
proof -
  note D = db_okD [OF ok]
  let ?f = "rq_Fence req"
  have "refines d (Inr (x, d\<lparr> db_leases := upd_where (\<lambda>l. l_id l = LeaseID ?f \<and> l_status l = LeaseActive
                       \<and> l_renewal_version l = rq_ExpectedVersion req)
                     (\<lambda>l. l\<lparr> l_renewed_at := st_serverNow st, l_expires_at := expires,
                       l_renewal_version := l_renewal_version l + 1,
                       l_renewal_id := Some (rq_RenewalRequestID req) \<rparr>) (db_leases d) \<rparr>))"
    if lk: "lockFence now scope ?f d = Inr st" and use: "leaseUsable st"
      and st: "isExecutingJobStatus (st_jobStatus st)" "st_renewalVersion st = rq_ExpectedVersion req" "st_serverNow st < expires"
    for x :: RenewalResult and expires st
  proof -
    obtain l a j where F: "fenced d scope now ?f st l a j"
      using lock_fenced [OF _ leaseUsable_active [OF use] D(2)] lk by (blast elim: lockFenceE)
    note fd = fencedD [OF F]
    have "moves d (d\<lparr> db_leases := put l_id (renew_row now expires (rq_RenewalRequestID req) l) (db_leases d) \<rparr>)"
      using fd st use by (intro T_renew [of d l a j]) (auto simp: leaseUsable_def)
    then show ?thesis
      using upd_lease [OF D(1) fd(6), of "\<lambda>l. l_status l = LeaseActive \<and> l_renewal_version l = rq_ExpectedVersion req"] fd st
      by (simp add: refines_Inr renew_row_def)
  qed
  then show ?thesis
    by (auto simp: RenewLease_def Let_def split: option.split sum.split)
qed

section \<open>Finalisation\<close>

lemma close_attempt_put:
  assumes k: "keys_ok d" and F: "fenced d scope now f st l a j" and g: "\<And>a. a_id (g a) = a_id a"
    and c: "close_attempt g oid ls now f d = Inr d1"
  shows "d1 = close_rows (g a) (release_lease now ls l) d" and "isExecutingAttemptStatus (a_status a)"
    and "\<not> outcome_id_taken oid (a_id a) d"
proof -
  note fd = fencedD [OF F]
  have "count_where (\<lambda>r. a_id r = AttemptID f \<and> isExecutingAttemptStatus (a_status r)) (db_attempts d) = 1"
    and t: "\<not> outcome_id_taken oid (AttemptID f) d"
    using c by (auto simp: close_attempt_def Let_def split: if_splits)
  then show x: "isExecutingAttemptStatus (a_status a)"
    using count_where_key [of a_id "db_attempts d" "AttemptID f"] k fd(7) by (simp add: keys_ok_def split: if_splits)
  show "d1 = close_rows (g a) (release_lease now ls l) d"
    using c upd_attempt [OF k fd(7), of "\<lambda>r. isExecutingAttemptStatus (a_status r)" g] x g fd(9)
      upd_lease [OF k fd(6), of "\<lambda>r. l_status r = LeaseActive" "release_lease now ls"]
    by (auto simp: close_attempt_def Let_def close_rows_def release_lease_def split: if_splits)
  show "\<not> outcome_id_taken oid (a_id a) d"
    using t fd(3) by simp
qed

lemma setJobStatus_put:
  assumes k: "keys_ok d" and j: "get_job d x = Some j" and e: "isExecutingJobStatus (j_status j)"
    and "db_jobs d1 = db_jobs d" and "setJobStatus x s t now d1 = Inr d2"
  shows "d2 = d1\<lparr> db_jobs := put j_id (j\<lparr> j_status := s, j_updated_at := now,
      j_available_at := (case t of None \<Rightarrow> j_available_at j | Some u \<Rightarrow> u) \<rparr>) (db_jobs d) \<rparr>"
  using upd_job [OF k j, of "\<lambda>r. isExecutingJobStatus (j_status r)"] assms(4,5) e
  by (auto simp: setJobStatus_def Let_def split: if_splits)

lemma requeueJob_put:
  assumes k: "keys_ok d" and j: "get_job d x = Some j" and e: "isExecutingJobStatus (j_status j)"
    and "db_jobs d1 = db_jobs d" and "requeueJob x now d1 = Inr (g, d2)"
  shows "d2 = d1\<lparr> db_jobs := put j_id (requeue_row now j) (db_jobs d) \<rparr>" and "g = j_generation j + 1"
proof -
  have same: "r = j" if "r \<in> set (db_jobs d)" "j_id r = x" for r
    using k that j lookup_in_set [of j_id "db_jobs d" r] by (simp add: keys_ok_def)
  obtain r where r: "find (\<lambda>r. j_id r = x \<and> isExecutingJobStatus (j_status r)) (db_jobs d) = Some r" "g = j_generation r + 1"
    using assms(4,5) by (auto simp: requeueJob_def Let_def split: option.splits)
  then have "r = j"
    using same [of r] by (auto simp: find_Some_iff)
  then show "g = j_generation j + 1"
    using r by simp
  show "d2 = d1\<lparr> db_jobs := put j_id (requeue_row now j) (db_jobs d) \<rparr>"
    using upd_job [OF k j, of "\<lambda>r. isExecutingJobStatus (j_status r)" "requeue_row now"] assms(4,5) e
    by (auto simp: requeueJob_def Let_def requeue_row_def split: option.splits)
qed

text \<open>What a decision of the retry policy must satisfy for the attempt it finalises.\<close>

definition decision_fits :: "Decision \<Rightarrow> attempt_row \<Rightarrow> job_row \<Rightarrow> bool" where
  "decision_fits dec a j = (if Retry dec then a_number a < j_max_attempts j \<and> 0 \<le> DecisionDelay dec
     else DLQReason_Valid (DeadLetterReason dec)
        \<and> (DeadLetterReason dec = ReasonAttemptsExhausted \<longrightarrow> j_max_attempts j \<le> a_number a))"

lemma Delay_nonneg: "0 \<le> Delay pow p n jitter"
proof -
  obtain x mx where "Delay pow p n jitter = quantizeNanos x mx"
    using Delay_quantized by blast
  then show ?thesis
    using quantizeNanos_bounds [of x mx] by (auto simp: Millisecond_def)
qed

lemma Decide_fits:
  assumes "Decide pow p c (a_number a) (a_number a) (j_max_attempts j) jitter = Inr dec"
  shows "decision_fits dec a j"
  using Decide_cases [OF assms] Delay_nonneg [of pow p "a_number a" jitter]
  by (auto simp: decision_fits_def retry_after_def dead_letter_def DLQReason_Valid_def split: if_splits)

lemma fenced_Decide_fits:
  assumes "fenced d scope now f st l a j"
    and "Decide pow p c (st_attemptNumber st) (st_attemptNumber st) (st_maxAttempts st) jitter = Inr dec"
  shows "decision_fits dec a j"
  using assms(2) unfolding fencedD [OF assms(1)] by (rule Decide_fits)

text \<open>The three ways an attempt is finalised: the job waits, is queued again, or is dead-lettered.\<close>

lemma finalizeAttempt_moves:
  assumes k: "keys_ok d" and F: "fenced d scope now f st l a j" and x: "isExecutingJobStatus (j_status j)"
    and oc: "ao_status oc \<in> {AttemptFailed, AttemptTimedOut, AttemptAbandoned}"
      "ao_status oc \<noteq> AttemptAbandoned \<longrightarrow> a_status a = AttemptRunning" "ao_leaseStatus oc \<in> {LeaseReleased, LeaseExpired}"
    and dec: "decision_fits dec a j" and r: "finalizeAttempt ti st f oc dec d = Inr (res, d')"
  shows "moves d d'"
proof -
  note fd = fencedD [OF F]
  let ?ms = "stored_millis dec" and ?ra = "retry_at now dec" and ?dm = "delay_ms dec"
  obtain d1 res0 where c: "close_attempt (finish_attempt now oc ?dm ?ra) (ao_outcomeRequestID oc) (ao_leaseStatus oc) now f d = Inr d1"
    and r1: "settle_job ti st f dec ?ms ?ra res0 d1 = Inr (res, d')"
    using r fd(11) by (simp add: finalizeAttempt_def Let_def split: sum.splits)
  note C = close_attempt_put [OF k F _ c]
  have d1: "d1 = close_rows (finish_attempt now oc ?dm ?ra a) (release_lease now (ao_leaseStatus oc) l) d"
    and pre: "finish_pre d l a j oc" and jobs: "db_jobs d1 = db_jobs d"
    using C fd(1) x oc by (auto simp: finish_pre_def close_rows_def)
  note sd = settle_job_def [of ti st f dec ?ms ?ra res0 d1] fd(5,11,16,17)
  show ?thesis
  proof (cases "Retry dec")
    case True
    then have b: "a_number a < j_max_attempts j" and ms0: "0 \<le> ?ms"
      using dec by (simp_all add: decision_fits_def stored_millis_def go_div_nonneg Millisecond_def pos_imp_zdiv_nonneg_iff)
    show ?thesis
    proof (cases "?ms > 0")
      case pos: True
      have sj: "setJobStatus (JobID f) StatusRetryWait ?ra now d1 = Inr d'"
        using r1 True pos sd by (auto simp: Let_def split: sum.splits)
      have "d' = d1\<lparr> db_jobs := put j_id (wait_row now (add_dur now (?ms * Millisecond)) j) (db_jobs d) \<rparr>"
        using setJobStatus_put [OF k fd(8) x jobs sj] True by (simp add: retry_at_def wait_row_def)
      then show ?thesis
        using T_retry [OF pre b pos refl, of now] d1 True by (simp add: retry_at_def delay_ms_def)
    next
      case False
      obtain g d2 where q: "requeueJob (JobID f) now d1 = Inr (g, d2)"
        and i: "InsertWorkAvailableTx (ti_start ti) (ti_event ti) (JobID f) (j_queue j) g None d2 = Inr (ti_event ti, d')"
        using r1 True False sd by (auto simp: Let_def InsertWorkAvailableTx_def split: sum.splits if_splits)
      have "?ms = 0"
        using False ms0 by simp
      then show ?thesis
        using requeueJob_put [OF k fd(8) x jobs q] i d1 True fd(4) T_requeue [OF pre b, of "ti_event ti" "ti_start ti" now]
        by (auto simp: InsertWorkAvailableTx_def delay_ms_def retry_at_def close_rows_def split: if_splits)
    qed
  next
    case False
    obtain d2 where s: "setJobStatus (JobID f) StatusDeadLettered None now d1 = Inr d2"
      and i: "InsertDLQEntryTx (ti_dlq ti) (j_scope j) (j_queue j) (JobID f) (Some (AttemptID f)) (DeadLetterReason dec) now d2 = Inr d'"
      using r1 False sd by (auto simp: Let_def split: sum.splits)
    have "d2 = d1\<lparr> db_jobs := put j_id (set_status now StatusDeadLettered j) (db_jobs d) \<rparr>"
      using setJobStatus_put [OF k fd(8) x jobs s] by (simp add: set_status_def)
    then show ?thesis
      using i d1 False dec fd(3,4) T_dead [OF pre, of "DeadLetterReason dec" "ti_dlq ti" now]
      by (auto simp: InsertDLQEntryTx_def delay_ms_def retry_at_def decision_fits_def close_rows_def split: if_splits)
  qed
qed

lemma finalizeCancellation_moves:
  assumes k: "keys_ok d" and F: "fenced d scope now f st l a j" and x: "j_status j = StatusCancelRequested"
    and "ls \<in> {LeaseReleased, LeaseExpired}" and r: "finalizeCancellation st f oid ls d = Inr (res, d')"
  shows "moves d d'"
proof -
  note fd = fencedD [OF F]
  obtain d1 where c: "close_attempt (cancel_attempt now oid) oid ls now f d = Inr d1"
    and d': "d' = d1\<lparr> db_jobs := upd_where (\<lambda>r. j_id r = JobID f \<and> j_status r = StatusCancelRequested)
       (\<lambda>r. r\<lparr> j_status := StatusCanceled, j_updated_at := now \<rparr>) (db_jobs d1) \<rparr>"
    using r fd(11) by (auto simp: finalizeCancellation_def Let_def split: sum.splits if_splits)
  note C = close_attempt_put [OF k F _ c]
  have "db_jobs d1 = db_jobs d"
    using C(1) by (simp add: close_rows_def)
  then have "d' = d1\<lparr> db_jobs := put j_id (set_status now StatusCanceled j) (db_jobs d) \<rparr>"
    using d' upd_job [OF k fd(8), of "\<lambda>r. j_status r = StatusCancelRequested"] x by (simp add: set_status_def)
  then show ?thesis
    using C T_cancel_finish [OF fd(1) x assms(4), of oid now] by simp
qed

section \<open>Reports of a worker\<close>

lemma Fail_refines:
  assumes ok: "db_ok d"
  shows "refines d (Fail cfg ti scope r d)"
proof -
  note D = db_okD [OF ok]
  have "refines d (finalizeAttempt ti st (fr_Fence r) (failure_outcome r) dec d)"
    if lk: "lockAuthorityRows (ti_now ti) scope (fr_Fence r) d = Inr st" and use: "leaseUsable st"
      and st: "st_jobStatus st = StatusRunning" "st_attemptStatus st = AttemptRunning"
      and dec: "Decide (cfg_pow cfg) (cfg_retryPolicy cfg) (fr_Class r) (st_attemptNumber st)
                    (st_attemptNumber st) (st_maxAttempts st) (ti_jitter ti) = Inr dec" for st dec
  proof -
    obtain l a j where F: "fenced d scope (ti_now ti) (fr_Fence r) st l a j"
      using lock_fenced [OF lk leaseUsable_active [OF use] D(2)] by blast
    note fd = fencedD [OF F]
    have "decision_fits dec a j"
      by (rule fenced_Decide_fits [OF F dec])
    then have "moves d d'" if "finalizeAttempt ti st (fr_Fence r) (failure_outcome r) dec d = Inr (res, d')" for res d'
      using st fd that by (intro finalizeAttempt_moves [OF D(1) F]) (auto simp: failure_outcome_def isExecutingJobStatus_def)
    then show ?thesis
      by (auto simp: refines_def split: sum.split)
  qed
  then show ?thesis
    by (auto simp: Fail_def split: option.split sum.split)
qed

lemma AcknowledgeCancellation_refines:
  assumes ok: "db_ok d"
  shows "refines d (AcknowledgeCancellation now scope ack d)"
proof -
  note D = db_okD [OF ok]
  have "refines d (finalizeCancellation st (ca_Fence ack) (Some (ca_OutcomeRequestID ack)) LeaseReleased d)"
    if lk: "lockAuthorityRows now scope (ca_Fence ack) d = Inr st" and use: "leaseUsable st"
      and st: "st_jobStatus st = StatusCancelRequested" for st
  proof -
    obtain l a j where F: "fenced d scope now (ca_Fence ack) st l a j"
      using lock_fenced [OF lk leaseUsable_active [OF use] D(2)] by blast
    have "j_status j = StatusCancelRequested"
      using fencedD(12) [OF F] st by simp
    then show ?thesis
      using finalizeCancellation_moves [OF D(1) F] by (auto simp: refines_def split: sum.split)
  qed
  then show ?thesis
    by (auto simp: AcknowledgeCancellation_def split: option.split sum.split)
qed

section \<open>Reconciliation\<close>

lemma finalizeTimeout_refines:
  assumes k: "keys_ok d" and F: "fenced d scope now f st l a j" and "isExecutingJobStatus (j_status j)" and "a_status a = AttemptRunning"
  shows "refines d (finalizeTimeout cfg ti st f stats d)"
proof -
  note fd = fencedD [OF F]
  have "moves d d'" if "Decide (cfg_pow cfg) (cfg_retryPolicy cfg) ClassTimedOut (st_attemptNumber st)
             (st_attemptNumber st) (st_maxAttempts st) (ti_jitter ti) = Inr dec"
    and "finalizeAttempt ti st f (timeout_outcome ls) dec d = Inr (res, d')" and "ls \<in> {LeaseReleased, LeaseExpired}" for dec ls res d'
  proof -
    have "decision_fits dec a j"
      by (rule fenced_Decide_fits [OF F that(1)])
    then show ?thesis
      using that(2,3) assms(3,4) by (intro finalizeAttempt_moves [OF k F]) (auto simp: timeout_outcome_def)
  qed
  then show ?thesis
    by (auto simp: finalizeTimeout_def Let_def refines_def split: sum.split)
qed

lemma reconcileDueTimeout_refines:
  assumes ok: "db_ok d"
  shows "refines d (reconcileDueTimeout cfg ti x stats d)"
proof -
  note D = db_okD [OF ok]
  have "refines d (finalizeTimeout cfg ti st f stats d)"
    if lk: "lockAuthorityRows (ti_now ti) scope f d = Inr st" and use: "leaseUsable st"
      and st: "st_jobStatus st = StatusRunning" "st_attemptStatus st = AttemptRunning" for st f scope
  proof -
    obtain l a j where F: "fenced d scope (ti_now ti) f st l a j"
      using lock_fenced [OF lk leaseUsable_active [OF use] D(2)] by blast
    show ?thesis
      using st fencedD [OF F] by (intro finalizeTimeout_refines [OF D(1) F]) (auto simp: isExecutingJobStatus_def)
  qed
  then show ?thesis
    by (fastforce simp: reconcileDueTimeout_def lockFenceForReconciliation_def Let_def refines_def split: option.split sum.splits)
qed

lemma timedOutBeforeLapse_running:
  assumes "rows_ok d" and F: "fenced d scope now f st l a j" and "isExecutingAttemptStatus (a_status a)" and "timedOutBeforeLapse st"
  shows "a_status a = AttemptRunning"
proof -
  have "attempt_ok a" "a_timeout_at a \<noteq> None"
    using assms(1,4) fencedD(7,21) [OF F] by (auto simp: rows_ok_def timedOutBeforeLapse_def split: option.splits)
  then show ?thesis
    using assms(3) by (auto simp: attempt_ok_def isExecutingAttemptStatus_def)
qed

lemma reconcileExpiredLease_refines:
  assumes ok: "db_ok d"
  shows "refines d (reconcileExpiredLease cfg ti x stats d)"
proof (cases "get_lease d x")
  case (Some l0)
  note D = db_okD [OF ok]
  let ?f = "lease_fence l0"
  show ?thesis
  proof (cases "lockAuthorityRows (ti_now ti) (l_scope l0) ?f d")
    case (Inr st)
    show ?thesis
    proof (cases "st_leaseStatus st \<noteq> LeaseActive \<or> st_serverNow st < st_expiresAt st \<or> \<not> isExecutingAttemptStatus (st_attemptStatus st)")
      case False
      then obtain l a j where F: "fenced d (l_scope l0) (ti_now ti) ?f st l a j"
        using lock_fenced [OF Inr _ D(2)] by blast
      note fd = fencedD [OF F]
      have c: "moves d d'" if "j_status j = StatusCancelRequested" "finalizeCancellation st ?f None LeaseExpired d = Inr (res, d')" for res d'
        using finalizeCancellation_moves [OF D(1) F that(1) _ that(2)] by simp
      have t: "refines d (finalizeTimeout cfg ti st ?f stats d)" if "isExecutingJobStatus (j_status j)" "timedOutBeforeLapse st"
        using timedOutBeforeLapse_running [OF D(3) F _ that(2)] False fd by (intro finalizeTimeout_refines [OF D(1) F that(1)]) auto
      have ab: "moves d d'" if "isExecutingJobStatus (j_status j)" "Decide (cfg_pow cfg) (cfg_retryPolicy cfg) ClassAbandoned (st_attemptNumber st)
             (st_attemptNumber st) (st_maxAttempts st) (ti_jitter ti) = Inr dec"
        "finalizeAttempt ti st ?f abandon_outcome dec d = Inr (res, d')" for dec res d'
      proof -
        have "decision_fits dec a j"
          by (rule fenced_Decide_fits [OF F that(2)])
        then show ?thesis
          using that by (intro finalizeAttempt_moves [OF D(1) F]) (auto simp: abandon_outcome_def)
      qed
      show ?thesis
        using Some Inr False fd(12) c t ab
        by (auto simp: reconcileExpiredLease_def lockFenceForReconciliation_def Let_def refines_def split: sum.split)
    qed (use Some Inr in \<open>auto simp: reconcileExpiredLease_def lockFenceForReconciliation_def Let_def\<close>)
  qed (use Some in \<open>simp add: reconcileExpiredLease_def lockFenceForReconciliation_def Let_def\<close>)
qed (simp add: reconcileExpiredLease_def)

section \<open>Job operations\<close>

lemma RequestCancel_refines:
  assumes ok: "db_ok d"
  shows "refines d (RequestCancel now scope x d)"
proof (cases "get_job d x")
  case (Some j)
  have m: "moves d (d\<lparr> db_jobs := put j_id (cancel_row now s j) (db_jobs d) \<rparr>)" if "cancel_target (j_status j) = Some s" for s
    using that T_cancel_idle [OF Some, of now] T_cancel_held [OF Some, of now]
    by (cases "j_status j") (auto simp: cancel_target_def isExecutingJobStatus_def)
  have "upd_where (\<lambda>r. j_id r = x \<and> j_scope r = j_scope j \<and> j_status r = j_status j)
      (\<lambda>r. r\<lparr> j_status := s, j_cancel_requested_at := Some now, j_updated_at := now \<rparr>) (db_jobs d)
    = put j_id (cancel_row now s j) (db_jobs d)" for s
    using upd_job [OF db_okD(1) [OF ok] Some, of "\<lambda>r. j_scope r = j_scope j \<and> j_status r = j_status j"] by (simp add: cancel_row_def)
  then show ?thesis
    using Some m by (auto simp: RequestCancel_def Let_def refines_Inr split: option.split)
qed (simp add: RequestCancel_def)

lemma promoteDueJob_refines:
  assumes ok: "db_ok d"
  shows "refines d (promoteDueJob start now eid x d)"
proof (cases "get_job d x")
  case (Some j)
  have u: "upd_where (\<lambda>r. j_id r = x \<and> j_status r = j_status j \<and> j_generation r = j_generation j) (promote_row now) (db_jobs d)
    = put j_id (promote_row now j) (db_jobs d)"
    using upd_job [OF db_okD(1) [OF ok] Some, of "\<lambda>r. j_status r = j_status j \<and> j_generation r = j_generation j" "promote_row now"]
    by (simp add: promote_row_def)
  show ?thesis
    using Some u T_promote [OF Some, of now eid start]
    by (auto simp: promoteDueJob_def Let_def InsertWorkAvailableTx_def refines_Inr split: option.split)
qed (simp add: promoteDueJob_def)

lemma renotifyStrandedJob_refines:
  assumes ok: "db_ok d"
  shows "refines d (renotifyStrandedJob start now eid after x d)"
proof (cases "get_job d x")
  case (Some j)
  have u: "upd_where (\<lambda>r. j_id r = x \<and> j_status r = StatusQueued \<and> j_generation r = j_generation j)
      (\<lambda>r. r\<lparr> j_last_notification_at := Some now \<rparr>) (db_jobs d)
    = put j_id (j\<lparr> j_last_notification_at := Some now \<rparr>) (db_jobs d)" if "j_status j = StatusQueued"
    using upd_job [OF db_okD(1) [OF ok] Some, of "\<lambda>r. j_status r = StatusQueued \<and> j_generation r = j_generation j"] that by simp
  show ?thesis
    using Some u T_renotify [OF Some, of eid start now]
    by (auto simp: renotifyStrandedJob_def Let_def InsertWorkAvailableTx_def refines_Inr split: option.split)
qed (simp add: renotifyStrandedJob_def)

lemma queueExists_get: "queueExists n d \<longleftrightarrow> get_queue d n \<noteq> None"
  by (auto simp: queueExists_def list_ex_iff lookup_None_iff image_iff)

lemma submitted_job_ok:
  assumes "queueExists (nr_Queue req) d" and "get_job d jid = None" and "job_check (submitted_job start now jid scope req)"
  shows "new_job_ok d (submitted_job start now jid scope req)"
  using assms by (cases "nr_ScheduledAt req") (auto simp: new_job_ok_def submitted_job_def queueExists_get job_check_def is_delayed_def)

lemma Submit_refines: "refines d (Submit start now jid eid trace scope key fp req d)"
proof (cases "queueExists (nr_Queue req) d \<and> get_job d jid = None \<and> job_check (submitted_job start now jid scope req)
    \<and> find_idempotency scope key d = None")
  case True
  let ?j = "submitted_job start now jid scope req"
  have ok: "new_job_ok d ?j"
    using True by (intro submitted_job_ok) simp_all
  show ?thesis
  proof (cases "j_status ?j = StatusQueued")
    case queued: True
    then show ?thesis
      using True T_submit [OF ok, of key _ start eid trace fp]
      by (auto simp: Submit_def Let_def InsertWorkAvailableTx_def refines_def submitted_job_def split: if_splits)
  next
    case False
    then show ?thesis
      using True T_submit [OF ok, of key "[]" start eid trace fp]
      by (auto simp: Submit_def Let_def refines_def submitted_job_def split: if_splits)
  qed
next
  case False
  then show ?thesis
    by (auto simp: Submit_def Let_def split: sum.split)
qed

lemma Replay_refines:
  assumes ok: "db_ok d"
  shows "refines d (Replay start now jid eid scope x key d)"
proof (cases "get_job d x")
  case (Some orig)
  let ?j = "replacement_job now jid (j_scope orig) orig"
  have "job_ok orig" "get_queue d (j_queue orig) \<noteq> None"
    using db_okD(3,4) [OF ok] Some unfolding rows_ok_def refs_ok_def by blast+
  then have new: "new_job_ok d ?j" if "get_job d jid = None"
    using that by (simp add: new_job_ok_def replacement_job_def job_ok_def)
  have "j_id orig = x"
    by (rule lookup_key [OF Some])
  then show ?thesis
    using Some T_replay [OF Some _ refl, of now jid key eid start] new
    by (auto simp: Replay_def Let_def InsertWorkAvailableTx_def refines_def replacement_job_def split: option.split sum.split)
qed (simp add: Replay_def)

section \<open>Sessions\<close>

text \<open>An update that keeps the fixed columns and never makes a session current evolves the sessions.\<close>

lemma sessions_evolve_upd:
  assumes id: "\<And>s. s_id (g s) = s_id s" and k: "\<And>s. p s \<Longrightarrow> session_kept s (g s)"
  shows "sessions_evolve ss (upd_where p g ss)"
proof -
  define h where "h s = (if p s then g s else s)" for s
  have h: "s_id (h s) = s_id s" "session_kept s (h s)" for s
    using id k by (simp_all add: session_kept_refl h_def)
  have u: "upd_where p g ss = map h ss"
    by (simp add: upd_where_def h_def)
  have hs: "s_worker_id (h s) = s_worker_id s" "s_concurrency_limit (h s) = s_concurrency_limit s"
    "isCurrentSessionStatus (s_status (h s)) \<Longrightarrow> isCurrentSessionStatus (s_status s)" for s
    using h(2) [of s] by (auto simp: session_kept_def)
  have "limits_ok (map h ss) = limits_ok ss"
    by (simp add: limits_ok_def hs(2))
  moreover have "one_current (map h ss)" if one: "one_current ss"
    unfolding one_current_def
  proof (intro ballI impI)
    fix x y
    assume "x \<in> set (map h ss)" "y \<in> set (map h ss)"
      and c: "isCurrentSessionStatus (s_status x) \<and> isCurrentSessionStatus (s_status y) \<and> s_worker_id x = s_worker_id y"
    then obtain s t where st: "s \<in> set ss" "x = h s" "t \<in> set ss" "y = h t"
      by auto
    then have "isCurrentSessionStatus (s_status s) \<and> isCurrentSessionStatus (s_status t) \<and> s_worker_id s = s_worker_id t"
      using c hs [of s] hs [of t] by simp
    then have "s_id s = s_id t"
      using one st(1,3) unfolding one_current_def by blast
    then show "s_id x = s_id y"
      using st(2,4) h(1) by simp
  qed
  moreover have "s_id \<circ> h = s_id"
    by (rule ext) (simp add: h(1))
  moreover have "lookup s_id (map h ss) i = map_option h (lookup s_id ss i)" for i
    using lookup_upd [of s_id g p ss i] id unfolding u h_def by simp
  ultimately show ?thesis
    using h(2) unfolding sessions_evolve_def u by simp
qed

lemma sessions_evolve_append:
  assumes "sessions_evolve ss ss'" and "lookup s_id ss' (s_id s) = None" and "1 \<le> s_concurrency_limit s" "s_concurrency_limit s \<le> MaxWorkerConcurrency"
    and c: "\<And>t. t \<in> set ss' \<Longrightarrow> s_worker_id t = s_worker_id s \<Longrightarrow> \<not> isCurrentSessionStatus (s_status t)"
  shows "sessions_evolve ss (ss' @ [s])"
proof -
  have "one_current (ss' @ [s])" if one: "one_current ss'"
    unfolding one_current_def
  proof (intro ballI impI)
    fix x y
    assume "x \<in> set (ss' @ [s])" "y \<in> set (ss' @ [s])"
      and xy: "isCurrentSessionStatus (s_status x) \<and> isCurrentSessionStatus (s_status y) \<and> s_worker_id x = s_worker_id y"
    then consider "x \<in> set ss'" "y \<in> set ss'" | "x = s" "y = s" | "x = s" "y \<in> set ss'" | "y = s" "x \<in> set ss'"
      by auto
    then show "s_id x = s_id y"
    proof cases
      case 1
      then show ?thesis
        using one xy unfolding one_current_def by blast
    next
      case 2
      then show ?thesis
        by simp
    next
      case 3
      then show ?thesis
        using xy c [of y] by metis
    next
      case 4
      then show ?thesis
        using xy c [of x] by metis
    qed
  qed
  moreover have "limits_ok ss' \<longrightarrow> limits_ok (ss' @ [s])"
    using assms(3,4) by (simp add: limits_ok_def)
  moreover have "keys_distinct s_id ss' \<longrightarrow> keys_distinct s_id (ss' @ [s])"
    using keys_distinct_insert [of s_id ss' s] assms(2) by simp
  moreover have "\<exists>t'. lookup s_id (ss' @ [s]) i = Some t' \<and> session_kept t t'" if t: "lookup s_id ss i = Some t" for i t
  proof -
    obtain t' where "lookup s_id ss' i = Some t'" "session_kept t t'"
      using assms(1) t unfolding sessions_evolve_def by blast
    then show ?thesis
      by (simp add: lookup_append)
  qed
  moreover have "keys_distinct s_id ss \<longrightarrow> keys_distinct s_id ss'" "limits_ok ss \<longrightarrow> limits_ok ss'" "one_current ss \<longrightarrow> one_current ss'"
    using assms(1) by (simp_all add: sessions_evolve_def)
  ultimately show ?thesis
    unfolding sessions_evolve_def by metis
qed

lemma T_sessions_only: "sessions_evolve (db_sessions d) ss \<Longrightarrow> moves d (d\<lparr> db_sessions := ss \<rparr>)"
  using T_sessions [of d ss "db_workers d"] by simp

lemma sessions_evolve_refl: "sessions_evolve ss ss"
  by (simp add: sessions_evolve_def session_kept_refl)

lemma NormalizeRegistration_limit:
  "NormalizeRegistration r = Inr reg \<Longrightarrow> 1 \<le> reg_ConcurrencyLimit reg \<and> reg_ConcurrencyLimit reg \<le> MaxWorkerConcurrency"
  by (auto simp: NormalizeRegistration_def Let_def registration_fields_def split: if_splits)

lemma upsert_worker_sessions:
  assumes "upsert_worker rc wid scope name d = Inr (w, d1)"
  obtains ws where "d1 = d\<lparr> db_workers := ws \<rparr>"
  using assms that by (auto simp: upsert_worker_def split: option.splits if_splits)

lemma fence_prior_evolve:
  "sessions_evolve ss (upd_where (\<lambda>s. s_worker_id s = w \<and> isCurrentSessionStatus (s_status s))
     (\<lambda>s. s\<lparr> s_status := SessionOffline, s_ended_at := Some now \<rparr>) ss)"
  by (rule sessions_evolve_upd) (auto simp: session_kept_def isCurrentSessionStatus_def)

lemma fence_prior_ids: "map s_id (db_sessions (fence_prior_sessions now w d)) = map s_id (db_sessions d)"
  by (simp add: fence_prior_sessions_def upd_where_def)

lemma fence_prior_current:
  assumes "t \<in> set (db_sessions (fence_prior_sessions now w d))"
  shows "s_worker_id t = w \<longrightarrow> \<not> isCurrentSessionStatus (s_status t)"
proof -
  define h where "h s = (if s_worker_id s = w \<and> isCurrentSessionStatus (s_status s)
    then s\<lparr> s_status := SessionOffline, s_ended_at := Some now \<rparr> else s)" for s :: session_row
  have "set (db_sessions (fence_prior_sessions now w d)) = h ` set (db_sessions d)"
    by (simp add: fence_prior_sessions_def upd_where_def h_def)
  then obtain x where "t = h x"
    using assms by blast
  then show ?thesis
    by (simp add: h_def isCurrentSessionStatus_def)
qed

lemma lookup_None_cong: "map key t' = map key t \<Longrightarrow> lookup key t' k = None \<longleftrightarrow> lookup key t k = None"
  by (metis lookup_None_iff set_map)

lemma Register_refines: "refines d (Register rc wid scope r d)"
proof (cases "NormalizeRegistration r")
  case (Inr reg)
  show ?thesis
  proof (cases "upsert_worker rc wid scope (reg_Name reg) d")
    case up: (Inr wd)
    obtain w d1 where wd: "wd = (w, d1)"
      by (cases wd)
    obtain ws where d1: "d1 = d\<lparr> db_workers := ws \<rparr>"
      using up unfolding wd by (rule upsert_worker_sessions)
    have m1: "moves d d1"
      using T_sessions [OF sessions_evolve_refl, of d ws] d1 by simp
    let ?s = "new_session (rc_registered rc) w scope reg" and ?ss = "db_sessions (fence_prior_sessions (rc_fence rc) w d1)"
    have "moves d (fence_prior_sessions (rc_fence rc) w d1\<lparr> db_sessions := ?ss @ [?s] \<rparr>)" if n: "get_session d1 (reg_SessionID reg) = None"
    proof -
      have "sessions_evolve (db_sessions d) (?ss @ [?s])"
      proof (rule sessions_evolve_append)
        show "sessions_evolve (db_sessions d) ?ss"
          using fence_prior_evolve [of "db_sessions d" w "rc_fence rc"] d1 by (simp add: fence_prior_sessions_def)
        show "lookup s_id ?ss (s_id ?s) = None"
          using n lookup_None_cong [OF fence_prior_ids, of "rc_fence rc" w d1] by (simp add: new_session_def)
        show "1 \<le> s_concurrency_limit ?s" "s_concurrency_limit ?s \<le> MaxWorkerConcurrency"
          using NormalizeRegistration_limit [OF Inr] by (simp_all add: new_session_def)
        show "\<not> isCurrentSessionStatus (s_status t)" if "t \<in> set ?ss" "s_worker_id t = s_worker_id ?s" for t
          using fence_prior_current [OF that(1)] that(2) by (simp add: new_session_def)
      qed
      then show ?thesis
        using T_sessions [of d _ ws] d1 by (simp add: fence_prior_sessions_def)
    qed
    then show ?thesis
      using Inr up wd m1 by (cases "get_session d1 (reg_SessionID reg)") (simp_all add: Register_def Let_def refines_Inr split: option.split)
  qed (simp add: Register_def Inr)
qed (simp add: Register_def)

lemma Heartbeat_refines: "refines d (Heartbeat now scope req d)"
proof -
  have "moves d (d\<lparr> db_sessions := upd_where (\<lambda>s. s_id s = hb_SessionID req \<and> s_status s = SessionHealthy)
      (\<lambda>s. s\<lparr> s_last_heartbeat_at := max (s_last_heartbeat_at s) now \<rparr>) (db_sessions d) \<rparr>)"
    by (intro T_sessions_only sessions_evolve_upd) (auto simp: session_kept_def isCurrentSessionStatus_def)
  then show ?thesis
    by (auto simp: Heartbeat_def Let_def refines_Inr split: option.split sum.split)
qed

lemma markSessionStale_moves: "snd (markSessionStale now staleAfter x d) = d \<or> moves d (snd (markSessionStale now staleAfter x d))"
proof -
  have "moves d (d\<lparr> db_sessions := upd_where (\<lambda>s. s_id s = x \<and> isCurrentSessionStatus (s_status s))
      (\<lambda>s. s\<lparr> s_status := SessionUnhealthy, s_ended_at := Some now \<rparr>) (db_sessions d) \<rparr>)"
    by (intro T_sessions_only sessions_evolve_upd) (auto simp: session_kept_def isCurrentSessionStatus_def)
  then show ?thesis
    by (auto simp: markSessionStale_def Let_def split: option.split)
qed

section \<open>Publication\<close>

lemma T_events_upd:
  assumes "\<And>e. p e \<Longrightarrow> e_id (g e) = e_id e \<and> e_job_id (g e) = e_job_id e \<and> e_generation (g e) = e_generation e
     \<and> (e_status (g e) = EventPending \<longrightarrow> e_status e = EventPending)"
  shows "moves d (d\<lparr> db_outbox := upd_where p g (db_outbox d) \<rparr>)"
  unfolding upd_where_def using assms by (intro T_events) (auto simp: events_evolve_def)

lemma ClaimDue_moves: "moves d (snd (ClaimDue now limit timeout d))"
  by (auto simp: ClaimDue_def Let_def claim_event_def intro!: T_events_upd)

lemma MarkPublished_moves: "moves d (snd (MarkPublished now eid d))"
  by (auto simp: MarkPublished_def Let_def intro!: T_events_upd)

lemma RecordFailure_refines: "refines d (RecordFailure now eid cause after d)"
  by (auto simp: RecordFailure_def Let_def intro!: refines_Inr T_events_upd)

lemma ReleaseClaim_moves: "moves d (ReleaseClaim now eid d)"
  by (auto simp: ReleaseClaim_def intro!: T_events_upd)

end
