(* ===== verification/Evolution.thy ===== *)
theory Evolution
  imports Prelude
begin

text \<open>
  The interfaces the system-level arguments rely on: a step relation with an invariant, tables whose
  rows only move along a preorder, and tables some of whose rows are final.
\<close>

locale invariant_system =
  fixes step :: "'s \<Rightarrow> 's \<Rightarrow> bool"
    and inv :: "'s \<Rightarrow> bool"
  assumes inv_step: "step s s' \<Longrightarrow> inv s \<Longrightarrow> inv s'"
begin

lemma inv_steps:
  assumes "step\<^sup>*\<^sup>* s s'" and "inv s"
  shows "inv s'"
  using assms by (induction rule: rtranclp_induct) (auto intro: inv_step)

end

locale evolving_rows = invariant_system step inv
  for step :: "'s \<Rightarrow> 's \<Rightarrow> bool" and inv :: "'s \<Rightarrow> bool" +
  fixes row :: "'s \<Rightarrow> 'k \<Rightarrow> 'r option"
    and le :: "'r \<Rightarrow> 'r \<Rightarrow> bool"
  assumes le_refl: "le r r"
    and le_trans: "le r r' \<Longrightarrow> le r' r'' \<Longrightarrow> le r r''"
    and row_step: "step s s' \<Longrightarrow> inv s \<Longrightarrow> row s k = Some r \<Longrightarrow> \<exists>r'. row s' k = Some r' \<and> le r r'"
begin

lemma row_steps:
  assumes "step\<^sup>*\<^sup>* s s'" and "inv s" and "row s k = Some r"
  shows "\<exists>r'. row s' k = Some r' \<and> le r r'"
  using assms
proof (induction rule: rtranclp_induct)
  case base
  then show ?case
    using le_refl by blast
next
  case (step y z)
  then obtain r' where "row y k = Some r'" "le r r'"
    by blast
  then show ?case
    using row_step [OF step(2) inv_steps [OF step(1) step.prems(1)]] le_trans by blast
qed

end

locale final_rows = invariant_system step inv
  for step :: "'s \<Rightarrow> 's \<Rightarrow> bool" and inv :: "'s \<Rightarrow> bool" +
  fixes row :: "'s \<Rightarrow> 'k \<Rightarrow> 'r option"
    and final :: "'r \<Rightarrow> bool"
  assumes final_step: "step s s' \<Longrightarrow> inv s \<Longrightarrow> row s k = Some r \<Longrightarrow> final r \<Longrightarrow> row s' k = Some r"
begin

lemma final_steps:
  assumes "step\<^sup>*\<^sup>* s s'" and "inv s" and "row s k = Some r" and "final r"
  shows "row s' k = Some r"
  using assms
proof (induction rule: rtranclp_induct)
  case (step y z)
  then show ?case
    using final_step [OF step(2) inv_steps [OF step(1) step.prems(1)]] by blast
qed

text \<open>Once final, a row is not distinguished by any later history.\<close>

lemma final_agree:
  assumes "step\<^sup>*\<^sup>* s s1" and "step\<^sup>*\<^sup>* s s2" and "inv s" and "row s k = Some r" and "final r"
  shows "row s1 k = row s2 k"
  using final_steps [OF assms(1,3-5)] final_steps [OF assms(2-5)] by simp

end

end
