(* ===== verification/System.thy ===== *)
theory System
  imports Refinement Evolution
begin

text \<open>
  The whole control plane: every transaction the API, the scheduler, the reconciler and the outbox
  publisher issue against the database, as one request type, and the step relation in which they
  interleave. Each transaction is atomic and takes the clock samples, identifiers and jitter it draws
  as part of the request, so a sequence of requests is an arbitrary interleaving of arbitrary
  clients. The database invariant holds after every sequence.
\<close>

datatype request =
  RegisterReq reg_clock uuid string Registration
| HeartbeatReq ts string HeartbeatRequest
| MarkStaleReq ts dur uuid
| ClaimReq claim_clock uuid uuid string ClaimRequest
| StartReq ts string Fence
| SucceedReq ts string Fence "ResultRef option"
| FailReq tx_input string FailureReport
| AckCancelReq ts string CancelAcknowledgment
| RenewReq ts string RenewalRequest
| ReconcileLeaseReq tx_input uuid
| ReconcileTimeoutReq tx_input uuid
| SubmitReq ts ts uuid uuid "(string \<times> string) option" string string string NormalizedRequest
| CancelReq ts string uuid
| PromoteReq ts ts uuid uuid
| RenotifyReq ts ts uuid dur uuid
| ReplayReq ts ts uuid uuid string uuid string
| OutboxClaimReq ts nat dur
| OutboxMarkReq ts uuid
| OutboxFailReq ts uuid string dur
| OutboxReleaseReq ts uuid

fun exec :: "store_cfg \<Rightarrow> request \<Rightarrow> db \<Rightarrow> db" where
  "exec cfg (RegisterReq rc wid scope r) d = commit d (Register rc wid scope r d)"
| "exec cfg (HeartbeatReq now scope r) d = commit d (Heartbeat now scope r d)"
| "exec cfg (MarkStaleReq now after sid) d = snd (markSessionStale now after sid d)"
| "exec cfg (ClaimReq ck aid lid scope r) d = commit d (Claim ck (cfg_leaseDuration cfg) aid lid scope r d)"
| "exec cfg (StartReq now scope f) d = commit d (Start now scope f d)"
| "exec cfg (SucceedReq now scope f res) d = commit d (Succeed now scope f res d)"
| "exec cfg (FailReq ti scope r) d = commit d (Fail cfg ti scope r d)"
| "exec cfg (AckCancelReq now scope a) d = commit d (AcknowledgeCancellation now scope a d)"
| "exec cfg (RenewReq now scope r) d = commit d (RenewLease (cfg_leaseDuration cfg) now scope r d)"
| "exec cfg (ReconcileLeaseReq ti lid) d = commit d (reconcileExpiredLease cfg ti lid zero_stats d)"
| "exec cfg (ReconcileTimeoutReq ti aid) d = commit d (reconcileDueTimeout cfg ti aid zero_stats d)"
| "exec cfg (SubmitReq start now jid eid tr scope key fp r) d = commit d (Submit start now jid eid tr scope key fp r d)"
| "exec cfg (CancelReq now scope jid) d = commit d (RequestCancel now scope jid d)"
| "exec cfg (PromoteReq start now eid jid) d = commit d (promoteDueJob start now eid jid d)"
| "exec cfg (RenotifyReq start now eid after jid) d = commit d (renotifyStrandedJob start now eid after jid d)"
| "exec cfg (ReplayReq start now jid eid scope orig key) d = commit d (Replay start now jid eid scope orig key d)"
| "exec cfg (OutboxClaimReq now limit timeout) d = snd (ClaimDue now limit timeout d)"
| "exec cfg (OutboxMarkReq now eid) d = snd (MarkPublished now eid d)"
| "exec cfg (OutboxFailReq now eid cause after) d = commit d (RecordFailure now eid cause after d)"
| "exec cfg (OutboxReleaseReq now eid) d = ReleaseClaim now eid d"

definition run :: "store_cfg \<Rightarrow> request list \<Rightarrow> db \<Rightarrow> db" where
  "run cfg rs d = fold (exec cfg) rs d"

lemma run_append: "run cfg (rs @ rs') d = run cfg rs' (run cfg rs d)"
  by (simp add: run_def)

inductive db_step :: "store_cfg \<Rightarrow> db \<Rightarrow> db \<Rightarrow> bool" for cfg where
  exec_step: "db_step cfg d (exec cfg r d)"

inductive_cases db_stepE: "db_step cfg d d'"

lemma run_steps: "(db_step cfg)\<^sup>*\<^sup>* d (run cfg rs d)"
  unfolding run_def
proof (induction rs arbitrary: d)
  case (Cons r rs)
  then show ?case
    using converse_rtranclp_into_rtranclp [of "db_step cfg" d "exec cfg r d"] exec_step by simp
qed simp

lemma steps_run:
  assumes "(db_step cfg)\<^sup>*\<^sup>* d d'"
  shows "\<exists>rs. d' = run cfg rs d"
  using assms
proof (induction rule: rtranclp_induct)
  case base
  then show ?case
    by (intro exI [of _ "[]"]) (simp add: run_def)
next
  case (step y z)
  then obtain rs r where "y = run cfg rs d" "z = exec cfg r y"
    by (blast elim: db_stepE)
  then show ?case
    by (intro exI [of _ "rs @ [r]"]) (simp add: run_def)
qed

section \<open>Every request refines the lifecycle\<close>

lemma exec_moves:
  assumes ok: "db_ok d"
  shows "exec cfg r d = d \<or> moves d (exec cfg r d)"
proof (cases r)
  case (MarkStaleReq now after sid)
  then show ?thesis
    using markSessionStale_moves by simp
next
  case (OutboxClaimReq now limit timeout)
  then show ?thesis
    using ClaimDue_moves by simp
next
  case (OutboxMarkReq now eid)
  then show ?thesis
    using MarkPublished_moves by simp
next
  case (OutboxFailReq now eid cause after)
  then show ?thesis
    using refines_commit [OF RecordFailure_refines] by simp
next
  case (OutboxReleaseReq now eid)
  then show ?thesis
    using ReleaseClaim_moves by simp
qed (simp_all add: refines_commit Register_refines Heartbeat_refines Claim_refines [OF ok] Start_refines [OF ok] Succeed_refines [OF ok]
    Fail_refines [OF ok] AcknowledgeCancellation_refines [OF ok] RenewLease_refines [OF ok] reconcileExpiredLease_refines [OF ok]
    reconcileDueTimeout_refines [OF ok] Submit_refines RequestCancel_refines [OF ok] promoteDueJob_refines [OF ok]
    renotifyStrandedJob_refines [OF ok] Replay_refines [OF ok])

lemma step_moves: "db_step cfg d d' \<Longrightarrow> db_ok d \<Longrightarrow> d' = d \<or> moves d d'"
  using exec_moves by (auto elim!: db_stepE)

lemma db_ok_step: "db_step cfg d d' \<Longrightarrow> db_ok d \<Longrightarrow> db_ok d'"
  using step_moves db_ok_moves by blast

interpretation sys: invariant_system "db_step cfg" db_ok for cfg
  by unfold_locales (rule db_ok_step)

lemma run_ok: "db_ok d \<Longrightarrow> db_ok (run cfg rs d)"
  using sys.inv_steps [OF run_steps] .

text \<open>The databases the control plane can be in.\<close>

definition reach :: "store_cfg \<Rightarrow> db \<Rightarrow> bool" where
  "reach cfg d = (\<exists>rs. d = run cfg rs initial_db)"

lemma reach_ok: "reach cfg d \<Longrightarrow> db_ok d"
  using run_ok [OF initial_db_ok] by (auto simp: reach_def)

lemma reach_run: "reach cfg d \<Longrightarrow> reach cfg (run cfg rs d)"
  unfolding reach_def by (metis run_append)

section \<open>Final rows and monotone columns\<close>

interpretation job_rows: final_rows "db_step cfg" db_ok get_job "\<lambda>j. Terminal (j_status j)" for cfg
  by unfold_locales (use step_moves moves_terminal_job in blast)

interpretation attempt_rows: final_rows "db_step cfg" db_ok get_attempt "\<lambda>a. \<not> isExecutingAttemptStatus (a_status a)" for cfg
  by unfold_locales (use step_moves moves_finished_attempt db_okD(2) in blast)

interpretation lease_rows: final_rows "db_step cfg" db_ok get_lease "\<lambda>l. l_status l \<noteq> LeaseActive" for cfg
  by unfold_locales (use step_moves moves_released_lease in blast)

text \<open>Columns that never change or only grow, by the state machines of the rows.\<close>

definition job_definition :: "job_row \<Rightarrow> (uuid \<times> string \<times> string \<times> string \<times> string \<times> int \<times> int \<times> int \<times> string list
    \<times> ts option \<times> uuid option \<times> ts)" where
  "job_definition j = (j_id j, j_scope j, j_queue j, j_job_type j, j_payload j, j_priority j, j_max_attempts j,
     j_timeout_seconds j, j_required_capabilities j, j_scheduled_at j, j_replayed_from j, j_created_at j)"

definition attempt_identity :: "attempt_row \<Rightarrow> (uuid \<times> uuid \<times> string \<times> string \<times> int \<times> uuid \<times> uuid)" where
  "attempt_identity a = (a_id a, a_job_id a, a_scope a, a_queue a, a_number a, a_worker_id a, a_session_id a)"

definition lease_identity :: "lease_row \<Rightarrow> (uuid \<times> uuid \<times> uuid \<times> string \<times> string \<times> uuid \<times> uuid \<times> uuid \<times> ts)" where
  "lease_identity l = (l_id l, l_job_id l, l_attempt_id l, l_scope l, l_queue l, l_worker_id l, l_session_id l,
     l_claim_request_id l, l_acquired_at l)"

abbreviation cancelling :: "job_row \<Rightarrow> bool" where
  "cancelling j \<equiv> j_status j \<in> {StatusCancelRequested, StatusCanceled}"

definition job_le :: "job_row \<Rightarrow> job_row \<Rightarrow> bool" where
  "job_le j j' = (job_definition j' = job_definition j \<and> j_generation j \<le> j_generation j'
     \<and> (cancelling j \<longrightarrow> cancelling j'))"

definition attempt_le :: "attempt_row \<Rightarrow> attempt_row \<Rightarrow> bool" where
  "attempt_le a a' = (attempt_identity a' = attempt_identity a
     \<and> (a_timeout_at a \<noteq> None \<longrightarrow> a_timeout_at a' = a_timeout_at a \<and> a_started_at a' = a_started_at a)
     \<and> (a_status a \<noteq> AttemptLeased \<longrightarrow> a_status a' \<noteq> AttemptLeased))"

definition lease_le :: "lease_row \<Rightarrow> lease_row \<Rightarrow> bool" where
  "lease_le l l' = (lease_identity l' = lease_identity l \<and> l_renewal_version l \<le> l_renewal_version l')"

lemma job_step_le: "job_step j j' \<Longrightarrow> job_le j j'"
  by (induction rule: job_step.induct) (auto simp: job_le_def job_definition_def row_defs isExecutingJobStatus_def)

lemma attempt_step_le: "attempt_ok a \<Longrightarrow> attempt_step a a' \<Longrightarrow> attempt_le a a'"
  by (erule attempt_step.cases)
    (auto simp: attempt_le_def attempt_identity_def row_defs isExecutingAttemptStatus_def attempt_ok_def)

lemma lease_step_le: "lease_step l l' \<Longrightarrow> lease_le l l'"
  by (induction rule: lease_step.induct) (auto simp: lease_le_def lease_identity_def row_defs)

lemma job_le_refl: "job_le j j" and attempt_le_refl: "attempt_le a a" and lease_le_refl: "lease_le l l"
  by (simp_all add: job_le_def attempt_le_def lease_le_def)

lemma step_job_le:
  assumes "db_step cfg d d'" and "db_ok d" and "get_job d x = Some j"
  shows "\<exists>j'. get_job d' x = Some j' \<and> job_le j j'"
  using step_moves [OF assms(1,2)]
proof
  assume "moves d d'"
  then obtain j' where "get_job d' x = Some j'" "j' = j \<or> job_step j j'"
    using moves_job [of d d' x j] assms(3) by auto
  then show ?thesis
    using job_step_le [of j j'] job_le_refl by blast
qed (use assms(3) job_le_refl in simp)

lemma step_attempt_le:
  assumes "db_step cfg d d'" and "db_ok d" and "get_attempt d x = Some a"
  shows "\<exists>a'. get_attempt d' x = Some a' \<and> attempt_le a a'"
  using step_moves [OF assms(1,2)]
proof
  assume "moves d d'"
  then obtain a' where "get_attempt d' x = Some a'" "a' = a \<or> attempt_step a a'"
    using moves_attempt [of d d' x a] db_okD(2) [OF assms(2)] assms(3) by auto
  moreover have "attempt_ok a"
    using db_okD(3) [OF assms(2)] assms(3) unfolding rows_ok_def by blast
  ultimately show ?thesis
    using attempt_step_le [of a a'] attempt_le_refl by blast
qed (use assms(3) attempt_le_refl in simp)

lemma step_lease_le:
  assumes "db_step cfg d d'" and "db_ok d" and "get_lease d x = Some l"
  shows "\<exists>l'. get_lease d' x = Some l' \<and> lease_le l l'"
  using step_moves [OF assms(1,2)]
proof
  assume "moves d d'"
  then obtain l' where "get_lease d' x = Some l'" "l' = l \<or> lease_step l l'"
    using moves_lease [of d d' x l] assms(3) by auto
  then show ?thesis
    using lease_step_le [of l l'] lease_le_refl by blast
qed (use assms(3) lease_le_refl in simp)

lemma step_session_kept:
  assumes "db_step cfg d d'" and "db_ok d" and "get_session d x = Some s"
  shows "\<exists>s'. get_session d' x = Some s' \<and> session_kept s s'"
  using step_moves [OF assms(1,2)] moves_session [of d d' x s] assms(3) session_kept_refl by blast

lemma job_le_trans: "job_le j k \<Longrightarrow> job_le k m \<Longrightarrow> job_le j m"
  unfolding job_le_def by (metis order_trans)

lemma attempt_le_trans: "attempt_le a b \<Longrightarrow> attempt_le b c \<Longrightarrow> attempt_le a c"
  unfolding attempt_le_def by metis

lemma lease_le_trans: "lease_le l m \<Longrightarrow> lease_le m n \<Longrightarrow> lease_le l n"
  unfolding lease_le_def by (metis order_trans)

lemma session_kept_trans: "session_kept s t \<Longrightarrow> session_kept t u \<Longrightarrow> session_kept s u"
  unfolding session_kept_def by (metis order_trans)

interpretation job_columns: evolving_rows "db_step cfg" db_ok get_job job_le for cfg
  by unfold_locales (rule job_le_refl, erule (1) job_le_trans, erule (2) step_job_le)

interpretation attempt_columns: evolving_rows "db_step cfg" db_ok get_attempt attempt_le for cfg
  by unfold_locales (rule attempt_le_refl, erule (1) attempt_le_trans, erule (2) step_attempt_le)

interpretation lease_columns: evolving_rows "db_step cfg" db_ok get_lease lease_le for cfg
  by unfold_locales (rule lease_le_refl, erule (1) lease_le_trans, erule (2) step_lease_le)

interpretation session_columns: evolving_rows "db_step cfg" db_ok get_session session_kept for cfg
  by unfold_locales (rule session_kept_refl, erule (1) session_kept_trans, erule (2) step_session_kept)

end
