(* ===== verification/Scenario.thy ===== *)
theory Scenario
  imports System
begin

text \<open>
  Concrete histories: a worker registers, jobs are submitted, claimed, started and finished. They are
  the inputs at which the system properties are evaluated.
\<close>

definition policy0 :: RetryPolicy where
  "policy0 = \<lparr> PolicyBase = Second, PolicyMax = 60 * Second, PolicyMultiplier = F_Fin 2, PolicyJitter = F_Fin 0 \<rparr>"

definition cfg0 :: store_cfg where
  "cfg0 = \<lparr> cfg_leaseDuration = 30 * Second, cfg_retryPolicy = policy0, cfg_pow = (\<lambda>x y. F_Fin 1) \<rparr>"

definition clock0 :: reg_clock where
  "clock0 = \<lparr> rc_start = 0, rc_upsert = 0, rc_fence = 0, rc_registered = 0 \<rparr>"

definition registration0 :: Registration where
  "registration0 = \<lparr> reg_SessionID = 2, reg_Name = ''w'', reg_Hostname = ''h'', reg_WorkerGroup = ''default'',
     reg_ConcurrencyLimit = 4, reg_Capabilities = [], reg_SupportedJobTypes = [''t''], reg_WorkerKeyID = None \<rparr>"

definition job0 :: NormalizedRequest where
  "job0 = \<lparr> nr_Queue = ''default'', nr_Type = ''t'', nr_Payload = ''{}'', nr_Priority = 5, nr_MaxAttempts = 2,
     nr_TimeoutSeconds = 10, nr_RequiredCapabilities = [], nr_ScheduledAt = None \<rparr>"

definition claim0 :: "uuid \<Rightarrow> ClaimRequest" where
  "claim0 ev = \<lparr> cr_WorkerID = 1, cr_SessionID = 2, cr_ClaimRequestID = ev, cr_Queue = ''default'' \<rparr>"

definition tick :: "ts \<Rightarrow> claim_clock" where
  "tick t = \<lparr> ck_start = t, ck_select = t, ck_exists = t, ck_issue = t \<rparr>"

definition fence0 :: Fence where
  "fence0 = \<lparr> JobID = 10, AttemptID = 20, LeaseID = 30, WorkerID = 1, SessionID = 2 \<rparr>"

definition input0 :: "ts \<Rightarrow> tx_input" where
  "input0 t = \<lparr> ti_start = t, ti_now = t, ti_event = 40, ti_dlq = 50, ti_jitter = None \<rparr>"

definition history0 :: "request list" where
  "history0 = [RegisterReq clock0 1 ''s'' registration0, SubmitReq 1 1 10 11 None ''s'' ''k'' ''fp'' job0,
     ClaimReq (tick 2) 20 30 ''s'' (claim0 11), StartReq 3 ''s'' fence0]"

text \<open>The database after this history: job 10 runs as attempt 20 under lease 30.\<close>

definition job_row0 :: job_row where
  "job_row0 = \<lparr> j_id = 10, j_scope = ''s'', j_queue = ''default'', j_job_type = ''t'', j_payload = ''{}'',
     j_status = StatusRunning, j_priority = 5, j_max_attempts = 2, j_timeout_seconds = 10,
     j_required_capabilities = [], j_created_at = 1, j_updated_at = 3, j_available_at = 1, j_scheduled_at = None,
     j_cancel_requested_at = None, j_replayed_from = None, j_generation = 1, j_last_notification_at = Some 1 \<rparr>"

definition attempt_row0 :: attempt_row where
  "attempt_row0 = \<lparr> a_id = 20, a_job_id = 10, a_scope = ''s'', a_queue = ''default'', a_number = 1, a_worker_id = 1,
     a_session_id = 2, a_status = AttemptRunning, a_started_at = Some 3, a_finished_at = None, a_created_at = 2,
     a_timeout_at = Some 10000003, a_outcome_request_id = None, a_failure_class = None, a_error_code = None,
     a_error_message = None, a_retry_delay_ms = None, a_retry_at = None \<rparr>"

definition lease_row0 :: lease_row where
  "lease_row0 = \<lparr> l_id = 30, l_job_id = 10, l_attempt_id = 20, l_scope = ''s'', l_queue = ''default'', l_worker_id = 1,
     l_session_id = 2, l_claim_request_id = 11, l_status = LeaseActive, l_acquired_at = 2, l_expires_at = 30000002,
     l_renewed_at = 2, l_released_at = None, l_renewal_version = 0, l_renewal_id = None \<rparr>"

definition session_row0 :: session_row where
  "session_row0 = \<lparr> s_id = 2, s_worker_id = 1, s_scope = ''s'', s_hostname = ''h'', s_worker_group = ''default'',
     s_concurrency_limit = 4, s_capabilities = [], s_supported_job_types = [''t''], s_status = SessionHealthy,
     s_registered_at = 0, s_last_heartbeat_at = 0, s_ended_at = None, s_worker_key_id = None \<rparr>"

definition event_row0 :: event_row where
  "event_row0 = \<lparr> e_id = 11, e_queue = ''default'', e_job_id = 10, e_generation = 1, e_trace = None,
     e_status = EventPending, e_attempts = 0, e_available_at = 1, e_claimed_at = None, e_published_at = None,
     e_last_error = None, e_created_at = 1 \<rparr>"

definition running_db :: db where
  "running_db = \<lparr> db_queues = [\<lparr> q_name = ''default'', q_max_concurrency = 100, q_worker_group = ''default'' \<rparr>],
     db_jobs = [job_row0],
     db_idempotency = [\<lparr> i_scope = ''s'', i_key = ''k'', i_fingerprint = ''fp'', i_job_id = 10 \<rparr>],
     db_outbox = [event_row0],
     db_workers = [\<lparr> w_id = 1, w_scope = ''s'', w_name = ''w'', w_updated_at = 0 \<rparr>],
     db_sessions = [session_row0], db_attempts = [attempt_row0], db_leases = [lease_row0],
     db_dlq = [], db_replays = [], db_results = [] \<rparr>"

definition queued_db :: db where
  "queued_db = running_db\<lparr> db_jobs := [job_row0\<lparr> j_status := StatusQueued, j_updated_at := 1 \<rparr>],
     db_attempts := [], db_leases := [] \<rparr>"

lemma run_queued: "run cfg0 (take 2 history0) initial_db = queued_db"
  by code_simp

lemma run_running: "run cfg0 (drop 2 history0) queued_db = running_db"
  by code_simp

lemma run_history: "run cfg0 history0 initial_db = running_db"
  using run_append [of cfg0 "take 2 history0" "drop 2 history0" initial_db]
  unfolding append_take_drop_id run_queued run_running .

lemma reach_queued: "reach cfg0 queued_db"
  unfolding reach_def by (rule exI) (rule run_queued [symmetric])

lemma reach_running: "reach cfg0 running_db"
  unfolding reach_def by (rule exI) (rule run_history [symmetric])

end
