(* ===== verification/Settlement.thy ===== *)
theory Settlement
  imports System
begin

text \<open>
  How an attempt is settled, as equations: when the rows of a fence are live, closing the attempt,
  releasing the lease and moving the job cannot fail, and the resulting rows are known. The theory
  also shows that a fence that locked once locks again after any later requests.
\<close>

section \<open>Finalisation is total\<close>

text \<open>The identifiers a transaction drew are not in use.\<close>

definition fresh :: "tx_input \<Rightarrow> db \<Rightarrow> bool" where
  "fresh ti d = (get_event d (ti_event ti) = None \<and> lookup d_id (db_dlq d) (ti_dlq ti) = None)"

definition settled_job :: "ts \<Rightarrow> Decision \<Rightarrow> job_row \<Rightarrow> job_row" where
  "settled_job now dec j = (if Retry dec
     then if 0 < stored_millis dec then wait_row now (add_dur now (stored_millis dec * Millisecond)) j else requeue_row now j
     else set_status now StatusDeadLettered j)"

definition finalized :: "tx_input \<Rightarrow> db \<Rightarrow> db \<Rightarrow> attempt_row \<Rightarrow> lease_row \<Rightarrow> job_row \<Rightarrow> bool" where
  "finalized ti d d' a' l' j' = (db_attempts d' = put a_id a' (db_attempts d) \<and> db_leases d' = put l_id l' (db_leases d)
     \<and> db_jobs d' = put j_id j' (db_jobs d)
     \<and> (\<exists>es. db_outbox d' = db_outbox d @ es \<and> e_id ` set es \<subseteq> {ti_event ti})
     \<and> (\<exists>xs. db_dlq d' = db_dlq d @ xs \<and> d_id ` set xs \<subseteq> {ti_dlq ti}))"

lemma close_attempt_ok:
  assumes k: "keys_ok d" and F: "fenced d scope now f st l a j" and g: "\<And>a. a_id (g a) = a_id a"
    and x: "isExecutingAttemptStatus (a_status a)" and t: "\<not> outcome_id_taken oid (a_id a) d"
  shows "close_attempt g oid ls now f d = Inr (close_rows (g a) (release_lease now ls l) d)"
proof -
  note fd = fencedD [OF F]
  have "count_where (\<lambda>r. a_id r = AttemptID f \<and> isExecutingAttemptStatus (a_status r)) (db_attempts d) = 1"
    "count_where (\<lambda>r. l_id r = LeaseID f \<and> l_status r = LeaseActive) (db_leases d) = 1"
    using k fd(6,7,9) x by (simp_all add: keys_ok_def count_where_key)
  then obtain d1 where c: "close_attempt g oid ls now f d = Inr d1"
    using t fd(3) by (simp add: close_attempt_def)
  then show ?thesis
    using close_attempt_put(1) [OF k F g c] by simp
qed

lemma executing_count:
  assumes "keys_ok d" and "get_job d x = Some j" and "isExecutingJobStatus (j_status j)"
  shows "count_where (\<lambda>r. j_id r = x \<and> isExecutingJobStatus (j_status r)) (db_jobs d) = 1"
    and "\<exists>r. find (\<lambda>r. j_id r = x \<and> isExecutingJobStatus (j_status r)) (db_jobs d) = Some r"
proof -
  show "count_where (\<lambda>r. j_id r = x \<and> isExecutingJobStatus (j_status r)) (db_jobs d) = 1"
    using assms by (simp add: keys_ok_def count_where_key)
  show "\<exists>r. find (\<lambda>r. j_id r = x \<and> isExecutingJobStatus (j_status r)) (db_jobs d) = Some r"
    using assms lookup_SomeD [OF assms(2)]
    by (cases "find (\<lambda>r. j_id r = x \<and> isExecutingJobStatus (j_status r)) (db_jobs d)") (auto simp: find_None_iff)
qed

lemma setJobStatus_ok:
  assumes k: "keys_ok d" and j: "get_job d x = Some j" and e: "isExecutingJobStatus (j_status j)" and d1: "db_jobs d1 = db_jobs d"
  shows "setJobStatus x s t now d1 = Inr (d1\<lparr> db_jobs := put j_id (j\<lparr> j_status := s, j_updated_at := now,
      j_available_at := (case t of None \<Rightarrow> j_available_at j | Some u \<Rightarrow> u) \<rparr>) (db_jobs d) \<rparr>)"
proof -
  obtain d2 where r: "setJobStatus x s t now d1 = Inr d2"
    using executing_count(1) [OF k j e] d1 by (simp add: setJobStatus_def)
  then show ?thesis
    using setJobStatus_put [OF k j e d1 r] by simp
qed

lemma requeueJob_ok:
  assumes k: "keys_ok d" and j: "get_job d x = Some j" and e: "isExecutingJobStatus (j_status j)" and d1: "db_jobs d1 = db_jobs d"
  shows "requeueJob x now d1 = Inr (j_generation j + 1, d1\<lparr> db_jobs := put j_id (requeue_row now j) (db_jobs d) \<rparr>)"
proof -
  obtain g d2 where r: "requeueJob x now d1 = Inr (g, d2)"
    using executing_count(2) [OF k j e] d1 by (auto simp: requeueJob_def)
  then show ?thesis
    using requeueJob_put [OF k j e d1 r] by simp
qed

lemma finalizeAttempt_ok:
  assumes ok: "db_ok d" and F: "fenced d scope now f st l a j" and x: "isExecutingJobStatus (j_status j)"
    and t: "\<not> outcome_id_taken (ao_outcomeRequestID oc) (a_id a) d" and dec: "decision_fits dec a j" and fr: "fresh ti d"
  shows "\<exists>res d'. finalizeAttempt ti st f oc dec d = Inr (res, d') \<and> out_JobStatus res = j_status (settled_job now dec j)
     \<and> finalized ti d d' (finish_attempt now oc (delay_ms dec) (retry_at now dec) a)
          (release_lease now (ao_leaseStatus oc) l) (settled_job now dec j)"
proof -
  note D = db_okD [OF ok] and fd = fencedD [OF F]
  let ?a = "finish_attempt now oc (delay_ms dec) (retry_at now dec) a" and ?l = "release_lease now (ao_leaseStatus oc) l"
  have xa: "isExecutingAttemptStatus (a_status a)"
    using live_triple_executing [OF D(2) fd(1)] by simp
  have c: "close_attempt (finish_attempt now oc (delay_ms dec) (retry_at now dec)) (ao_outcomeRequestID oc) (ao_leaseStatus oc) now f d
      = Inr (close_rows ?a ?l d)"
    using close_attempt_ok [OF D(1) F _ xa t] by (simp add: finish_attempt_def)
  have jobs: "db_jobs (close_rows ?a ?l d) = db_jobs d"
    by (simp add: close_rows_def)
  note sj = setJobStatus_ok [OF D(1) fd(8) x jobs] and rq = requeueJob_ok [OF D(1) fd(8) x jobs]
  have gen: "0 \<le> j_generation j"
    using D(3) fd(8) by (auto simp: rows_ok_def job_ok_def)
  have nd: "lookup d_job_id (db_dlq d) (JobID f) = None"
    using dlq_dead [OF D(6) fd(8)] x by (auto simp: lookup_None_iff isExecutingJobStatus_def)
  have here: "get_job (d\<lparr> db_jobs := put j_id (requeue_row now j) (db_jobs d) \<rparr>) (JobID f) \<noteq> None"
    using fd(4,8) by (simp add: lookup_put_apply requeue_row_def)
  show ?thesis
    using c sj rq gen nd here fr fd(4,5,11,16,17) dec
    by (auto simp: finalizeAttempt_def settle_job_def Let_def finalized_def settled_job_def retry_at_def wait_row_def
        set_status_def requeue_row_def InsertWorkAvailableTx_def InsertDLQEntryTx_def fresh_def decision_fits_def
        close_rows_def work_available_def lookup_put_apply)
qed

lemma finalizeCancellation_ok:
  assumes ok: "db_ok d" and F: "fenced d scope now f st l a j" and x: "j_status j = StatusCancelRequested"
    and t: "\<not> outcome_id_taken oid (a_id a) d"
  shows "\<exists>res d'. finalizeCancellation st f oid ls d = Inr (res, d')
     \<and> finalized ti d d' (cancel_attempt now oid a) (release_lease now ls l) (set_status now StatusCanceled j)"
proof -
  note D = db_okD [OF ok] and fd = fencedD [OF F]
  have xa: "isExecutingAttemptStatus (a_status a)"
    using live_triple_executing [OF D(2) fd(1)] by simp
  have c: "close_attempt (cancel_attempt now oid) oid ls now f d = Inr (close_rows (cancel_attempt now oid a) (release_lease now ls l) d)"
    using close_attempt_ok [OF D(1) F _ xa t] by (simp add: cancel_attempt_def)
  have n: "count_where (\<lambda>r. j_id r = JobID f \<and> j_status r = StatusCancelRequested) (db_jobs d) = 1"
    using D(1) fd(8) x by (simp add: keys_ok_def count_where_key)
  have "upd_where (\<lambda>r. j_id r = JobID f \<and> j_status r = StatusCancelRequested)
      (\<lambda>r. r\<lparr> j_status := StatusCanceled, j_updated_at := now \<rparr>) (db_jobs d) = put j_id (set_status now StatusCanceled j) (db_jobs d)"
    using upd_job [OF D(1) fd(8), of "\<lambda>r. j_status r = StatusCancelRequested"] x by (simp add: set_status_def)
  then show ?thesis
    using c n fd(11) by (simp add: finalizeCancellation_def Let_def close_rows_def finalized_def)
qed

lemma finalizeAttempt_result:
  assumes ok: "db_ok d" and F: "fenced d scope now f st l a j" and x: "isExecutingJobStatus (j_status j)"
    and r: "finalizeAttempt ti st f oc dec d = Inr (res, d')"
  shows "finalized ti d d' (finish_attempt now oc (delay_ms dec) (retry_at now dec) a)
          (release_lease now (ao_leaseStatus oc) l) (settled_job now dec j)"
    and "res = \<lparr> out_JobID = JobID f, out_JobStatus = j_status (settled_job now dec j), out_AttemptStatus = ao_status oc,
          out_RetryAt = retry_at now dec, out_RetryDelay = map_option (\<lambda>ms. ms * Millisecond) (delay_ms dec),
          out_DeadLetterReason = (if Retry dec then ReasonOther [] else DeadLetterReason dec), out_Replayed = False \<rparr>"
proof -
  note D = db_okD [OF ok] and fd = fencedD [OF F]
  let ?a = "finish_attempt now oc (delay_ms dec) (retry_at now dec) a" and ?l = "release_lease now (ao_leaseStatus oc) l"
  obtain d1 where c1: "close_attempt (finish_attempt now oc (delay_ms dec) (retry_at now dec)) (ao_outcomeRequestID oc)
      (ao_leaseStatus oc) now f d = Inr d1"
    using r fd(11) by (auto simp: finalizeAttempt_def Let_def split: sum.splits)
  have c: "close_attempt (finish_attempt now oc (delay_ms dec) (retry_at now dec)) (ao_outcomeRequestID oc) (ao_leaseStatus oc) now f d
      = Inr (close_rows ?a ?l d)"
    using c1 close_attempt_put(1) [OF D(1) F _ c1] by (simp add: finish_attempt_def)
  have jobs: "db_jobs (close_rows ?a ?l d) = db_jobs d"
    by (simp add: close_rows_def)
  note sj = setJobStatus_ok [OF D(1) fd(8) x jobs] and rq = requeueJob_ok [OF D(1) fd(8) x jobs]
  note unf = finalizeAttempt_def settle_job_def Let_def settled_job_def retry_at_def wait_row_def
    set_status_def requeue_row_def InsertWorkAvailableTx_def InsertDLQEntryTx_def close_rows_def work_available_def
  show "finalized ti d d' ?a ?l (settled_job now dec j)"
    using r c sj rq fd(4,5,11,16,17) by (auto simp: unf finalized_def split: if_splits)
  show "res = \<lparr> out_JobID = JobID f, out_JobStatus = j_status (settled_job now dec j), out_AttemptStatus = ao_status oc,
          out_RetryAt = retry_at now dec, out_RetryDelay = map_option (\<lambda>ms. ms * Millisecond) (delay_ms dec),
          out_DeadLetterReason = (if Retry dec then ReasonOther [] else DeadLetterReason dec), out_Replayed = False \<rparr>"
    using r c sj rq fd(4,5,11,16,17) by (auto simp: unf split: if_splits)
qed

section \<open>A fence locks again\<close>

lemma run_queues: "db_ok d \<Longrightarrow> db_queues (run cfg rs d) = db_queues d"
proof (induction rs arbitrary: d)
  case (Cons r rs)
  have "db_ok (exec cfg r d)" and "db_queues (exec cfg r d) = db_queues d"
    using exec_moves [OF Cons.prems, of cfg r] db_ok_moves [OF _ Cons.prems] moves_queues Cons.prems by auto
  then show ?case
    using Cons.IH [of "exec cfg r d"] by (simp add: run_def)
qed (simp add: run_def)

lemma lock_lease_status:
  "lockAuthorityRows now scope f d = Inr st \<Longrightarrow> get_lease d (LeaseID f) = Some l \<Longrightarrow> st_leaseStatus st = l_status l"
  by (auto elim!: lockAuthorityRowsE)

lemma lock_evolves:
  assumes ok: "db_ok d" and lk: "lockAuthorityRows now scope f d = Inr st"
  obtains s j a l where "lockAuthorityRows now2 scope f (run cfg rs d) = Inr (fence_state_of scope now2 s j a l)"
    and "get_attempt (run cfg rs d) (AttemptID f) = Some a" and "get_lease (run cfg rs d) (LeaseID f) = Some l"
    and "get_job (run cfg rs d) (JobID f) = Some j"
  using lk
proof (rule lockAuthorityRowsE)
  fix q ss j a l
  assume l: "get_lease d (LeaseID f) = Some l" "lease_matches scope f l" and q: "get_queue d (l_queue l) = Some q"
    and ss: "get_session d (SessionID f) = Some ss" "s_worker_id ss = WorkerID f" "s_scope ss = scope"
    and j: "get_job d (JobID f) = Some j" "j_scope j = scope" and a: "get_attempt d (AttemptID f) = Some a" "attempt_matches scope f a"
  obtain l' where l': "get_lease (run cfg rs d) (LeaseID f) = Some l'" "lease_le l l'"
    using lease_columns.row_steps [OF run_steps ok l(1)] by blast
  obtain a' where a': "get_attempt (run cfg rs d) (AttemptID f) = Some a'" "attempt_le a a'"
    using attempt_columns.row_steps [OF run_steps ok a(1)] by blast
  obtain j' where j': "get_job (run cfg rs d) (JobID f) = Some j'" "job_le j j'"
    using job_columns.row_steps [OF run_steps ok j(1)] by blast
  obtain s' where s': "get_session (run cfg rs d) (SessionID f) = Some s'" "session_kept ss s'"
    using session_columns.row_steps [OF run_steps ok ss(1)] by blast
  have "lease_matches scope f l'" "l_queue l' = l_queue l"
    using l(2) l'(2) by (simp_all add: lease_matches_def lease_le_def lease_identity_def)
  moreover have "attempt_matches scope f a'"
    using a(2) a'(2) by (simp add: attempt_matches_def attempt_le_def attempt_identity_def)
  moreover have "j_scope j' = scope"
    using j(2) j'(2) by (simp add: job_le_def job_definition_def)
  moreover have "s_worker_id s' = WorkerID f" "s_scope s' = scope"
    using ss(2,3) s'(2) by (simp_all add: session_kept_def)
  moreover have "get_queue (run cfg rs d) (l_queue l) = Some q"
    using q run_queues [OF ok] by simp
  ultimately have "lockAuthorityRows now2 scope f (run cfg rs d) = Inr (fence_state_of scope now2 s' j' a' l')"
    using l'(1) a'(1) j'(1) s'(1) by (simp add: lockAuthorityRows_def)
  then show thesis
    using that l'(1) a'(1) j'(1) by blast
qed

end
