(* ===== verification/Safety.thy ===== *)
theory Safety
  imports Scenario Settlement
begin

text \<open>
  Safety of the control plane as a whole: what holds in every database that some interleaving of
  requests can produce, and what no later request can undo.
\<close>

definition result_ref0 :: ResultRef where
  "result_ref0 = \<lparr> rr_Location = LocationInline, rr_Inline = Some ''1'', rr_Bucket = [], rr_Key = [], rr_SizeBytes = 1,
     rr_Checksum = [] \<rparr>"

section \<open>Fencing\<close>

text \<open>The fence a worker's request presents.\<close>

fun request_fence :: "request \<Rightarrow> Fence option" where
  "request_fence (StartReq now scope f) = Some f"
| "request_fence (SucceedReq now scope f res) = Some f"
| "request_fence (FailReq ti scope r) = Some (fr_Fence r)"
| "request_fence (AckCancelReq now scope a) = Some (ca_Fence a)"
| "request_fence (RenewReq now scope r) = Some (rq_Fence r)"
| "request_fence _ = None"

lemma fenced_out:
  assumes l: "get_lease d (LeaseID f) = Some l" "l_status l \<noteq> LeaseActive" and r: "request_fence r = Some f"
  shows "exec cfg r d = d"
proof -
  have un: "\<not> leaseUsable st" if "lockAuthorityRows now scope f d = Inr st" for now scope st
    using lock_lease_status [OF that l(1)] l(2) by (simp add: leaseUsable_def)
  have un': "\<not> leaseUsable st" if "lockFence now scope f d = Inr st" for now scope st
    using that un by (blast elim: lockFenceE)
  show ?thesis
    using r
  proof (cases r)
    case (StartReq now scope g)
    then show ?thesis
      using r un' by (auto simp: Start_def split: option.split sum.split)
  next
    case (SucceedReq now scope g res)
    then show ?thesis
      using r un by (auto simp: Succeed_def Let_def split: option.split sum.split)
  next
    case (FailReq ti scope rep)
    then show ?thesis
      using r un by (auto simp: Fail_def split: option.split sum.split)
  next
    case (AckCancelReq now scope a)
    then show ?thesis
      using r un by (auto simp: AcknowledgeCancellation_def split: option.split sum.split)
  next
    case (RenewReq now scope q)
    then show ?thesis
      using r un' by (auto simp: RenewLease_def split: option.split sum.split)
  qed simp_all
qed

section \<open>Exclusive authority\<close>

lemma authority_exclusive:
  assumes ok: "db_ok d" and j: "get_job d x = Some j"
  shows "held (j_status j) \<longleftrightarrow> (\<exists>!l. l \<in> set (db_leases d) \<and> l_job_id l = x \<and> l_status l = LeaseActive)"
proof -
  note D = db_okD [OF ok]
  have mem: "l \<in> set (db_leases d) \<longleftrightarrow> get_lease d (l_id l) = Some l" for l
    using D(1) lookup_in_set [of l_id "db_leases d" l] by (simp add: keys_ok_def)
  show ?thesis
  proof
    assume "held (j_status j)"
    then obtain i l where l: "get_lease d i = Some l" "l_job_id l = x" "l_status l = LeaseActive"
      using auth_okD(5) [OF D(2) j] by blast
    show "\<exists>!l. l \<in> set (db_leases d) \<and> l_job_id l = x \<and> l_status l = LeaseActive"
    proof (rule ex1I [of _ l])
      show "l \<in> set (db_leases d) \<and> l_job_id l = x \<and> l_status l = LeaseActive"
        using l lookup_SomeD [OF l(1)] by simp
      show "m = l" if m: "m \<in> set (db_leases d) \<and> l_job_id m = x \<and> l_status m = LeaseActive" for m
        using auth_okD(3) [OF D(2), of "l_id m" m i l] m l mem [of m] by auto
    qed
  next
    assume "\<exists>!l. l \<in> set (db_leases d) \<and> l_job_id l = x \<and> l_status l = LeaseActive"
    then obtain l where "l \<in> set (db_leases d)" "l_job_id l = x" "l_status l = LeaseActive"
      by blast
    then show "held (j_status j)"
      using auth_active_held [OF D(2), of "l_id l" l j] mem [of l] j by simp
  qed
qed

section \<open>Properties\<close>

text \<open>
  C1: After any sequence of requests, from any number of clients and in any interleaving, the
  database satisfies the whole invariant: keys and foreign keys, the CHECK constraints, exclusive
  authority, attempt budgets, dead-letter entries, results, session and capacity limits,
  notification coverage, unique request identities and consistent idempotency records.
\<close>

theorem control_plane_invariant: "db_ok (run cfg rs initial_db)"
  by (rule run_ok [OF initial_db_ok])

text \<open>
  C2: A terminal job (SUCCEEDED, CANCELED or DEAD_LETTERED) is immutable: its row is the same after
  any later sequence of requests.
\<close>

theorem terminal_job_immutable:
  assumes "reach cfg d" and "get_job d x = Some j" and "Terminal (j_status j)"
  shows "get_job (run cfg rs d) x = Some j"
  using job_rows.final_steps [OF run_steps reach_ok [OF assms(1)] assms(2,3)] .

theorem terminal_job_immutable_witness:
  "get_job (run cfg0 [CancelReq 9 ''s'' 10, PromoteReq 9 9 12 10] (run cfg0 [CancelReq 5 ''s'' 10] queued_db)) 10
     = Some (job_row0\<lparr> j_status := StatusCanceled, j_updated_at := 5, j_cancel_requested_at := Some 5 \<rparr>)"
proof -
  have "get_job (run cfg0 [CancelReq 5 ''s'' 10] queued_db) 10
      = Some (job_row0\<lparr> j_status := StatusCanceled, j_updated_at := 5, j_cancel_requested_at := Some 5 \<rparr>)"
    by code_simp
  then show ?thesis
    by (intro terminal_job_immutable [OF reach_run [OF reach_queued]]) simp_all
qed





text \<open>
  C5: Attempts stay within the budget. The attempts of a job are numbered 1, 2, 3 and so on without
  gaps, there are never more than max_attempts of them, and a job that waits for a worker (PENDING,
  QUEUED or RETRY_WAIT) has at least one left.
\<close>

theorem attempt_budget:
  assumes "reach cfg d" and "get_job d x = Some j"
  shows "map a_number (attempts_of d x) = [1..int (length (attempts_of d x))]
    \<and> int (length (attempts_of d x)) \<le> j_max_attempts j
    \<and> (j_status j \<in> {StatusPending, StatusQueued, StatusRetryWait} \<longrightarrow> int (length (attempts_of d x)) < j_max_attempts j)"
  using budget_okD(1-3) [OF db_okD(5) [OF reach_ok [OF assms(1)]] assms(2)] by blast

theorem attempt_budget_witness:
  "map a_number (attempts_of running_db 10) = [1..1] \<and> int (length (attempts_of running_db 10)) \<le> 2"
proof -
  have "get_job running_db 10 = Some job_row0" "length (attempts_of running_db 10) = 1" "j_max_attempts job_row0 = 2"
    by code_simp+
  then show ?thesis
    using attempt_budget [OF reach_running, of 10 job_row0] by simp
qed





text \<open>
  C8: Every QUEUED job has been announced. The generations of the work notifications of a job are
  exactly 1 up to its current generation, which is positive when the job is QUEUED, and at most one
  notification of each generation is still pending.
\<close>

theorem queued_job_announced:
  assumes "reach cfg d" and "get_job d x = Some j"
  shows "e_generation ` {e \<in> set (db_outbox d). e_job_id e = x} = {1..j_generation j}
    \<and> (j_status j = StatusQueued \<longrightarrow> 1 \<le> j_generation j) \<and> pending_unique (db_outbox d)"
proof -
  note D = db_okD [OF reach_ok [OF assms(1)]]
  have "job_ok j"
    using D(3) assms(2) unfolding rows_ok_def by blast
  moreover have "announced (db_outbox d) x = {1..j_generation j}"
    using D(10) assms(2) by (simp add: notify_ok_def generation_in_Some)
  ultimately show ?thesis
    using D(10) by (simp add: job_ok_def notify_ok_def announced_def)
qed

theorem queued_job_announced_witness:
  "e_generation ` {e \<in> set (db_outbox queued_db). e_job_id e = 10} = {1..1} \<and> pending_unique (db_outbox queued_db)"
proof -
  have "get_job queued_db 10 = Some (job_row0\<lparr> j_status := StatusQueued, j_updated_at := 1 \<rparr>)" "j_generation job_row0 = 1"
    by code_simp+
  then show ?thesis
    using queued_job_announced [OF reach_queued, of 10 "job_row0\<lparr> j_status := StatusQueued, j_updated_at := 1 \<rparr>"] by simp
qed



text \<open>
  C10: A result exists only for success. Each stored result belongs to a SUCCEEDED job and names the
  SUCCEEDED attempt of that job that produced it, and a job has at most one result.
\<close>

theorem results_only_for_success:
  assumes "reach cfg d" and "r \<in> set (db_results d)"
  shows "(\<exists>j a. get_job d (r_job_id r) = Some j \<and> j_status j = StatusSucceeded
      \<and> get_attempt d (r_attempt_id r) = Some a \<and> a_status a = AttemptSucceeded \<and> a_job_id a = r_job_id r)
    \<and> (\<forall>r'\<in>set (db_results d). r_job_id r' = r_job_id r \<longrightarrow> r' = r)"
proof -
  note D = db_okD [OF reach_ok [OF assms(1)]]
  have "result_ok d r"
    using D(7) assms(2) by (simp add: results_ok_def)
  moreover have "r' = r" if "r' \<in> set (db_results d)" "r_job_id r' = r_job_id r" for r'
    using D(1) assms(2) that lookup_in_set [of r_job_id "db_results d" r] lookup_in_set [of r_job_id "db_results d" r']
    by (simp add: keys_ok_def)
  ultimately show ?thesis
    by (auto simp: result_ok_def)
qed

theorem results_only_for_success_witness:
  "\<exists>j a. get_job (run cfg0 [SucceedReq 4 ''s'' fence0 (Some result_ref0)] running_db) 10 = Some j \<and> j_status j = StatusSucceeded
     \<and> get_attempt (run cfg0 [SucceedReq 4 ''s'' fence0 (Some result_ref0)] running_db) 20 = Some a \<and> a_status a = AttemptSucceeded"
proof -
  let ?rs = "[SucceedReq 4 ''s'' fence0 (Some result_ref0)]"
  have r: "db_results (run cfg0 ?rs running_db) = [result_of_ref ''s'' fence0 result_ref0]"
    and i: "r_job_id (result_of_ref ''s'' fence0 result_ref0) = 10" "r_attempt_id (result_of_ref ''s'' fence0 result_ref0) = 20"
    by code_simp+
  show ?thesis
    using results_only_for_success [OF reach_run [OF reach_running, of ?rs], of "result_of_ref ''s'' fence0 result_ref0"]
    unfolding i by (auto simp: r)
qed



text \<open>
  C12: The operations refine the lifecycle specification. Every request, executed in a reachable
  database, commits nothing or performs exactly one transition of the abstract lifecycle.
\<close>

theorem requests_refine_lifecycle:
  assumes "reach cfg d"
  shows "exec cfg r d = d \<or> moves d (exec cfg r d)"
  by (rule exec_moves [OF reach_ok [OF assms]])

theorem requests_refine_lifecycle_witness:
  "exec cfg0 (SucceedReq 4 ''s'' fence0 None) running_db = running_db
    \<or> moves running_db (exec cfg0 (SucceedReq 4 ''s'' fence0 None) running_db)"
  by (rule requests_refine_lifecycle [OF reach_running])

text \<open>
  C13: An execution deadline is set once. From the moment an attempt has a deadline, its start and its
  deadline are the same after any later requests, whatever renewals or replayed starts happen.
\<close>

theorem deadline_set_once:
  assumes "reach cfg d" and "get_attempt d x = Some a" and "a_timeout_at a = Some t"
  shows "\<exists>a'. get_attempt (run cfg rs d) x = Some a' \<and> a_timeout_at a' = Some t \<and> a_started_at a' = a_started_at a"
  using attempt_columns.row_steps [OF run_steps reach_ok [OF assms(1)] assms(2)] assms(3) by (auto simp: attempt_le_def)

theorem deadline_set_once_witness:
  "\<exists>a'. get_attempt (run cfg0 [RenewReq 5 ''s'' \<lparr> rq_Fence = fence0, rq_RenewalRequestID = 70, rq_ExpectedVersion = 0 \<rparr>,
       StartReq 6 ''s'' fence0] running_db) 20 = Some a' \<and> a_timeout_at a' = Some 10000003 \<and> a_started_at a' = Some 3"
proof -
  have "get_attempt running_db 20 = Some attempt_row0" "a_timeout_at attempt_row0 = Some 10000003" "a_started_at attempt_row0 = Some 3"
    by code_simp+
  then show ?thesis
    using deadline_set_once [OF reach_running] by metis
qed

end
