(* ===== verification/Dispatch.thy ===== *)
theory Dispatch
  imports Scenario Settlement
begin

text \<open>
  What a claim delivers: the best eligible job when there is one, an answer a worker may acknowledge
  its notification on, and the same work again when the request is repeated.
\<close>

section \<open>Selection\<close>

text \<open>The session may claim from the queue now.\<close>

definition may_claim :: "string \<Rightarrow> ClaimRequest \<Rightarrow> queue_row \<Rightarrow> session_row \<Rightarrow> db \<Rightarrow> bool" where
  "may_claim scope req q s d = (get_queue d (cr_Queue req) = Some q \<and> get_session d (cr_SessionID req) = Some s
     \<and> s_worker_id s = cr_WorkerID req \<and> s_scope s = scope \<and> s_status s = SessionHealthy
     \<and> s_worker_group s = q_worker_group q
     \<and> int (active_for_queue d (cr_Queue req)) < q_max_concurrency q
     \<and> int (active_for_worker d (cr_WorkerID req)) < s_concurrency_limit s)"

lemma queued_no_active:
  assumes ok: "db_ok d" and j: "get_job d x = Some j" "j_status j = StatusQueued" and l: "l \<in> set (db_leases d)" "l_job_id l = x"
  shows "l_status l \<noteq> LeaseActive"
proof
  assume a: "l_status l = LeaseActive"
  have "get_lease d (l_id l) = Some l"
    using l(1) db_okD(1) [OF ok] lookup_in_set [of l_id "db_leases d" l] by (simp add: keys_ok_def)
  then obtain b k where "get_job d (l_job_id l) = Some k" "coupled l b k"
    using auth_okD(1) [OF db_okD(2) [OF ok]] by blast
  then show False
    using a j l(2) by (auto simp: coupled_def live_def)
qed

lemma lease_attempt_exists:
  assumes ok: "db_ok d" and l: "l \<in> set (db_leases d)"
  shows "get_attempt d (l_attempt_id l) \<noteq> None"
proof -
  have "get_lease d (l_id l) = Some l"
    using l db_okD(1) [OF ok] lookup_in_set [of l_id "db_leases d" l] by (simp add: keys_ok_def)
  then show ?thesis
    using auth_okD(1) [OF db_okD(2) [OF ok]] by blast
qed

lemma lookupClaim_None:
  assumes ok: "db_ok d" and n: "lookupClaim cid d = None" and l: "l \<in> set (db_leases d)"
  shows "l_claim_request_id l \<noteq> cid"
proof
  assume c: "l_claim_request_id l = cid"
  then obtain m where m: "find (\<lambda>l. l_claim_request_id l = cid) (db_leases d) = Some m" "m \<in> set (db_leases d)"
    using l by (cases "find (\<lambda>l. l_claim_request_id l = cid) (db_leases d)") (auto simp: find_None_iff find_Some_iff)
  have "get_lease d (l_id m) = Some m"
    using m(2) db_okD(1) [OF ok] lookup_in_set [of l_id "db_leases d" m] by (simp add: keys_ok_def)
  then obtain a j where "get_attempt d (l_attempt_id m) = Some a" "get_job d (l_job_id m) = Some j" "bound m a j"
    using auth_okD(1) [OF db_okD(2) [OF ok]] by blast
  then show False
    using n m(1) by (simp add: lookupClaim_def bound_def)
qed

lemma reserve_ok:
  assumes ok: "db_ok d" and j: "get_job d (j_id j) = Some j" "j_status j = StatusQueued" "j_scope j = scope"
    and fresh: "get_attempt d aid = None" "get_lease d lid = None" and n: "lookupClaim (cr_ClaimRequestID req) d = None"
    and dur: "1000 \<le> dur"
  shows "reserve ck dur aid lid scope req j d = Inr (\<lparr> res_Disposition = Claimed,
      res_Assignment = Some (new_assignment (ck_issue ck) dur lid aid scope req j (int (length (attempts_of d (j_id j))) + 1)),
      res_Replayed = False \<rparr>,
    d\<lparr> db_attempts := db_attempts d @ [new_attempt (ck_start ck) aid scope req j (int (length (attempts_of d (j_id j))) + 1)],
       db_leases := db_leases d @ [new_lease (ck_issue ck) dur lid aid scope req j],
       db_jobs := put j_id (set_status (ck_issue ck) StatusLeased j) (db_jobs d) \<rparr>)"
proof -
  note D = db_okD [OF ok]
  have num: "next_attempt_number d (j_id j) = int (length (attempts_of d (j_id j))) + 1"
    by (rule next_attempt_number_upto [OF budget_okD(1) [OF D(5) j(1)]])
  have one: "count_where (\<lambda>r. j_id r = j_id j \<and> j_scope r = scope \<and> j_status r = StatusQueued) (db_jobs d) = 1"
    using D(1) j by (simp add: keys_ok_def count_where_key)
  have upd: "upd_where (\<lambda>r. j_id r = j_id j \<and> j_scope r = scope \<and> j_status r = StatusQueued)
      (\<lambda>r. r\<lparr> j_status := StatusLeased, j_updated_at := ck_issue ck \<rparr>) (db_jobs d)
    = put j_id (set_status (ck_issue ck) StatusLeased j) (db_jobs d)"
    using upd_job [OF D(1) j(1), of "\<lambda>r. j_scope r = scope \<and> j_status r = StatusQueued"] j by (simp add: set_status_def)
  have free: "\<not> list_ex (\<lambda>l. l_job_id l = j_id j \<and> l_status l = LeaseActive) (db_leases d)"
    "\<not> list_ex (\<lambda>l. l_claim_request_id l = cr_ClaimRequestID req \<or> l_attempt_id l = aid) (db_leases d)"
    using queued_no_active [OF ok j(1,2)] lookupClaim_None [OF ok n] lease_attempt_exists [OF ok] fresh(1)
    unfolding list_ex_iff by blast+
  have "ck_issue ck < add_dur (ck_issue ck) dur"
    using add_dur_strict [OF dur] .
  then show ?thesis
    using fresh one free by (simp add: reserve_def Let_def num upd new_lease_def)
qed

text \<open>
  C14: a claim is served when it can be. In every reachable database in which the session may claim and
  some job is eligible for it, the claim succeeds; it takes an eligible job that no eligible job
  precedes by priority, due time, creation time and id, numbers the attempt after the job's earlier
  ones, and leaves the job LEASED under a new active lease.
\<close>

theorem claim_takes_best:
  assumes "reach cfg d" and "ValidateClaim req = None" and "1000 \<le> cfg_leaseDuration cfg"
    and "lookupClaim (cr_ClaimRequestID req) d = None" and "may_claim scope req q s d"
    and "list_ex (eligible (ck_select ck) scope (cr_Queue req) s d) (db_jobs d)"
    and "get_attempt d aid = None" and "get_lease d lid = None"
  shows "\<exists>j a d'. j \<in> set (db_jobs d) \<and> eligible (ck_select ck) scope (cr_Queue req) s d j
     \<and> (\<forall>k\<in>set (db_jobs d). eligible (ck_select ck) scope (cr_Queue req) s d k \<longrightarrow> claim_order j \<le> claim_order k)
     \<and> Claim ck (cfg_leaseDuration cfg) aid lid scope req d
         = Inr (\<lparr> res_Disposition = Claimed, res_Assignment = Some a, res_Replayed = False \<rparr>, d')
     \<and> as_JobID a = j_id j \<and> as_Payload a = j_payload j \<and> as_AttemptNumber a = int (length (attempts_of d (j_id j))) + 1
     \<and> get_job d' (j_id j) = Some (set_status (ck_issue ck) StatusLeased j)
     \<and> get_lease d' lid = Some (new_lease (ck_issue ck) (cfg_leaseDuration cfg) lid aid scope req j)
     \<and> get_attempt d' aid = Some (new_attempt (ck_start ck) aid scope req j (as_AttemptNumber a))"
proof -
  note ok = reach_ok [OF assms(1)]
  let ?p = "eligible (ck_select ck) scope (cr_Queue req) s d"
  obtain j rest where sel: "select_ordered ?p claim_order 1 (db_jobs d) = j # rest"
    using assms(6) select_ordered_Nil_iff [of 1 ?p claim_order "db_jobs d"]
    by (cases "select_ordered ?p claim_order 1 (db_jobs d)") (auto simp: list_ex_iff)
  have j: "j \<in> set (db_jobs d)" "?p j"
    using set_select_ordered [of j ?p claim_order 1 "db_jobs d"] sel by simp_all
  have best: "claim_order j \<le> claim_order k" if "k \<in> set (db_jobs d)" "?p k" for k
    by (rule select_ordered_head_min [OF sel that])
  have row: "get_job d (j_id j) = Some j" "j_status j = StatusQueued" "j_scope j = scope"
    using j db_okD(1) [OF ok] lookup_in_set [of j_id "db_jobs d" j] by (auto simp: keys_ok_def eligible_def due_queued_def)
  note res = reserve_ok [OF ok row assms(7,8,4,3)]
  have "Claim ck (cfg_leaseDuration cfg) aid lid scope req d = reserve ck (cfg_leaseDuration cfg) aid lid scope req j d"
    using assms(2-5) sel by (simp add: Claim_def may_claim_def select_and_reserve_def)
  then show ?thesis
    using j best res assms(7,8) row(1)
    by (intro exI [of _ j]) (auto simp: new_assignment_def lookup_put_apply lookup_append set_status_def new_lease_def new_attempt_def)
qed

theorem claim_takes_best_witness:
  "\<exists>a d'. Claim (tick 2) (cfg_leaseDuration cfg0) 20 30 ''s'' (claim0 11) queued_db
      = Inr (\<lparr> res_Disposition = Claimed, res_Assignment = Some a, res_Replayed = False \<rparr>, d')
     \<and> as_JobID a = 10 \<and> as_AttemptNumber a = 1"
proof -
  have v: "ValidateClaim (claim0 11) = None" and n: "lookupClaim (cr_ClaimRequestID (claim0 11)) queued_db = None"
    and m: "may_claim ''s'' (claim0 11) \<lparr> q_name = ''default'', q_max_concurrency = 100, q_worker_group = ''default'' \<rparr>
      session_row0 queued_db"
    and e: "list_ex (eligible (ck_select (tick 2)) ''s'' (cr_Queue (claim0 11)) session_row0 queued_db) (db_jobs queued_db)"
    and f: "get_attempt queued_db 20 = None" "get_lease queued_db 30 = None"
    by code_simp+
  have d: "1000 \<le> cfg_leaseDuration cfg0"
    by (simp add: cfg0_def Second_def)
  have only: "j_id j = 10 \<and> length (attempts_of queued_db (j_id j)) = 0" if "j \<in> set (db_jobs queued_db)" for j
    using that by (simp add: queued_db_def running_db_def job_row0_def attempts_of_def)
  show ?thesis
    using claim_takes_best [OF reach_queued v d n m e f] only by fastforce
qed

section \<open>Acknowledgement\<close>

lemma lookupClaim_lease:
  assumes "lookupClaim cid d = Some a"
  shows "list_ex (\<lambda>l. l_claim_request_id l = cid) (db_leases d)"
  using assms by (auto simp: lookupClaim_def list_ex_iff find_Some_iff split: option.splits)

lemma reserve_lease:
  assumes "reserve ck dur aid lid scope req j d = Inr (r, d')"
  shows "list_ex (\<lambda>l. l_claim_request_id l = cr_ClaimRequestID req) (db_leases d')"
  using assms by (auto simp: reserve_def Let_def new_lease_def split: if_splits)

lemma Claim_acknowledgeable:
  assumes "Claim ck dur aid lid scope req d = Inr (r, d')" and "SafeToAcknowledge r"
  shows "list_ex (\<lambda>l. l_claim_request_id l = cr_ClaimRequestID req) (db_leases d')
     \<or> (d' = d \<and> \<not> list_ex (due_queued (ck_exists ck) scope (cr_Queue req)) (db_jobs d))"
proof -
  have sel: ?thesis if "select_and_reserve ck dur aid lid scope req s d = Inr (r, d')" for s
    using that assms(2) reserve_lease [of ck dur aid lid scope req _ d r d']
    by (auto simp: select_and_reserve_def SafeToAcknowledge_def noClaim_def split: list.splits if_splits)
  show ?thesis
    using assms sel lookupClaim_lease [of "cr_ClaimRequestID req" d]
    by (auto simp: Claim_def Let_def SafeToAcknowledge_def noClaim_def split: option.splits if_splits)
qed



section \<open>Replay\<close>

text \<open>Two assignments of the same work, which differ at most in the lease window.\<close>

definition same_work :: "Assignment \<Rightarrow> Assignment \<Rightarrow> bool" where
  "same_work a b = (b\<lparr> as_LeaseExpiresAt := 0, as_LeaseRemaining := 0 \<rparr> = a\<lparr> as_LeaseExpiresAt := 0, as_LeaseRemaining := 0 \<rparr>)"

lemma same_work_trans: "same_work a b \<Longrightarrow> same_work b c \<Longrightarrow> same_work a c"
  by (simp add: same_work_def)

lemma same_work_remaining: "same_work a (setLeaseRemaining now b) = same_work a b"
  by (simp add: same_work_def setLeaseRemaining_def)

lemma same_workD:
  assumes "same_work a b"
  shows "as_Scope b = as_Scope a" "as_Queue b = as_Queue a" "as_WorkerID b = as_WorkerID a" "as_SessionID b = as_SessionID a"
proof -
  have "as_Scope (b\<lparr> as_LeaseExpiresAt := 0, as_LeaseRemaining := 0 \<rparr>) = as_Scope (a\<lparr> as_LeaseExpiresAt := 0, as_LeaseRemaining := 0 \<rparr>)"
    "as_Queue (b\<lparr> as_LeaseExpiresAt := 0, as_LeaseRemaining := 0 \<rparr>) = as_Queue (a\<lparr> as_LeaseExpiresAt := 0, as_LeaseRemaining := 0 \<rparr>)"
    "as_WorkerID (b\<lparr> as_LeaseExpiresAt := 0, as_LeaseRemaining := 0 \<rparr>) = as_WorkerID (a\<lparr> as_LeaseExpiresAt := 0, as_LeaseRemaining := 0 \<rparr>)"
    "as_SessionID (b\<lparr> as_LeaseExpiresAt := 0, as_LeaseRemaining := 0 \<rparr>) = as_SessionID (a\<lparr> as_LeaseExpiresAt := 0, as_LeaseRemaining := 0 \<rparr>)"
    using assms unfolding same_work_def by (simp_all only:)
  then show "as_Scope b = as_Scope a" "as_Queue b = as_Queue a" "as_WorkerID b = as_WorkerID a" "as_SessionID b = as_SessionID a"
    by simp_all
qed

definition assignment_of :: "lease_row \<Rightarrow> attempt_row \<Rightarrow> job_row \<Rightarrow> Assignment" where
  "assignment_of l a j = \<lparr> as_Scope = a_scope a, as_JobID = j_id j, as_Queue = j_queue j,
     as_JobType = j_job_type j, as_Payload = j_payload j, as_Priority = j_priority j,
     as_TimeoutSeconds = j_timeout_seconds j, as_RequiredCapabilities = j_required_capabilities j,
     as_AttemptID = a_id a, as_AttemptNumber = a_number a, as_LeaseID = l_id l,
     as_LeaseExpiresAt = l_expires_at l, as_LeaseRemaining = 0, as_WorkerID = a_worker_id a, as_SessionID = a_session_id a \<rparr>"

lemma assignment_evolves:
  assumes "lease_le l l'" and "attempt_le a a'" and "job_le j j'"
  shows "same_work (assignment_of l a j) (assignment_of l' a' j')"
  using assms by (simp add: same_work_def assignment_of_def lease_le_def attempt_le_def job_le_def lease_identity_def
      attempt_identity_def job_definition_def)

lemma lookupClaim_iff:
  assumes ok: "db_ok d"
  shows "lookupClaim cid d = Some x \<longleftrightarrow> (\<exists>i l a j. get_lease d i = Some l \<and> l_claim_request_id l = cid
     \<and> get_attempt d (l_attempt_id l) = Some a \<and> get_job d (l_job_id l) = Some j \<and> x = assignment_of l a j)"
  (is "?L \<longleftrightarrow> ?R")
proof
  have kd: "keys_distinct l_id (db_leases d)" "keys_distinct l_claim_request_id (db_leases d)"
    using db_okD(1,11) [OF ok] by (simp_all add: keys_ok_def ids_ok_def)
  have job: "a_job_id a = l_job_id l" if "get_lease d i = Some l" "get_attempt d (l_attempt_id l) = Some a" for i l a
    using auth_okD(1) [OF db_okD(2) [OF ok] that(1)] that(2) by (auto simp: bound_def)
  show ?R if L: ?L
  proof -
    obtain l a j where l: "find (\<lambda>l. l_claim_request_id l = cid) (db_leases d) = Some l"
      and a: "get_attempt d (l_attempt_id l) = Some a" "get_job d (a_job_id a) = Some j" "x = assignment_of l a j"
      using L by (auto simp: lookupClaim_def assignment_of_def split: option.splits)
    have "get_lease d (l_id l) = Some l" "l_claim_request_id l = cid"
      using l lookup_in_set [OF kd(1), of l] by (auto simp: find_Some_iff)
    then show ?thesis
      using a job by metis
  qed
  show ?L if R: ?R
  proof -
    obtain i l a j where l: "get_lease d i = Some l" "l_claim_request_id l = cid"
      and a: "get_attempt d (l_attempt_id l) = Some a" "get_job d (l_job_id l) = Some j" "x = assignment_of l a j"
      using R by blast
    have "find (\<lambda>l. l_claim_request_id l = cid) (db_leases d) = Some l"
      using lookup_SomeD [OF l(1)] l(2) lookup_in_set [OF kd(2), of l] by (simp add: lookup_def)
    then show ?thesis
      using a job [OF l(1) a(1)] by (simp add: lookupClaim_def assignment_of_def)
  qed
qed

lemma lookupClaim_evolves:
  assumes ok: "db_ok d" and x: "lookupClaim cid d = Some x"
  obtains y where "lookupClaim cid (run cfg rs d) = Some y" and "same_work x y"
proof -
  obtain i l a j where l: "get_lease d i = Some l" "l_claim_request_id l = cid" and a: "get_attempt d (l_attempt_id l) = Some a"
    and j: "get_job d (l_job_id l) = Some j" and xe: "x = assignment_of l a j"
    using x lookupClaim_iff [OF ok] by blast
  obtain l' where l': "get_lease (run cfg rs d) i = Some l'" "lease_le l l'"
    using lease_columns.row_steps [OF run_steps ok l(1)] by blast
  obtain a' where a': "get_attempt (run cfg rs d) (l_attempt_id l) = Some a'" "attempt_le a a'"
    using attempt_columns.row_steps [OF run_steps ok a] by blast
  obtain j' where j': "get_job (run cfg rs d) (l_job_id l) = Some j'" "job_le j j'"
    using job_columns.row_steps [OF run_steps ok j] by blast
  have "lookupClaim cid (run cfg rs d) = Some (assignment_of l' a' j')"
    unfolding lookupClaim_iff [OF run_ok [OF ok]] using l' a'(1) j'(1) l(2)
    by (intro exI [of _ i] exI [of _ l'] exI [of _ a'] exI [of _ j']) (auto simp: lease_le_def lease_identity_def)
  then show thesis
    using that assignment_evolves [OF l'(2) a'(2) j'(2)] xe by simp
qed

text \<open>A claim that assigned work left a lease from which the assignment can be read back.\<close>

lemma Claim_assigned:
  assumes ok: "db_ok d" and c: "Claim ck dur aid lid scope req d = Inr (r, d')" and a: "res_Assignment r = Some a"
  obtains x where "lookupClaim (cr_ClaimRequestID req) d' = Some x" and "same_work a x" and "as_Scope x = scope"
    and "as_Queue x = cr_Queue req" and "as_WorkerID x = cr_WorkerID req" and "as_SessionID x = cr_SessionID req"
    and "ValidateClaim req = None" and "0 < dur" and "get_queue d' (cr_Queue req) \<noteq> None"
proof -
  have base: "ValidateClaim req = None" "0 < dur" "get_queue d (cr_Queue req) \<noteq> None"
    using c by (auto simp: Claim_def Let_def split: option.splits if_splits)
  have q': "get_queue d' (cr_Queue req) \<noteq> None"
    using refinesD [OF Claim_refines [OF ok, of ck dur aid lid scope req, unfolded c]] base(3) moves_queues [of d d'] by auto
  have ok': "db_ok d'"
    using refinesD [OF Claim_refines [OF ok, of ck dur aid lid scope req, unfolded c]] ok db_ok_moves by blast
  show thesis
  proof (cases "lookupClaim (cr_ClaimRequestID req) d")
    case (Some x)
    then have "d' = d" "a = setLeaseRemaining (ck_issue ck) x" "\<not> claim_conflicts scope req x"
      "as_WorkerID x = cr_WorkerID req" "as_SessionID x = cr_SessionID req"
      using c a by (auto simp: Claim_def Let_def noClaim_def split: option.splits if_splits)
    then show ?thesis
      using that [OF _ _ _ _ _ _ base(1,2) q'] Some by (auto simp: claim_conflicts_def same_work_def setLeaseRemaining_def)
  next
    case None
    then obtain s where "select_and_reserve ck dur aid lid scope req s d = Inr (r, d')"
      using c a by (auto simp: Claim_def Let_def noClaim_def split: option.splits if_splits)
    then obtain j rest where j: "select_ordered (eligible (ck_select ck) scope (cr_Queue req) s d) claim_order 1 (db_jobs d) = j # rest"
      and res: "reserve ck dur aid lid scope req j d = Inr (r, d')"
      using a by (auto simp: select_and_reserve_def noClaim_def split: list.splits if_splits)
    have e: "j \<in> set (db_jobs d)" "j_queue j = cr_Queue req" "j_scope j = scope" "j_status j = StatusQueued"
      using set_select_ordered [of j "eligible (ck_select ck) scope (cr_Queue req) s d" claim_order 1 "db_jobs d"] j
      by (auto simp: eligible_def due_queued_def)
    have row: "get_job d (j_id j) = Some j"
      using e(1) db_okD(1) [OF ok] lookup_in_set [of j_id "db_jobs d" j] by (simp add: keys_ok_def)
    define n where "n = next_attempt_number d (j_id j)"
    have d': "get_lease d' lid = Some (new_lease (ck_issue ck) dur lid aid scope req j)"
      "get_attempt d' aid = Some (new_attempt (ck_start ck) aid scope req j n)"
      "\<exists>k. get_job d' (j_id j) = Some k \<and> job_definition k = job_definition j"
      "a = new_assignment (ck_issue ck) dur lid aid scope req j n"
      using res a row n_def e(3,4) by (auto simp: reserve_def Let_def new_lease_def new_attempt_def lookup_append lookup_upd
          job_definition_def split: if_splits)
    then obtain k where k: "get_job d' (j_id j) = Some k" "job_definition k = job_definition j"
      by blast
    have "lookupClaim (cr_ClaimRequestID req) d' = Some (assignment_of (new_lease (ck_issue ck) dur lid aid scope req j)
        (new_attempt (ck_start ck) aid scope req j n) k)"
      unfolding lookupClaim_iff [OF ok'] using d'(1,2) k(1) by (intro exI) (auto simp: new_lease_def)
    then show ?thesis
      using that [OF _ _ _ _ _ _ base(1,2) q'] d'(4) k(2) e(2)
      by (auto simp: same_work_def assignment_of_def new_lease_def new_attempt_def new_assignment_def job_definition_def)
  qed
qed

text \<open>
  C19: repeating a claim repeats its answer. Once a claim has assigned work, the same request at any
  later time, after any other requests, either is refused because the session is no longer current or
  is answered with the same job, attempt and lease, and changes nothing.
\<close>

theorem claim_replay_stable:
  assumes "reach cfg d" and "Claim ck (cfg_leaseDuration cfg) aid lid scope req d = Inr (r, d')" and "res_Assignment r = Some a"
  shows "Claim ck2 (cfg_leaseDuration cfg) aid2 lid2 scope req (run cfg rs d') = Inl ErrSessionUnavailable
     \<or> (\<exists>b. Claim ck2 (cfg_leaseDuration cfg) aid2 lid2 scope req (run cfg rs d')
          = Inr (\<lparr> res_Disposition = Claimed, res_Assignment = Some b, res_Replayed = True \<rparr>, run cfg rs d') \<and> same_work a b)"
proof -
  note ok = reach_ok [OF assms(1)]
  obtain x where x: "lookupClaim (cr_ClaimRequestID req) d' = Some x" "same_work a x" "as_Scope x = scope"
    "as_Queue x = cr_Queue req" "as_WorkerID x = cr_WorkerID req" "as_SessionID x = cr_SessionID req"
    "ValidateClaim req = None" "0 < cfg_leaseDuration cfg" "get_queue d' (cr_Queue req) \<noteq> None"
    using Claim_assigned [OF ok assms(2,3)] .
  have ok': "db_ok d'"
    using refinesD [OF Claim_refines [OF ok, of ck "cfg_leaseDuration cfg" aid lid scope req, unfolded assms(2)]] ok db_ok_moves by blast
  obtain y where y: "lookupClaim (cr_ClaimRequestID req) (run cfg rs d') = Some y" "same_work x y"
    using lookupClaim_evolves [OF ok' x(1)] .
  have q: "get_queue (run cfg rs d') (cr_Queue req) \<noteq> None"
    using x(9) run_queues [OF ok'] by simp
  have "same_work a (setLeaseRemaining t y)" for t
    using same_work_trans [OF x(2) y(2)] by (simp add: same_work_remaining)
  then show ?thesis
    using x y q same_workD [OF y(2)] by (auto simp: Claim_def Let_def claim_conflicts_def split: option.splits)
qed

theorem claim_replay_stable_witness:
  "Claim (tick 9) (cfg_leaseDuration cfg0) 21 31 ''s'' (claim0 11) (run cfg0 [CancelReq 8 ''s'' 10] running_db) = Inl ErrSessionUnavailable
     \<or> (\<exists>b. Claim (tick 9) (cfg_leaseDuration cfg0) 21 31 ''s'' (claim0 11) (run cfg0 [CancelReq 8 ''s'' 10] running_db)
          = Inr (\<lparr> res_Disposition = Claimed, res_Assignment = Some b, res_Replayed = True \<rparr>,
              run cfg0 [CancelReq 8 ''s'' 10] running_db)
        \<and> same_work (setLeaseRemaining 7 (assignment_of lease_row0 attempt_row0 job_row0)) b)"
proof -
  have c: "Claim (tick 7) (cfg_leaseDuration cfg0) 21 31 ''s'' (claim0 11) running_db
      = Inr (\<lparr> res_Disposition = Claimed,
          res_Assignment = Some (setLeaseRemaining 7 (assignment_of lease_row0 attempt_row0 job_row0)), res_Replayed = True \<rparr>, running_db)"
    by code_simp
  show ?thesis
    by (rule claim_replay_stable [OF reach_running c]) simp
qed

end
