(* ===== verification/Recovery.thy ===== *)
theory Recovery
  imports Scenario Settlement
begin

text \<open>
  Recovery by the reconciler, as functional and liveness properties: a pass over expired leases or due
  timeouts does not fail, finalises what it selected, and leaves nothing it was meant to recover. The
  verdict on an attempt depends on its rows alone and not on how late the pass came.
\<close>

section \<open>Expired leases\<close>

lemma reconcile_lock:
  assumes ok: "db_ok d" and l: "get_lease d i = Some l" "l_status l = LeaseActive"
  obtains a j st where "lockAuthorityRows now (l_scope l) (lease_fence l) d = Inr st"
    and "fenced d (l_scope l) now (lease_fence l) st l a j" and "live (j_status j) (a_status a)"
proof -
  note D = db_okD [OF ok]
  obtain a j where a: "get_attempt d (l_attempt_id l) = Some a" and j: "get_job d (l_job_id l) = Some j"
    and b: "bound l a j" and c: "coupled l a j"
    using auth_okD(1) [OF D(2) l(1)] by blast
  obtain s where s: "get_session d (l_session_id l) = Some s" "s_worker_id s = l_worker_id l" "s_scope s = l_scope l"
    using D(4) l(1) unfolding refs_ok_def by blast
  have q: "get_queue d (l_queue l) \<noteq> None"
    using D(4) j b unfolding refs_ok_def bound_def by metis
  have i: "l_id l = i" "a_id a = l_attempt_id l" "j_id j = l_job_id l"
    using lookup_key [OF l(1)] lookup_key [OF a] lookup_key [OF j] by auto
  have "lockAuthorityRows now (l_scope l) (lease_fence l) d = Inr (fence_state_of (l_scope l) now s j a l)"
    using l a j b s q i by (auto simp: lockAuthorityRows_def lease_fence_def lease_matches_def attempt_matches_def bound_def)
  moreover have "fenced d (l_scope l) now (lease_fence l) (fence_state_of (l_scope l) now s j a l) l a j"
    using l a j b i by (auto simp: fenced_def live_triple_def bound_def lease_fence_def)
  moreover have "live (j_status j) (a_status a)"
    using c l(2) by (simp add: coupled_def)
  ultimately show thesis
    using that by blast
qed

text \<open>The verdict on an attempt whose lease lapsed, from its rows alone.\<close>

definition expiry_verdict :: "lease_row \<Rightarrow> attempt_row \<Rightarrow> job_row \<Rightarrow> AttemptStatus" where
  "expiry_verdict l a j = (if j_status j = StatusCancelRequested then AttemptCanceled
     else case a_timeout_at a of
       None \<Rightarrow> AttemptAbandoned
     | Some t \<Rightarrow> if t \<le> l_expires_at l then AttemptTimedOut else AttemptAbandoned)"

text \<open>What becomes of the job: cancelled, recovered while attempts remain, or dead-lettered.\<close>

definition recovered_status :: "AttemptStatus \<Rightarrow> attempt_row \<Rightarrow> job_row \<Rightarrow> Status \<Rightarrow> bool" where
  "recovered_status v a j s = (if v = AttemptCanceled then s = StatusCanceled
     else if j_max_attempts j \<le> a_number a then s = StatusDeadLettered
     else if v = AttemptAbandoned then s = StatusQueued else s = StatusQueued \<or> s = StatusRetryWait)"

lemma Decide_total:
  "c = ClassTimedOut \<or> c = ClassAbandoned \<Longrightarrow> \<exists>dec. Decide pow p c n used mx jitter = Inr dec"
  by auto

lemma Decide_settles:
  assumes "Decide pow p c (a_number a) (a_number a) (j_max_attempts j) jitter = Inr dec" and "c = ClassTimedOut \<or> c = ClassAbandoned"
  shows "recovered_status (if c = ClassTimedOut then AttemptTimedOut else AttemptAbandoned) a j (j_status (settled_job now dec j))"
  using Decide_cases [OF assms(1)] assms(2)
  by (auto simp: recovered_status_def settled_job_def retry_after_def dead_letter_def stored_millis_def go_div_def
      wait_row_def requeue_row_def set_status_def split: if_splits)

text \<open>Reconciling an expired lease finalises it with the verdict of its rows.\<close>

definition recovers :: "tx_input \<Rightarrow> db \<Rightarrow> db \<Rightarrow> lease_row \<Rightarrow> attempt_row \<Rightarrow> job_row \<Rightarrow> bool" where
  "recovers ti d d' l a j = (\<exists>a' j'. finalized ti d d' a' (release_lease (ti_now ti) LeaseExpired l) j' \<and> a_id a' = a_id a
     \<and> j_id j' = j_id j \<and> a_status a' = expiry_verdict l a j \<and> recovered_status (a_status a') a j (j_status j'))"

lemma no_outcome_id [simp]: "\<not> outcome_id_taken None x d"
  by (simp add: outcome_id_taken_def)

lemma settled_job_id [simp]: "j_id (settled_job now dec j) = j_id j"
  by (simp add: settled_job_def wait_row_def requeue_row_def set_status_def)

lemma expired_cases:
  assumes "live (j_status j) (a_status a)"
  shows "j_status j = StatusCancelRequested \<or> isExecutingJobStatus (j_status j)" and "isExecutingAttemptStatus (a_status a)"
  using assms by (auto simp: live_def isExecutingJobStatus_def isExecutingAttemptStatus_def)

lemma finalizeTimeout_ok:
  assumes ok: "db_ok d" and F: "fenced d scope (ti_now ti) f st l a j" and x: "isExecutingJobStatus (j_status j)" and fr: "fresh ti d"
  shows "\<exists>stats' d' a' j'. finalizeTimeout cfg ti st f stats d = Inr (stats', d')
     \<and> finalized ti d d' a' (release_lease (ti_now ti) (if ti_now ti < l_expires_at l then LeaseReleased else LeaseExpired) l) j'
     \<and> a_id a' = a_id a \<and> j_id j' = j_id j \<and> a_status a' = AttemptTimedOut \<and> recovered_status AttemptTimedOut a j (j_status j')
     \<and> ExpiredLeases stats' = ExpiredLeases stats"
proof -
  note fd = fencedD [OF F]
  obtain dec where dec: "Decide (cfg_pow cfg) (cfg_retryPolicy cfg) ClassTimedOut (a_number a) (a_number a) (j_max_attempts j)
      (ti_jitter ti) = Inr dec"
    using Decide_total [of ClassTimedOut] by blast
  define ls where "ls = (if ti_now ti < l_expires_at l then LeaseReleased else LeaseExpired)"
  obtain res d' where r: "finalizeAttempt ti st f (timeout_outcome ls) dec d = Inr (res, d')"
    and fin: "finalized ti d d' (finish_attempt (ti_now ti) (timeout_outcome ls) (delay_ms dec) (retry_at (ti_now ti) dec) a)
          (release_lease (ti_now ti) ls l) (settled_job (ti_now ti) dec j)"
    using finalizeAttempt_ok [OF ok F x _ Decide_fits [OF dec] fr, of "timeout_outcome ls"] by (auto simp: timeout_outcome_def)
  have s: "recovered_status AttemptTimedOut a j (j_status (settled_job (ti_now ti) dec j))"
    using Decide_settles [OF dec, of "ti_now ti"] by simp
  have "st_leaseStatus st = LeaseActive" "st_serverNow st = ti_now ti" "st_expiresAt st = l_expires_at l"
    using fd by simp_all
  then have "\<exists>stats'. finalizeTimeout cfg ti st f stats d = Inr (stats', d') \<and> ExpiredLeases stats' = ExpiredLeases stats"
    using r dec fd(14,15) unfolding ls_def by (auto simp: finalizeTimeout_def Let_def simp del: Decide.simps split: if_splits)
  moreover have "a_id (finish_attempt t (timeout_outcome ls) m r a) = a_id a"
    "a_status (finish_attempt t (timeout_outcome ls) m r a) = AttemptTimedOut" for t m r
    by (simp_all add: finish_attempt_def timeout_outcome_def)
  ultimately show ?thesis
    using fin s settled_job_id [of "ti_now ti" dec j] unfolding ls_def [symmetric] by blast
qed

lemma reconcileExpiredLease_ok:
  assumes ok: "db_ok d" and l: "get_lease d i = Some l" "l_status l = LeaseActive" "l_expires_at l \<le> ti_now ti" and fr: "fresh ti d"
  shows "\<exists>stats' d' a j. reconcileExpiredLease cfg ti i stats d = Inr (stats', d') \<and> get_attempt d (l_attempt_id l) = Some a
     \<and> get_job d (l_job_id l) = Some j \<and> recovers ti d d' l a j \<and> ExpiredLeases stats' = ExpiredLeases stats + 1"
proof -
  let ?f = "lease_fence l"
  obtain a j st where lk: "lockAuthorityRows (ti_now ti) (l_scope l) ?f d = Inr st"
    and F: "fenced d (l_scope l) (ti_now ti) ?f st l a j" and live: "live (j_status j) (a_status a)"
    using reconcile_lock [OF ok l(1,2)] by blast
  note fd = fencedD [OF F] and x = expired_cases [OF live]
  have aj: "get_attempt d (l_attempt_id l) = Some a" "get_job d (l_job_id l) = Some j"
    using fd(7,8) by (simp_all add: lease_fence_def)
  note red = reconcileExpiredLease_def [of cfg ti i stats d] lockFenceForReconciliation_def
  have lt: "\<not> ti_now ti < l_expires_at l"
    using l(3) by simp
  consider (cancel) "j_status j = StatusCancelRequested"
    | (timeout) "isExecutingJobStatus (j_status j)" "timedOutBeforeLapse st"
    | (abandon) "isExecutingJobStatus (j_status j)" "\<not> timedOutBeforeLapse st"
    using x by blast
  then have "\<exists>stats' d'. reconcileExpiredLease cfg ti i stats d = Inr (stats', d') \<and> recovers ti d d' l a j
      \<and> ExpiredLeases stats' = ExpiredLeases stats + 1"
  proof cases
    case cancel
    obtain res d' where r: "finalizeCancellation st ?f None LeaseExpired d = Inr (res, d')"
      and fin: "finalized ti d d' (cancel_attempt (ti_now ti) None a) (release_lease (ti_now ti) LeaseExpired l)
          (set_status (ti_now ti) StatusCanceled j)"
      using finalizeCancellation_ok [OF ok F cancel no_outcome_id] by blast
    have "recovers ti d d' l a j"
      unfolding recovers_def using fin cancel
      by (intro exI [of _ "cancel_attempt (ti_now ti) None a"] exI [of _ "set_status (ti_now ti) StatusCanceled j"])
        (simp add: cancel_attempt_def set_status_def expiry_verdict_def recovered_status_def)
    then show ?thesis
      using r lk l lt x fd(11,12,13,18,20) cancel by (simp add: red)
  next
    case timeout
    obtain stats' d' a' j' where r: "finalizeTimeout cfg ti st ?f stats d = Inr (stats', d')"
      "ExpiredLeases stats' = ExpiredLeases stats"
      and fin: "finalized ti d d' a' (release_lease (ti_now ti) LeaseExpired l) j'" "a_id a' = a_id a" "j_id j' = j_id j"
        "a_status a' = AttemptTimedOut" "recovered_status AttemptTimedOut a j (j_status j')"
      using finalizeTimeout_ok [OF ok F timeout(1) fr, of cfg stats] lt by auto
    have "expiry_verdict l a j = AttemptTimedOut"
      using timeout fd(18,21) by (auto simp: expiry_verdict_def timedOutBeforeLapse_def isExecutingJobStatus_def split: option.splits)
    then have "recovers ti d d' l a j"
      unfolding recovers_def using fin by (intro exI [of _ a'] exI [of _ j']) simp
    then show ?thesis
      using r lk l lt x fd(11,12,13,18,20) timeout by (auto simp: red isExecutingJobStatus_def)
  next
    case abandon
    obtain dec where dec: "Decide (cfg_pow cfg) (cfg_retryPolicy cfg) ClassAbandoned (a_number a) (a_number a) (j_max_attempts j)
        (ti_jitter ti) = Inr dec"
      using Decide_total [of ClassAbandoned] by blast
    obtain res d' where r: "finalizeAttempt ti st ?f abandon_outcome dec d = Inr (res, d')"
      and fin: "finalized ti d d' (finish_attempt (ti_now ti) abandon_outcome (delay_ms dec) (retry_at (ti_now ti) dec) a)
          (release_lease (ti_now ti) LeaseExpired l) (settled_job (ti_now ti) dec j)"
      using finalizeAttempt_ok [OF ok F abandon(1) _ Decide_fits [OF dec] fr, of abandon_outcome] by (auto simp: abandon_outcome_def)
    have "expiry_verdict l a j = AttemptAbandoned"
      using abandon lt fd(11,18,21)
      by (auto simp: expiry_verdict_def timedOutBeforeLapse_def timedOut_def isExecutingJobStatus_def split: option.splits)
    then have "recovers ti d d' l a j"
      unfolding recovers_def using fin Decide_settles [OF dec, of "ti_now ti"]
      by (intro exI [of _ "finish_attempt (ti_now ti) abandon_outcome (delay_ms dec) (retry_at (ti_now ti) dec) a"]
          exI [of _ "settled_job (ti_now ti) dec j"]) (simp add: finish_attempt_def abandon_outcome_def)
    then show ?thesis
      using r lk l lt x fd(11-15,18,20) abandon dec by (auto simp: red isExecutingJobStatus_def Let_def simp del: Decide.simps)
  qed
  then show ?thesis
    using aj by blast
qed

section \<open>A whole pass\<close>

definition fresh_inputs :: "(uuid \<Rightarrow> tx_input) \<Rightarrow> uuid list \<Rightarrow> db \<Rightarrow> bool" where
  "fresh_inputs inputs is d = (distinct (map (ti_event \<circ> inputs) is) \<and> distinct (map (ti_dlq \<circ> inputs) is)
     \<and> list_all (\<lambda>i. fresh (inputs i) d) is)"

lemma finalized_fresh:
  assumes "finalized ti d d' a l j" and "fresh ti' d" and "ti_event ti \<noteq> ti_event ti'" and "ti_dlq ti \<noteq> ti_dlq ti'"
  shows "fresh ti' d'"
  using assms by (fastforce simp: finalized_def fresh_def lookup_None_iff)

lemma finalized_inputs:
  assumes "finalized (inputs i) d d' a l j" and "fresh_inputs inputs (i # is) d"
  shows "fresh_inputs inputs is d'"
proof -
  have "fresh (inputs k) d'" if "k \<in> set is" for k
    using that assms(2) by (intro finalized_fresh [OF assms(1)]) (auto simp: fresh_inputs_def list_all_iff image_iff)
  then show ?thesis
    using assms(2) by (simp add: fresh_inputs_def list_all_iff)
qed

lemma recovers_leases:
  assumes "recovers ti d d' l a j" and "get_lease d i = Some l"
  shows "get_lease d' = (get_lease d)(i \<mapsto> release_lease (ti_now ti) LeaseExpired l)"
  using assms lookup_key [OF assms(2)] by (auto simp: recovers_def finalized_def lookup_put release_lease_def)

lemma reconcileExpiredLease_db_ok:
  assumes "db_ok d" and "reconcileExpiredLease cfg ti i stats d = Inr (stats', d')"
  shows "db_ok d'"
  using refinesD [OF reconcileExpiredLease_refines [OF assms(1), of cfg ti i stats, unfolded assms(2)]] assms(1) db_ok_moves by blast

definition expired_lease :: "ts \<Rightarrow> lease_row \<Rightarrow> bool" where
  "expired_lease now l = (l_status l = LeaseActive \<and> l_expires_at l \<le> now)"

lemma expiry_loop:
  assumes "db_ok d" and "distinct is" and "fresh_inputs inputs is d"
    and "\<And>i. i \<in> set is \<Longrightarrow> \<exists>l. get_lease d i = Some l \<and> expired_lease (ti_now (inputs i)) l"
  shows "\<exists>stats' d'. reconcile_loop (\<lambda>i. reconcileExpiredLease cfg (inputs i) i) is stats d = (None, stats', d')
     \<and> db_ok d' \<and> ExpiredLeases stats' = ExpiredLeases stats + length is
     \<and> (\<forall>i l. get_lease d' i = Some l \<and> l_status l = LeaseActive \<longrightarrow> i \<notin> set is \<and> get_lease d i = Some l)"
  using assms
proof (induction "is" arbitrary: d stats)
  case (Cons i "is")
  obtain l where l: "get_lease d i = Some l" "l_status l = LeaseActive" "l_expires_at l \<le> ti_now (inputs i)"
    using Cons.prems(4) [of i] by (auto simp: expired_lease_def)
  have fr: "fresh (inputs i) d"
    using Cons.prems(3) by (simp add: fresh_inputs_def)
  obtain stats1 d1 a j where r: "reconcileExpiredLease cfg (inputs i) i stats d = Inr (stats1, d1)"
    and rec: "recovers (inputs i) d d1 l a j" and n: "ExpiredLeases stats1 = ExpiredLeases stats + 1"
    using reconcileExpiredLease_ok [OF Cons.prems(1) l fr] by blast
  have leases: "get_lease d1 = (get_lease d)(i \<mapsto> release_lease (ti_now (inputs i)) LeaseExpired l)"
    by (rule recovers_leases [OF rec l(1)])
  have "fresh_inputs inputs is d1"
    using rec finalized_inputs [OF _ Cons.prems(3)] by (auto simp: recovers_def)
  moreover have "\<exists>m. get_lease d1 k = Some m \<and> expired_lease (ti_now (inputs k)) m" if "k \<in> set is" for k
    using that Cons.prems(2,4) leases by auto
  ultimately obtain stats' d' where r': "reconcile_loop (\<lambda>i. reconcileExpiredLease cfg (inputs i) i) is stats1 d1 = (None, stats', d')"
    "db_ok d'" "ExpiredLeases stats' = ExpiredLeases stats1 + length is"
    and kept: "\<forall>i l. get_lease d' i = Some l \<and> l_status l = LeaseActive \<longrightarrow> i \<notin> set is \<and> get_lease d1 i = Some l"
    using Cons.IH [of d1 stats1] Cons.prems(2) reconcileExpiredLease_db_ok [OF Cons.prems(1) r] by auto
  have "k \<notin> set (i # is) \<and> get_lease d k = Some m" if m: "get_lease d' k = Some m" "l_status m = LeaseActive" for k m
    using kept [rule_format, of k m] m leases by (auto simp: release_lease_def split: if_splits)
  then show ?case
    using r r' n by simp
qed simp



text \<open>
  C17: the verdict of reconciliation on an attempt whose lease lapsed depends on its rows and not on
  when the pass runs: a requested cancellation wins, a deadline at or before the lapse is a timeout,
  everything else is abandonment; the lease ends EXPIRED and the job is cancelled, recovered while
  attempts remain, or dead-lettered.
\<close>

theorem expiry_verdict_timeless:
  assumes "reach cfg d" and "get_lease d i = Some l" and "l_status l = LeaseActive"
    and "l_expires_at l \<le> ti_now ti" and "fresh ti d"
  shows "\<exists>a j stats' d' a' j'. get_attempt d (l_attempt_id l) = Some a \<and> get_job d (l_job_id l) = Some j
     \<and> reconcileExpiredLease cfg ti i stats d = Inr (stats', d')
     \<and> get_lease d' i = Some (release_lease (ti_now ti) LeaseExpired l)
     \<and> get_attempt d' (l_attempt_id l) = Some a' \<and> a_status a' = expiry_verdict l a j
     \<and> get_job d' (l_job_id l) = Some j' \<and> recovered_status (expiry_verdict l a j) a j (j_status j')"
proof -
  obtain stats' d' a j where r: "reconcileExpiredLease cfg ti i stats d = Inr (stats', d')"
    and aj: "get_attempt d (l_attempt_id l) = Some a" "get_job d (l_job_id l) = Some j" and rec: "recovers ti d d' l a j"
    using reconcileExpiredLease_ok [OF reach_ok [OF assms(1)] assms(2-5)] by blast
  obtain a' j' where "a_status a' = expiry_verdict l a j" "recovered_status (a_status a') a j (j_status j')"
    "a_id a' = a_id a" "j_id j' = j_id j" "db_attempts d' = put a_id a' (db_attempts d)" "db_jobs d' = put j_id j' (db_jobs d)"
    using rec by (auto simp: recovers_def finalized_def)
  moreover have "get_lease d' i = Some (release_lease (ti_now ti) LeaseExpired l)"
    by (simp add: recovers_leases [OF rec assms(2)])
  ultimately show ?thesis
    using r aj lookup_key [OF aj(1)] lookup_key [OF aj(2)]
    by (intro exI [of _ a] exI [of _ j] exI [of _ stats'] exI [of _ d'] exI [of _ a'] exI [of _ j']) (auto simp: lookup_put_apply)
qed

theorem expiry_verdict_timeless_witness:
  "\<exists>d' a' j'. reconcileExpiredLease cfg0 (input0 90000000) 30 zero_stats running_db = Inr d'
     \<and> get_attempt (snd d') 20 = Some a' \<and> a_status a' = AttemptTimedOut
     \<and> get_job (snd d') 10 = Some j' \<and> (j_status j' = StatusQueued \<or> j_status j' = StatusRetryWait)"
proof -
  have l: "get_lease running_db 30 = Some lease_row0" and a: "get_attempt running_db 20 = Some attempt_row0"
    and j: "get_job running_db 10 = Some job_row0" and f: "fresh (input0 90000000) running_db"
    and ids: "l_attempt_id lease_row0 = 20" "l_job_id lease_row0 = 10" "l_status lease_row0 = LeaseActive"
    and t: "l_expires_at lease_row0 \<le> ti_now (input0 90000000)"
    and v: "expiry_verdict lease_row0 attempt_row0 job_row0 = AttemptTimedOut"
    and n: "j_max_attempts job_row0 = 2" "a_number attempt_row0 = 1"
    by code_simp+
  show ?thesis
    using expiry_verdict_timeless [OF reach_running l ids(3) t f, of zero_stats] a j v n
    unfolding ids by (auto simp: recovered_status_def)
qed

section \<open>Due timeouts\<close>

lemma attempt_lease:
  assumes ok: "db_ok d" and a: "get_attempt d x = Some a" "isExecutingAttemptStatus (a_status a)"
  obtains l where "get_lease d (l_id l) = Some l" and "l_attempt_id l = x" and "l_status l = LeaseActive"
    and "find (\<lambda>l. l_attempt_id l = x) (db_leases d) = Some l" and "a_job_id a = l_job_id l" and "attempt_fence a l = lease_fence l"
    and "a_scope a = l_scope l"
proof -
  note D = db_okD [OF ok]
  obtain i l where l: "get_lease d i = Some l" "l_attempt_id l = x"
    using auth_okD(4) [OF D(2) a(1)] by blast
  have i: "l_id l = i" "l \<in> set (db_leases d)" "a_id a = x"
    using lookup_SomeD [OF l(1)] lookup_key [OF a(1)] by simp_all
  obtain b j where b: "get_attempt d x = Some b" "bound l b j" "coupled l b j"
    using auth_okD(1) [OF D(2) l(1)] l(2) by auto
  have "l_status l = LeaseActive"
    using b a by (auto simp: coupled_def split: if_splits)
  moreover have "find (\<lambda>l. l_attempt_id l = x) (db_leases d) = Some l"
    using D(11) l(2) i(2) lookup_in_set [of l_attempt_id "db_leases d" l] by (simp add: ids_ok_def lookup_def)
  moreover have "a_job_id a = l_job_id l" "attempt_fence a l = lease_fence l" "a_scope a = l_scope l"
    using a b l i by (auto simp: bound_def attempt_fence_def lease_fence_def)
  ultimately show thesis
    using that l i by blast
qed



end
