(* ===== verification/Reports.thy ===== *)
theory Reports
  imports Scenario Settlement
begin

text \<open>
  What a worker may rely on when it reports: an accepted report is answered the same way for ever, a
  renewal takes effect once, and no report is accepted after the lease or the deadline has passed.
\<close>

definition report0 :: FailureReport where
  "report0 = \<lparr> fr_Fence = fence0, fr_OutcomeRequestID = 60, fr_Class = ClassPermanent, fr_ErrorCode = ''boom'', fr_ErrorMessage = ''m'' \<rparr>"

definition renewal0 :: RenewalRequest where
  "renewal0 = \<lparr> rq_Fence = fence0, rq_RenewalRequestID = 70, rq_ExpectedVersion = 0 \<rparr>"

section \<open>Failure reports\<close>

text \<open>The row of an attempt that records the answer to a failure report.\<close>

definition records_failure :: "FailureReport \<Rightarrow> OutcomeResult \<Rightarrow> attempt_row \<Rightarrow> bool" where
  "records_failure r res a = (\<not> isExecutingAttemptStatus (a_status a)
     \<and> a_outcome_request_id a = Some (fr_OutcomeRequestID r) \<and> a_failure_class a = Some (fr_Class r)
     \<and> derefString (a_error_code a) = fr_ErrorCode r \<and> derefString (a_error_message a) = fr_ErrorMessage r
     \<and> res\<lparr> out_Replayed := True \<rparr> = \<lparr> out_JobID = JobID (fr_Fence r),
          out_JobStatus = (if a_status a = AttemptCanceled then StatusCanceled
            else case a_retry_delay_ms a of None \<Rightarrow> StatusDeadLettered
              | Some ms \<Rightarrow> if ms = 0 then StatusQueued else StatusRetryWait),
          out_AttemptStatus = a_status a, out_RetryAt = a_retry_at a,
          out_RetryDelay = map_option (\<lambda>ms. ms * Millisecond) (a_retry_delay_ms a),
          out_DeadLetterReason = (if a_status a \<noteq> AttemptCanceled \<and> a_retry_delay_ms a = None
            then if fr_Class r = ClassPermanent then ReasonPermanentFailure else ReasonAttemptsExhausted else ReasonOther []),
          out_Replayed = True \<rparr>)"

lemma derefString_nullable [simp]: "derefString (nullableString s) = s"
  by (simp add: derefString_def nullableString_def)

lemma replayedOutcome_record:
  "replayedOutcome (fence_state_of scope now s j a l) r = Inr x \<Longrightarrow> \<not> isExecutingAttemptStatus (a_status a)
    \<Longrightarrow> a_outcome_request_id a = Some (fr_OutcomeRequestID r) \<Longrightarrow> records_failure r (x\<lparr> out_JobID := JobID (fr_Fence r) \<rparr>) a"
  by (auto simp: replayedOutcome_def records_failure_def decidedJobStatus_def Let_def split: if_splits option.splits)

lemma record_replayed:
  "records_failure r res a \<Longrightarrow> map_sum id (\<lambda>x. x\<lparr> out_JobID := JobID (fr_Fence r) \<rparr>) (replayedOutcome (fence_state_of scope now s j a l) r)
     = Inr (res\<lparr> out_Replayed := True \<rparr>)"
  by (auto simp: replayedOutcome_def records_failure_def decidedJobStatus_def Let_def split: option.splits)

lemma outcome_finished:
  assumes "db_ok d" and "get_attempt d x = Some a" and "a_outcome_request_id a = Some z"
  shows "\<not> isExecutingAttemptStatus (a_status a)"
  using db_okD(3) [OF assms(1)] assms(2,3) unfolding rows_ok_def attempt_ok_def by fastforce

lemma reason_of_decision:
  assumes "Decide pow p c n used mx jitter = Inr dec" and "c = ClassRetryable \<or> c = ClassPermanent"
  shows "(if Retry dec then ReasonOther [] else DeadLetterReason dec)
     = (if delay_ms dec = None then if c = ClassPermanent then ReasonPermanentFailure else ReasonAttemptsExhausted else ReasonOther [])"
  using Decide_cases [OF assms(1)] assms(2) by (auto simp: delay_ms_def retry_after_def dead_letter_def split: if_splits)

lemma settled_status:
  assumes "Decide pow p c n used mx jitter = Inr dec"
  shows "j_status (settled_job now dec j) = (case delay_ms dec of None \<Rightarrow> StatusDeadLettered
     | Some ms \<Rightarrow> if ms = 0 then StatusQueued else StatusRetryWait)"
proof -
  have "0 \<le> stored_millis dec"
    using Decide_cases [OF assms] Delay_nonneg [of pow p n jitter]
    by (auto simp: stored_millis_def retry_after_def dead_letter_def go_div_nonneg Millisecond_def pos_imp_zdiv_nonneg_iff
        split: if_splits)
  then show ?thesis
    by (auto simp: settled_job_def delay_ms_def wait_row_def requeue_row_def set_status_def)
qed

lemma Fail_records:
  assumes ok: "db_ok d" and f: "Fail cfg ti scope r d = Inr (res, d')"
  obtains a st where "get_attempt d' (AttemptID (fr_Fence r)) = Some a" and "records_failure r res a"
    and "lockAuthorityRows (ti_now ti) scope (fr_Fence r) d' = Inr st" and "ValidateFailureReport r = None" and "db_ok d'"
proof -
  have ok': "db_ok d'"
    using refinesD [OF Fail_refines [OF ok, of cfg ti scope r, unfolded f]] ok db_ok_moves by blast
  have v: "ValidateFailureReport r = None"
    using f by (auto simp: Fail_def split: option.splits)
  obtain st where lk: "lockAuthorityRows (ti_now ti) scope (fr_Fence r) d = Inr st"
    using f v by (auto simp: Fail_def split: sum.splits)
  have "\<exists>st'. lockAuthorityRows (ti_now ti) scope (fr_Fence r) d' = Inr st'"
    using lock_evolves [OF ok lk, of "ti_now ti" cfg "[FailReq ti scope r]"] f by (auto simp: run_def)
  moreover have "\<exists>a. get_attempt d' (AttemptID (fr_Fence r)) = Some a \<and> records_failure r res a"
  proof (cases "st_outcomeRequestID st = Some (fr_OutcomeRequestID r)")
    case True
    obtain s j a l where st: "st = fence_state_of scope (ti_now ti) s j a l" and a: "get_attempt d (AttemptID (fr_Fence r)) = Some a"
      using lk by (blast elim: lockAuthorityRowsE)
    obtain x where x: "replayedOutcome st r = Inr x" "res = x\<lparr> out_JobID := JobID (fr_Fence r) \<rparr>" "d' = d"
      using f v lk True by (auto simp: Fail_def split: sum.splits)
    have "records_failure r res a"
      unfolding x(2) using x(1) True st outcome_finished [OF ok a] by (intro replayedOutcome_record) simp_all
    then show ?thesis
      using a x(3) by simp
  next
    case False
    then obtain dec where use: "leaseUsable st" and run: "st_jobStatus st = StatusRunning" "st_attemptStatus st = AttemptRunning"
      and dec: "Decide (cfg_pow cfg) (cfg_retryPolicy cfg) (fr_Class r) (st_attemptNumber st) (st_attemptNumber st)
        (st_maxAttempts st) (ti_jitter ti) = Inr dec"
      and fin: "finalizeAttempt ti st (fr_Fence r) (failure_outcome r) dec d = Inr (res, d')"
      using f v lk by (auto simp: Fail_def simp del: Decide.simps split: sum.splits if_splits)
    obtain l a j where F: "fenced d scope (ti_now ti) (fr_Fence r) st l a j"
      using lock_fenced [OF lk leaseUsable_active [OF use] db_okD(2) [OF ok]] .
    note fd = fencedD [OF F]
    have "isExecutingJobStatus (j_status j)"
      using run fd(12) by (simp add: isExecutingJobStatus_def)
    note R = finalizeAttempt_result [OF ok F this fin]
    let ?a = "finish_attempt (ti_now ti) (failure_outcome r) (delay_ms dec) (retry_at (ti_now ti) dec) a"
    have "get_attempt d' (AttemptID (fr_Fence r)) = Some ?a"
      using R(1) fd(3,7) by (simp add: finalized_def lookup_put_apply finish_attempt_def)
    moreover have "fr_Class r = ClassRetryable \<or> fr_Class r = ClassPermanent"
      using v by (auto simp: ValidateFailureReport_def validation_def ReportableByHandler_def split: if_splits)
    note cls = reason_of_decision [OF dec this] settled_status [OF dec, of "ti_now ti" j]
    have "records_failure r res ?a"
      unfolding R(2) records_failure_def using cls
      by (simp add: finish_attempt_def failure_outcome_def coalesce_def isExecutingAttemptStatus_def)
    ultimately show ?thesis
      by blast
  qed
  ultimately show thesis
    using that v ok' by blast
qed

text \<open>
  C20: an accepted failure report is answered for ever as it was the first time. After any later
  requests of any clients, the same report is answered with the same job status, retry instant, delay
  and dead-letter reason, marked as replayed, and changes nothing; whatever became of the job since.
\<close>

theorem failure_report_stable:
  assumes "reach cfg d" and "Fail cfg ti scope r d = Inr (res, d')"
  shows "Fail cfg ti2 scope r (run cfg rs d') = Inr (res\<lparr> out_Replayed := True \<rparr>, run cfg rs d')"
proof -
  obtain a st where a: "get_attempt d' (AttemptID (fr_Fence r)) = Some a" and rec: "records_failure r res a"
    and lk: "lockAuthorityRows (ti_now ti) scope (fr_Fence r) d' = Inr st" and v: "ValidateFailureReport r = None" and ok: "db_ok d'"
    using Fail_records [OF reach_ok [OF assms(1)] assms(2)] .
  obtain s j b l where lk2: "lockAuthorityRows (ti_now ti2) scope (fr_Fence r) (run cfg rs d') = Inr (fence_state_of scope (ti_now ti2) s j b l)"
    and b: "get_attempt (run cfg rs d') (AttemptID (fr_Fence r)) = Some b"
    by (rule lock_evolves [OF ok lk, of "ti_now ti2" cfg rs])
  have "get_attempt (run cfg rs d') (AttemptID (fr_Fence r)) = Some a"
    using attempt_rows.final_steps [OF run_steps [of cfg d' rs] ok a] rec unfolding records_failure_def by blast
  then have "b = a"
    using b by simp
  define st2 where "st2 = fence_state_of scope (ti_now ti2) s j a l"
  have oid: "st_outcomeRequestID st2 = Some (fr_OutcomeRequestID r)"
    using rec by (simp add: st2_def records_failure_def)
  obtain x where x: "replayedOutcome st2 r = Inr x" "x\<lparr> out_JobID := JobID (fr_Fence r) \<rparr> = res\<lparr> out_Replayed := True \<rparr>"
    using record_replayed [OF rec, of scope "ti_now ti2" s j l] unfolding st2_def [symmetric]
    by (cases "replayedOutcome st2 r") simp_all
  have "lockAuthorityRows (ti_now ti2) scope (fr_Fence r) (run cfg rs d') = Inr st2"
    using lk2 \<open>b = a\<close> by (simp add: st2_def)
  then show ?thesis
    using v oid x by (simp add: Fail_def)
qed

theorem failure_report_stable_witness:
  "\<exists>res d'. Fail cfg0 (input0 5) ''s'' report0 running_db = Inr (res, d')
     \<and> Fail cfg0 (input0 9) ''s'' report0 (run cfg0 [ReplayReq 8 8 80 81 ''s'' 10 ''r''] d') = Inr (res\<lparr> out_Replayed := True \<rparr>, run cfg0 [ReplayReq 8 8 80 81 ''s'' 10 ''r''] d')"
proof -
  have "\<not> isl (Fail cfg0 (input0 5) ''s'' report0 running_db)"
    by code_simp
  then obtain x where "Fail cfg0 (input0 5) ''s'' report0 running_db = Inr x"
    by (auto simp: not_isl_iff)
  then have f: "Fail cfg0 (input0 5) ''s'' report0 running_db = Inr (fst x, snd x)"
    by simp
  show ?thesis
    by (intro exI conjI) (rule f, rule failure_report_stable [OF reach_running f])
qed

section \<open>Success\<close>

lemma Succeed_rows:
  assumes ok: "db_ok d" and r: "Succeed now scope f result d = Inr ((), d')"
  obtains j a l st where "get_job d' (JobID f) = Some j" and "j_status j = StatusSucceeded"
    and "get_attempt d' (AttemptID f) = Some a" and "a_status a = AttemptSucceeded"
    and "get_lease d' (LeaseID f) = Some l" and "l_status l = LeaseCompleted"
    and "lockAuthorityRows now scope f d' = Inr st" and "ValidateFence f = None" and "db_ok d'"
proof -
  have ok': "db_ok d'"
    using refinesD [OF Succeed_refines [OF ok, of now scope f result, unfolded r]] ok db_ok_moves by blast
  have v: "ValidateFence f = None"
    using r by (auto simp: Succeed_def split: option.splits)
  obtain st where lk: "lockAuthorityRows now scope f d = Inr st"
    using r v by (auto simp: Succeed_def split: sum.splits)
  have lk': "\<exists>st'. lockAuthorityRows now scope f d' = Inr st'"
    using lock_evolves [OF ok lk, of now cfg0 "[SucceedReq now scope f result]"] r by (auto simp: run_def)
  have "\<exists>j a l. get_job d' (JobID f) = Some j \<and> j_status j = StatusSucceeded \<and> get_attempt d' (AttemptID f) = Some a
      \<and> a_status a = AttemptSucceeded \<and> get_lease d' (LeaseID f) = Some l \<and> l_status l = LeaseCompleted"
  proof (cases "st_jobStatus st = StatusSucceeded \<and> st_attemptStatus st = AttemptSucceeded \<and> st_leaseStatus st = LeaseCompleted")
    case True
    then have "d' = d"
      using r v lk by (simp add: Succeed_def)
    then show ?thesis
      using lk True by (auto elim!: lockAuthorityRowsE)
  next
    case False
    then have g: "leaseUsable st" "st_jobStatus st = StatusRunning" "st_attemptStatus st = AttemptRunning"
      and d': "db_jobs d' = db_jobs (complete_rows now f d)" "db_attempts d' = db_attempts (complete_rows now f d)"
        "db_leases d' = db_leases (complete_rows now f d)"
      using r v lk by (auto simp: Succeed_def Let_def InsertResultTx_def split: if_splits option.splits elim!: lockAuthorityRowsE)
    obtain l a j where F: "fenced d scope now f st l a j"
      using lock_fenced [OF lk leaseUsable_active [OF g(1)] db_okD(2) [OF ok]] .
    note fd = fencedD [OF F]
    have "complete_rows now f d = (close_rows (succeed_attempt now a) (release_lease now LeaseCompleted l) d)
          \<lparr> db_jobs := put j_id (set_status now StatusSucceeded j) (db_jobs d) \<rparr>"
      using complete_rows_put [OF db_okD(1) [OF ok] F] g fd(12,13) by simp
    then show ?thesis
      using d' fd(2-4,6-8)
      by (simp add: close_rows_def lookup_put_apply set_status_def succeed_attempt_def release_lease_def)
  qed
  then show thesis
    using that lk' v ok' by blast
qed

text \<open>
  C21: an accepted success is final. After any later requests the job is still SUCCEEDED, its attempt
  SUCCEEDED and its lease COMPLETED, and a repeated success report, with whatever result, is answered
  with success and changes nothing.
\<close>

theorem success_stable:
  assumes "reach cfg d" and "Succeed now scope f result d = Inr ((), d')"
  shows "Succeed now2 scope f result2 (run cfg rs d') = Inr ((), run cfg rs d')
     \<and> map_option j_status (get_job (run cfg rs d') (JobID f)) = Some StatusSucceeded
     \<and> map_option a_status (get_attempt (run cfg rs d') (AttemptID f)) = Some AttemptSucceeded
     \<and> map_option l_status (get_lease (run cfg rs d') (LeaseID f)) = Some LeaseCompleted"
proof -
  obtain j a l st where j: "get_job d' (JobID f) = Some j" "j_status j = StatusSucceeded"
    and a: "get_attempt d' (AttemptID f) = Some a" "a_status a = AttemptSucceeded"
    and l: "get_lease d' (LeaseID f) = Some l" "l_status l = LeaseCompleted"
    and lk: "lockAuthorityRows now scope f d' = Inr st" and v: "ValidateFence f = None" and ok: "db_ok d'"
    by (rule Succeed_rows [OF reach_ok [OF assms(1)] assms(2)])
  have j2: "get_job (run cfg rs d') (JobID f) = Some j"
    using job_rows.final_steps [OF run_steps [of cfg d' rs] ok j(1)] j(2) by simp
  have a2: "get_attempt (run cfg rs d') (AttemptID f) = Some a"
    using attempt_rows.final_steps [OF run_steps [of cfg d' rs] ok a(1)] a(2) by (simp add: isExecutingAttemptStatus_def)
  have l2: "get_lease (run cfg rs d') (LeaseID f) = Some l"
    using lease_rows.final_steps [OF run_steps [of cfg d' rs] ok l(1)] l(2) by simp
  obtain s j' a' l' where lk2: "lockAuthorityRows now2 scope f (run cfg rs d') = Inr (fence_state_of scope now2 s j' a' l')"
    and "get_attempt (run cfg rs d') (AttemptID f) = Some a'" "get_lease (run cfg rs d') (LeaseID f) = Some l'"
      "get_job (run cfg rs d') (JobID f) = Some j'"
    by (rule lock_evolves [OF ok lk, of now2 cfg rs])
  then have "j' = j" "a' = a" "l' = l"
    using j2 a2 l2 by simp_all
  then show ?thesis
    using lk2 v j2 a2 l2 j(2) a(2) l(2) by (simp add: Succeed_def)
qed

theorem success_stable_witness:
  "\<exists>d'. Succeed 5 ''s'' fence0 None running_db = Inr ((), d')
     \<and> Succeed 9 ''s'' fence0 None (run cfg0 [CancelReq 8 ''s'' 10] d') = Inr ((), run cfg0 [CancelReq 8 ''s'' 10] d')
     \<and> map_option j_status (get_job (run cfg0 [CancelReq 8 ''s'' 10] d') 10) = Some StatusSucceeded"
proof -
  have f: "JobID fence0 = 10"
    by (simp add: fence0_def)
  have "\<not> isl (Succeed 5 ''s'' fence0 None running_db)"
    by code_simp
  then obtain d' where "Succeed 5 ''s'' fence0 None running_db = Inr ((), d')"
    by (auto simp: not_isl_iff)
  then show ?thesis
    using success_stable [OF reach_running, of 5 "''s''" fence0 None d' 9 None "[CancelReq 8 ''s'' 10]"] unfolding f by blast
qed

section \<open>Lapsed authority\<close>



section \<open>Renewal\<close>

lemma RenewLease_stale:
  assumes "\<And>st. lockFence now scope (rq_Fence req) d = Inr st \<Longrightarrow> st_renewalVersion st \<noteq> rq_ExpectedVersion req"
  shows "commit d (RenewLease dur now scope req d) = d"
  using assms by (cases "lockFence now scope (rq_Fence req) d") (auto simp: RenewLease_def split: option.split)

lemma RenewLease_row:
  assumes ok: "db_ok d" and r: "RenewLease dur now scope req d = Inr (res, d')" and n: "\<not> rn_Replayed res"
  obtains l where "get_lease d (LeaseID (rq_Fence req)) = Some l" and "l_status l = LeaseActive" and "now < l_expires_at l"
    and "l_renewal_version l = rq_ExpectedVersion req"
    and "get_lease d' (LeaseID (rq_Fence req)) = Some (renew_row now (add_dur now dur) (rq_RenewalRequestID req) l)"
proof -
  have v: "ValidateRenewal req = None"
    using r by (auto simp: RenewLease_def split: option.splits)
  obtain st where lf: "lockFence now scope (rq_Fence req) d = Inr st"
    using r v by (auto simp: RenewLease_def split: sum.splits if_splits)
  then have lk: "lockAuthorityRows now scope (rq_Fence req) d = Inr st"
    by (blast elim: lockFenceE)
  have use: "leaseUsable st" and ver: "st_renewalVersion st = rq_ExpectedVersion req"
    and d': "d' = d\<lparr> db_leases := upd_where (\<lambda>l. l_id l = LeaseID (rq_Fence req) \<and> l_status l = LeaseActive
          \<and> l_renewal_version l = rq_ExpectedVersion req)
        (\<lambda>l. l\<lparr> l_renewed_at := st_serverNow st, l_expires_at := add_dur (st_serverNow st) dur,
          l_renewal_version := l_renewal_version l + 1, l_renewal_id := Some (rq_RenewalRequestID req) \<rparr>) (db_leases d) \<rparr>"
    using r v lf n by (auto simp: RenewLease_def Let_def split: if_splits option.splits)
  obtain l a j where F: "fenced d scope now (rq_Fence req) st l a j"
    using lock_fenced [OF lk leaseUsable_active [OF use] db_okD(2) [OF ok]] .
  note fd = fencedD [OF F]
  have lv: "l_renewal_version l = rq_ExpectedVersion req" "now < l_expires_at l"
    using use ver fd(11,18,19) by (simp_all add: leaseUsable_def)
  have "get_lease d' (LeaseID (rq_Fence req)) = Some (renew_row now (add_dur now dur) (rq_RenewalRequestID req) l)"
    unfolding d' using fd(2,6,9,11) lv by (simp add: lookup_upd renew_row_def)
  then show thesis
    using that fd(6,9) lv by blast
qed

text \<open>
  C23: a renewal takes effect once. An accepted renewal moves the lease from the expected version to
  the next one and its expiry to the renewal instant plus the lease duration, on a lease that was
  still in force; the same request repeated at any later time changes nothing.
\<close>

theorem renewal_once:
  assumes "reach cfg d" and "RenewLease (cfg_leaseDuration cfg) now scope req d = Inr (res, d')" and "\<not> rn_Replayed res"
  shows "(\<exists>l. get_lease d (LeaseID (rq_Fence req)) = Some l \<and> l_status l = LeaseActive \<and> now < l_expires_at l
      \<and> l_renewal_version l = rq_ExpectedVersion req
      \<and> get_lease d' (LeaseID (rq_Fence req))
          = Some (renew_row now (add_dur now (cfg_leaseDuration cfg)) (rq_RenewalRequestID req) l))
    \<and> commit (run cfg rs d') (RenewLease (cfg_leaseDuration cfg) now2 scope req (run cfg rs d')) = run cfg rs d'"
proof -
  note ok = reach_ok [OF assms(1)]
  obtain l where l: "get_lease d (LeaseID (rq_Fence req)) = Some l" "l_status l = LeaseActive" "now < l_expires_at l"
    "l_renewal_version l = rq_ExpectedVersion req"
    "get_lease d' (LeaseID (rq_Fence req)) = Some (renew_row now (add_dur now (cfg_leaseDuration cfg)) (rq_RenewalRequestID req) l)"
    by (rule RenewLease_row [OF ok assms(2,3)])
  have ok': "db_ok d'"
    using refinesD [OF RenewLease_refines [OF ok, of "cfg_leaseDuration cfg" now scope req, unfolded assms(2)]] ok db_ok_moves by blast
  obtain l' where l': "get_lease (run cfg rs d') (LeaseID (rq_Fence req)) = Some l'" "rq_ExpectedVersion req < l_renewal_version l'"
    using lease_columns.row_steps [OF run_steps [of cfg d' rs] ok' l(5)] l(4) by (auto simp: lease_le_def renew_row_def)
  have "st_renewalVersion st \<noteq> rq_ExpectedVersion req" if "lockFence now2 scope (rq_Fence req) (run cfg rs d') = Inr st" for st
    using that l' by (auto elim!: lockFenceE lockAuthorityRowsE)
  then show ?thesis
    using l RenewLease_stale [of now2 scope req "run cfg rs d'"] by blast
qed

theorem renewal_once_witness:
  "\<exists>res d'. RenewLease (cfg_leaseDuration cfg0) 5 ''s'' renewal0 running_db = Inr (res, d')
     \<and> get_lease d' 30 = Some (renew_row 5 (add_dur 5 (cfg_leaseDuration cfg0)) 70 lease_row0)
     \<and> commit (run cfg0 [] d') (RenewLease (cfg_leaseDuration cfg0) 9 ''s'' renewal0 (run cfg0 [] d')) = run cfg0 [] d'"
proof -
  define x where "x = projr (RenewLease (cfg_leaseDuration cfg0) 5 ''s'' renewal0 running_db)"
  have "\<not> isl (RenewLease (cfg_leaseDuration cfg0) 5 ''s'' renewal0 running_db)"
    by code_simp
  then have r: "RenewLease (cfg_leaseDuration cfg0) 5 ''s'' renewal0 running_db = Inr (fst x, snd x)"
    by (auto simp: not_isl_iff x_def)
  have n: "\<not> rn_Replayed (fst x)"
    unfolding x_def by code_simp
  have f: "LeaseID (rq_Fence renewal0) = 30" "rq_RenewalRequestID renewal0 = 70" "get_lease running_db 30 = Some lease_row0"
    by code_simp+
  show ?thesis
    using renewal_once [OF reach_running r n, of "[]" 9] r unfolding f
    by (intro exI [of _ "fst x"] exI [of _ "snd x"]) simp
qed

end
