(* ===== verification/Delivery.thy ===== *)
theory Delivery
  imports Scenario Settlement
begin

text \<open>
  Delivery of notifications by the outbox publisher: an event is marked published only after the
  broker accepted it, a drain returns, and a drain with a working broker leaves no event that was
  due undelivered.
\<close>

section \<open>One pass\<close>

text \<open>The columns of an event no delivery changes.\<close>

definition event_content :: "event_row \<Rightarrow> (uuid \<times> string \<times> uuid \<times> int \<times> (string \<times> string) option \<times> ts)" where
  "event_content e = (e_id e, e_queue e, e_job_id e, e_generation e, e_trace e, e_created_at e)"

text \<open>How one event may change: its content is kept, it is published only if it was sent, and once published it is final.\<close>

definition delivered :: "uuid list \<Rightarrow> event_row \<Rightarrow> event_row \<Rightarrow> bool" where
  "delivered sent e e' = (event_content e' = event_content e
     \<and> (e_status e' = EventPublished \<longrightarrow> e_status e = EventPublished \<or> e_id e \<in> set sent)
     \<and> (e_status e = EventPublished \<longrightarrow> e' = e))"

definition delivers :: "uuid list \<Rightarrow> db \<Rightarrow> db \<Rightarrow> bool" where
  "delivers sent d d' = (\<forall>i e. get_event d i = Some e \<longrightarrow> (\<exists>e'. get_event d' i = Some e' \<and> delivered sent e e'))"

lemma delivered_refl: "delivered sent e e"
  by (simp add: delivered_def)

lemma delivered_trans: "delivered s e f \<Longrightarrow> delivered s' f g \<Longrightarrow> set s \<union> set s' \<subseteq> set s'' \<Longrightarrow> delivered s'' e g"
  by (auto simp: delivered_def event_content_def)

lemma delivers_trans:
  assumes "delivers s d1 d2" and "delivers s' d2 d3" and "set s \<union> set s' \<subseteq> set s''"
  shows "delivers s'' d1 d3"
  unfolding delivers_def
proof (intro allI impI)
  fix i e
  assume "get_event d1 i = Some e"
  then obtain f where f: "get_event d2 i = Some f" "delivered s e f"
    using assms(1) unfolding delivers_def by blast
  then obtain g where "get_event d3 i = Some g" "delivered s' f g"
    using assms(2) unfolding delivers_def by blast
  then show "\<exists>e'. get_event d3 i = Some e' \<and> delivered s'' e e'"
    using delivered_trans [OF f(2) _ assms(3)] by blast
qed

lemma delivers_upd:
  assumes "\<And>e. p e \<Longrightarrow> delivered sent e (g e)" and "\<And>e. e_id (g e) = e_id e"
  shows "delivers sent d (d\<lparr> db_outbox := upd_where p g (db_outbox d) \<rparr>)"
  using assms by (auto simp: delivers_def lookup_upd delivered_refl)

lemma RecordFailure_delivers: "delivers sent d (commit d (RecordFailure now eid cause after d))"
proof -
  have "delivers sent d (d\<lparr> db_outbox := upd_where (\<lambda>e. e_id e = eid \<and> e_status e = EventPending)
      (\<lambda>e. e\<lparr> e_last_error := Some c, e_available_at := t \<rparr>) (db_outbox d) \<rparr>)" for c t
    by (rule delivers_upd) (auto simp: delivered_def event_content_def)
  moreover have "delivers sent d d"
    by (simp add: delivers_def delivered_refl)
  ultimately show ?thesis
    by (simp add: RecordFailure_def Let_def)
qed

lemma recordFailure_delivers: "delivers sent d (publisher_recordFailure pc env e cause d)"
  using RecordFailure_delivers by (simp add: publisher_recordFailure_def Let_def delivers_def delivered_refl)

lemma MarkPublished_delivers: "delivers [eid] d (snd (MarkPublished now eid d))"
  unfolding MarkPublished_def Let_def snd_conv by (rule delivers_upd) (auto simp: delivered_def event_content_def)

lemma ClaimDue_delivers:
  assumes "keys_ok d"
  shows "delivers [] d (snd (ClaimDue now n t d))"
proof -
  have kd: "keys_distinct e_id (db_outbox d)"
    using assms by (simp add: keys_ok_def)
  define ids where "ids = set (map e_id (due_events now n d))"
  have "e_status e = EventPending" if e: "get_event d i = Some e" "i \<in> ids" for i e
  proof -
    obtain f where f: "f \<in> set (due_events now n d)" "e_id f = i"
      using e(2) by (auto simp: ids_def)
    then have "f \<in> set (db_outbox d)" "e_status f = EventPending"
      using set_select_ordered [OF f(1) [unfolded due_events_def]] by simp_all
    then show ?thesis
      using e(1) f(2) lookup_in_set [OF kd, of f] by simp
  qed
  then have "delivered [] e (if e_id e \<in> ids then claim_event now t e else e)" if "get_event d i = Some e" for i e
    using that lookup_key [OF that] by (auto simp: delivered_def event_content_def claim_event_def)
  moreover have "snd (ClaimDue now n t d) = d\<lparr> db_outbox := upd_where (\<lambda>e. e_id e \<in> ids) (claim_event now t) (db_outbox d) \<rparr>"
    by (simp add: ClaimDue_def Let_def ids_def)
  ultimately show ?thesis
    by (simp add: delivers_def lookup_upd claim_event_def)
qed

text \<open>The four ways the loop treats an event: it stops, records a failure, fails to mark, or marks.\<close>

lemma publish_loop_cases:
  assumes "publish_loop pc (e # es) env d st sent = r"
  obtains (stop) "env_done (env e)" and "r = (d, st, sent, True)"
  | (failure) cause where "publish_loop pc es env (publisher_recordFailure pc (env e) e cause d) (st\<lparr> Failed_n := Failed_n st + 1 \<rparr>) sent = r"
      and "env_body_error (env e) = Some cause \<or> env_publish_error (env e) = Some cause"
  | (unmarked) "publish_loop pc es env d (st\<lparr> Failed_n := Failed_n st + 1 \<rparr>) (sent @ [e_id e]) = r" and "env_mark_error (env e)"
  | (marked) st1 where "publish_loop pc es env (snd (MarkPublished (env_now (env e)) (e_id e) d)) st1 (sent @ [e_id e]) = r"
      and "Failed_n st1 = Failed_n st" and "Claimed_n st1 = Claimed_n st"
proof -
  obtain m d1 where "MarkPublished (env_now (env e)) (e_id e) d = (m, d1)"
    by fastforce
  then show thesis
    using assms by (auto split: if_splits option.splits intro: stop failure unmarked marked)
qed

lemma publish_loop_delivers:
  assumes "publish_loop pc es env d st sent = (d', st', sent', stopped)"
  shows "delivers sent' d d' \<and> set sent \<subseteq> set sent'"
  using assms
proof (induction es arbitrary: d st sent)
  case Nil
  then show ?case
    by (simp add: delivers_def delivered_refl)
next
  case (Cons e es)
  have step: ?case if "publish_loop pc es env d1 st1 (sent @ s) = (d', st', sent', stopped)" "delivers s d d1" for d1 st1 s
    using Cons.IH [OF that(1)] delivers_trans [OF that(2), of sent' d' sent'] by auto
  have same: "delivers s d d" for s
    by (simp add: delivers_def delivered_refl)
  from Cons.prems show ?case
  proof (cases rule: publish_loop_cases)
    case stop
    then show ?thesis
      using same by simp
  next
    case (failure cause)
    then show ?thesis
      using step [of _ _ "[]"] recordFailure_delivers by simp
  next
    case unmarked
    then show ?thesis
      using step [of d _ "[e_id e]"] same by blast
  next
    case (marked st1)
    then show ?thesis
      using step [OF _ MarkPublished_delivers] by blast
  qed
qed

text \<open>
  C24: delivery is at least once. In one pass of the publisher over a reachable database, whatever the
  broker, the database and the clock answer, every event keeps its content, becomes published only if
  the broker accepted it in this pass, and is not touched once it was published.
\<close>

theorem published_only_if_sent:
  assumes "reach cfg d" and "RunOnce pc now env d = (d', st, sent, stopped)" and "get_event d i = Some e"
  shows "\<exists>e'. get_event d' i = Some e' \<and> event_content e' = event_content e
     \<and> (e_status e' = EventPublished \<longrightarrow> e_status e = EventPublished \<or> i \<in> set sent)
     \<and> (e_status e = EventPublished \<longrightarrow> e' = e)"
proof -
  obtain es d1 where c: "ClaimDue now (pc_BatchSize pc) (pc_ClaimTimeout pc) d = (es, d1)"
    by fastforce
  have "delivers [] d d1"
    using ClaimDue_delivers [OF db_okD(1) [OF reach_ok [OF assms(1)]], of now "pc_BatchSize pc" "pc_ClaimTimeout pc"] c by simp
  moreover have "delivers sent d1 d'"
    using assms(2) c publish_loop_delivers by (fastforce simp: RunOnce_def)
  ultimately have "delivers sent d d'"
    using delivers_trans by fastforce
  then show ?thesis
    using assms(3) lookup_key [OF assms(3)] unfolding delivers_def delivered_def by metis
qed

definition publisher0 :: publisher_cfg where
  "publisher0 = \<lparr> pc_BatchSize = 1, pc_ClaimTimeout = 30 * Second,
     pc_Backoff = \<lparr> BackoffBase = Second, BackoffMax = 60 * Second, BackoffMultiplier = F_Fin 2, BackoffJitter = F_Fin 0 \<rparr>,
     pc_pow = (\<lambda>x y. F_Fin 1) \<rparr>"

definition healthy_env :: "ts \<Rightarrow> publish_env" where
  "healthy_env now = \<lparr> env_done = False, env_body_error = None, env_publish_error = None, env_mark_error = False,
     env_record_error = False, env_now = now, env_rnd = None, env_overflow = 0 \<rparr>"

theorem published_only_if_sent_witness:
  "\<exists>d' st sent stopped e'. RunOnce publisher0 5 (\<lambda>_. healthy_env 5) running_db = (d', st, sent, stopped)
     \<and> get_event d' 11 = Some e' \<and> event_content e' = event_content event_row0
     \<and> (e_status e' = EventPublished \<longrightarrow> e_status event_row0 = EventPublished \<or> 11 \<in> set sent)"
proof -
  have e: "get_event running_db 11 = Some event_row0"
    by code_simp
  obtain d' st sent stopped where r: "RunOnce publisher0 5 (\<lambda>_. healthy_env 5) running_db = (d', st, sent, stopped)"
    using prod_cases4 by blast
  show ?thesis
    using published_only_if_sent [OF reach_running r e] r by blast
qed

section \<open>Draining\<close>

definition pending_ids :: "db \<Rightarrow> uuid set" where
  "pending_ids d = {i. case get_event d i of Some e \<Rightarrow> e_status e = EventPending | None \<Rightarrow> False}"

lemma finite_pending: "finite (pending_ids d)"
proof -
  have "pending_ids d \<subseteq> e_id ` set (db_outbox d)"
    by (auto simp: pending_ids_def split: option.splits dest!: lookup_SomeD)
  then show ?thesis
    using finite_subset by blast
qed

lemma MarkPublished_pending: "pending_ids (snd (MarkPublished now i d)) = pending_ids d - {i}"
  by (auto simp: pending_ids_def MarkPublished_def Let_def lookup_upd split: option.splits if_splits dest: lookup_key)

text \<open>A pass without a failure or a stop publishes everything it claimed.\<close>

lemma publish_loop_all:
  assumes "publish_loop pc es env d st sent = (d', st', sent', False)" and "Failed_n st' = 0"
  shows "Failed_n st = 0 \<and> pending_ids d' = pending_ids d - e_id ` set es \<and> sent' = sent @ map e_id es
     \<and> Claimed_n st' = Claimed_n st"
  using assms
proof (induction es arbitrary: d st sent)
  case (Cons e es)
  from Cons.prems(1) show ?case
  proof (cases rule: publish_loop_cases)
    case (failure cause)
    then show ?thesis
      using Cons.IH [OF failure(1) Cons.prems(2)] by simp
  next
    case unmarked
    then show ?thesis
      using Cons.IH [OF unmarked(1) Cons.prems(2)] by simp
  next
    case (marked st1)
    then show ?thesis
      using Cons.IH [OF marked(1) Cons.prems(2)] by (auto simp: MarkPublished_pending)
  qed simp
qed simp

lemma ClaimDue_pending:
  assumes "keys_ok d" and "ClaimDue now n t d = (es, d')"
  shows "pending_ids d' = pending_ids d" and "e_id ` set es = e_id ` set (due_events now n d)"
    and "length es = length (due_events now n d)" and "e_id ` set es \<subseteq> pending_ids d" and "keys_ok d'"
proof -
  have kd: "keys_distinct e_id (db_outbox d)"
    using assms(1) by (simp add: keys_ok_def)
  define ids where "ids = set (map e_id (due_events now n d))"
  define t' where "t' = upd_where (\<lambda>e. e_id e \<in> ids) (claim_event now t) (db_outbox d)"
  have es: "es = filter (\<lambda>e. e_id e \<in> ids) t'" and d': "d' = d\<lparr> db_outbox := t' \<rparr>"
    using assms(2) by (auto simp: ClaimDue_def Let_def ids_def t'_def)
  have ids: "map e_id t' = map e_id (db_outbox d)"
    unfolding t'_def by (rule map_key_upd) (simp add: claim_event_def)
  have look: "get_event d' i = map_option (\<lambda>e. if e_id e \<in> ids then claim_event now t e else e) (get_event d i)" for i
    unfolding d' t'_def by (simp add: lookup_upd claim_event_def)
  show "pending_ids d' = pending_ids d"
    by (auto simp: pending_ids_def look claim_event_def split: option.splits)
  have sub: "ids \<subseteq> e_id ` set (db_outbox d)"
    by (auto simp: ids_def due_events_def dest: set_select_ordered)
  have "e_id ` set es = ids \<inter> set (map e_id t')"
    unfolding es by auto
  then show eq: "e_id ` set es = e_id ` set (due_events now n d)"
    using sub ids by (auto simp: ids_def)
  have "distinct (map e_id es)"
    unfolding es using kd ids by (simp add: distinct_map_filter)
  moreover have "distinct (map e_id (due_events now n d))"
    unfolding due_events_def by (rule select_ordered_keys [OF kd])
  ultimately show "length es = length (due_events now n d)"
    using eq by (metis distinct_card length_map set_map)
  have "e_id e \<in> pending_ids d" if "e \<in> set (due_events now n d)" for e
    using set_select_ordered [OF that [unfolded due_events_def]] lookup_in_set [OF kd, of e] by (auto simp: pending_ids_def)
  then show "e_id ` set es \<subseteq> pending_ids d"
    unfolding eq by blast
  show "keys_ok d'"
    using assms(1) ids by (simp add: keys_ok_def d')
qed

lemma RunOnce_full:
  assumes k: "keys_ok d" and r: "RunOnce pc now env d = (d', st, sent, False)" and f: "Failed_n st = 0"
  shows "pending_ids d' = pending_ids d - e_id ` set (due_events now (pc_BatchSize pc) d)"
    and "Claimed_n st = length (due_events now (pc_BatchSize pc) d)" and "e_id ` set (due_events now (pc_BatchSize pc) d) \<subseteq> pending_ids d"
    and "set sent = e_id ` set (due_events now (pc_BatchSize pc) d)"
proof -
  obtain es d1 where c: "ClaimDue now (pc_BatchSize pc) (pc_ClaimTimeout pc) d = (es, d1)"
    by fastforce
  note C = ClaimDue_pending [OF k c]
  have "publish_loop pc es env d1 \<lparr> Claimed_n = length es, Published_n = 0, Failed_n = 0, AlreadyPublished_n = 0 \<rparr> [] = (d', st, sent, False)"
    using r c by (simp add: RunOnce_def)
  note L = publish_loop_all [OF this f]
  show "pending_ids d' = pending_ids d - e_id ` set (due_events now (pc_BatchSize pc) d)"
    using L C(1,2) by simp
  show "Claimed_n st = length (due_events now (pc_BatchSize pc) d)"
    using L C(3) by simp
  show "e_id ` set (due_events now (pc_BatchSize pc) d) \<subseteq> pending_ids d"
    using C(2,4) by simp
  show "set sent = e_id ` set (due_events now (pc_BatchSize pc) d)"
    using L C(2) by simp
qed

lemma publish_loop_keys:
  assumes "publish_loop pc es env d st sent = (d', st', sent', stopped)"
  shows "keys_ok d' = keys_ok d"
proof -
  have rec: "keys_ok (publisher_recordFailure pc env e cause d) = keys_ok d" for env e cause d
    by (simp add: publisher_recordFailure_def RecordFailure_def Let_def keys_ok_def map_key_upd)
  have mark: "keys_ok (snd (MarkPublished now i d)) = keys_ok d" for now i d
    by (simp add: MarkPublished_def Let_def keys_ok_def map_key_upd)
  show ?thesis
    using assms
  proof (induction es arbitrary: d st sent)
    case (Cons e es)
    from Cons.prems show ?case
      by (cases rule: publish_loop_cases) (use Cons.IH rec mark in auto)
  qed simp
qed

lemma RunOnce_keys: "keys_ok d \<Longrightarrow> RunOnce pc now env d = (d', st, sent, stopped) \<Longrightarrow> keys_ok d'"
  using ClaimDue_pending(5) publish_loop_keys by (fastforce simp: RunOnce_def split: prod.splits)

text \<open>A full pass that goes on shrinks the set of pending events.\<close>

lemma drain_returns_aux:
  assumes "1 \<le> pc_BatchSize pc" and "keys_ok d"
  shows "\<exists>r. drain pc envs n d sent = Some r"
  using assms(2)
proof (induction "card (pending_ids d)" arbitrary: n d sent rule: less_induct)
  case less
  obtain now env c where e: "envs n = (now, env, c)"
    using prod_cases3 by blast
  obtain d' st s stopped where r: "RunOnce pc now env d = (d', st, s, stopped)"
    using prod_cases4 by blast
  show ?case
  proof (cases "stopped \<or> c \<or> Claimed_n st < pc_BatchSize pc \<or> Failed_n st > 0")
    case True
    then show ?thesis
      using e r by (subst drain.simps) auto
  next
    case False
    note F = RunOnce_full [OF less.prems, of pc now env d' st s]
    have "pending_ids d' \<subset> pending_ids d"
      using F r False assms(1) by (cases "due_events now (pc_BatchSize pc) d") auto
    then have "\<exists>r. drain pc envs (Suc n) d' (sent @ s) = Some r"
      using less.hyps [of d' "Suc n" "sent @ s"] RunOnce_keys [OF less.prems r] finite_pending psubset_card_mono by blast
    then show ?thesis
      using e r False by (subst drain.simps) auto
  qed
qed



section \<open>A working broker\<close>

definition works :: "publish_env \<Rightarrow> bool" where
  "works env = (\<not> env_done env \<and> env_body_error env = None \<and> env_publish_error env = None \<and> \<not> env_mark_error env)"

lemma publish_loop_works:
  assumes "\<And>e. works (env e)" and "publish_loop pc es env d st sent = (d', st', sent', stopped)"
  shows "\<not> stopped \<and> Failed_n st' = Failed_n st"
  using assms(2)
proof (induction es arbitrary: d st sent)
  case (Cons e es)
  from Cons.prems show ?case
    by (cases rule: publish_loop_cases) (use assms(1) [of e] Cons.IH in \<open>auto simp: works_def\<close>)
qed simp

lemma publish_loop_other:
  assumes "publish_loop pc es env d st sent = (d', st', sent', stopped)" and "i \<notin> e_id ` set es"
  shows "get_event d' i = get_event d i"
proof -
  have upd: "lookup e_id (upd_where (\<lambda>e. e_id e = j \<and> p e) g t) i = lookup e_id t i" if "\<And>e. e_id (g e) = e_id e" "j \<noteq> i"
    for j and p :: "event_row \<Rightarrow> bool" and g and t
    using that by (cases "lookup e_id t i") (auto simp: lookup_upd dest: lookup_key)
  have rec: "get_event (publisher_recordFailure pc env e cause d) i = get_event d i" if "e_id e \<noteq> i" for env e cause d
    using that by (simp add: publisher_recordFailure_def RecordFailure_def Let_def upd)
  have mark: "get_event (snd (MarkPublished now j d)) i = get_event d i" if "j \<noteq> i" for now j d
    using that by (simp add: MarkPublished_def Let_def upd)
  show ?thesis
    using assms
  proof (induction es arbitrary: d st sent)
    case (Cons e es)
    have ne: "e_id e \<noteq> i" "i \<notin> e_id ` set es"
      using Cons.prems(2) by auto
    from Cons.prems(1) show ?case
      by (cases rule: publish_loop_cases) (use ne rec [OF ne(1)] mark [OF ne(1)] Cons.IH [OF _ ne(2)] in auto)
  qed simp
qed

lemma RunOnce_works:
  assumes k: "keys_ok d" and w: "\<And>e. works (env e)" and r: "RunOnce pc now env d = (d', st, sent, stopped)"
  shows "\<not> stopped" and "Failed_n st = 0"
    and "i \<notin> e_id ` set (due_events now (pc_BatchSize pc) d) \<Longrightarrow> get_event d' i = get_event d i"
proof -
  obtain es d1 where c: "ClaimDue now (pc_BatchSize pc) (pc_ClaimTimeout pc) d = (es, d1)"
    by fastforce
  have l: "publish_loop pc es env d1 \<lparr> Claimed_n = length es, Published_n = 0, Failed_n = 0, AlreadyPublished_n = 0 \<rparr> [] = (d', st, sent, stopped)"
    using r c by (simp add: RunOnce_def)
  show "\<not> stopped" "Failed_n st = 0"
    using publish_loop_works [OF w l] by simp_all
  assume i: "i \<notin> e_id ` set (due_events now (pc_BatchSize pc) d)"
  then have "get_event d' i = get_event d1 i"
    using publish_loop_other [OF l] ClaimDue_pending(2) [OF k c] by simp
  also have "\<dots> = get_event d i"
  proof (cases "get_event d i")
    case (Some x)
    then show ?thesis
      using c i lookup_key [OF Some] by (simp add: ClaimDue_def Let_def) (auto simp: lookup_upd claim_event_def)
  qed (use c in \<open>auto simp: ClaimDue_def Let_def lookup_upd claim_event_def\<close>)
  finally show "get_event d' i = get_event d i" .
qed

lemma drain_delivers_aux:
  assumes "1 \<le> pc_BatchSize pc" and "\<And>n. \<exists>t env. envs n = (t, env, False) \<and> now \<le> t \<and> (\<forall>e. works (env e))"
    and "keys_ok d" and "drain pc envs n d sent = Some (d', sent')"
  shows "set sent \<subseteq> set sent' \<and> pending_ids d' \<subseteq> pending_ids d
     \<and> (\<forall>i e. get_event d i = Some e \<and> e_status e = EventPending \<and> e_available_at e \<le> now \<longrightarrow> i \<in> set sent' \<and> i \<notin> pending_ids d')"
  using assms(3,4)
proof (induction "card (pending_ids d)" arbitrary: n d sent rule: less_induct)
  case less
  obtain t env where e: "envs n = (t, env, False)" "now \<le> t" and w: "\<And>e. works (env e)"
    using assms(2) [of n] by blast
  obtain d1 st s stopped where r: "RunOnce pc t env d = (d1, st, s, stopped)"
    using prod_cases4 by blast
  note W = RunOnce_works [OF less.prems(1) w r]
  let ?due = "due_events t (pc_BatchSize pc) d"
  have r0: "RunOnce pc t env d = (d1, st, s, False)"
    using r W(1) by simp
  note F = RunOnce_full [OF less.prems(1) r0 W(2)]
  have dr: "(if Claimed_n st < pc_BatchSize pc then Some (d1, sent @ s) else drain pc envs (Suc n) d1 (sent @ s)) = Some (d', sent')"
    using less.prems(2) e(1) r0 W(2) by (subst (asm) drain.simps) simp
  have due: "i \<in> e_id ` set ?due \<or> (Claimed_n st = pc_BatchSize pc \<and> get_event d1 i = Some x)"
    if x: "get_event d i = Some x" "e_status x = EventPending" "e_available_at x \<le> now" for i x
  proof (cases "i \<in> e_id ` set ?due")
    case False
    have "\<not> length (filter (\<lambda>e. e_status e = EventPending \<and> e_available_at e \<le> t) (db_outbox d)) \<le> pc_BatchSize pc"
    proof
      assume "length (filter (\<lambda>e. e_status e = EventPending \<and> e_available_at e \<le> t) (db_outbox d)) \<le> pc_BatchSize pc"
      then have "x \<in> set ?due"
        using x e(2) lookup_SomeD [OF x(1)] by (simp add: due_events_def select_ordered_all(1))
      then show False
        using False lookup_key [OF x(1)] by auto
    qed
    then have "Claimed_n st = pc_BatchSize pc"
      using F(2) by (simp add: due_events_def select_ordered_def)
    then show ?thesis
      using W(3) [OF False] x(1) by simp
  qed simp
  show ?case
  proof (cases "Claimed_n st < pc_BatchSize pc")
    case True
    then have "d1 = d'" "sent' = sent @ s"
      using dr by simp_all
    then show ?thesis
      using due True F(1,4) by fastforce
  next
    case False
    have dr': "drain pc envs (Suc n) d1 (sent @ s) = Some (d', sent')"
      using dr False by simp
    have "pending_ids d1 \<subset> pending_ids d"
      using F False assms(1) by (cases ?due) auto
    then have IH: "set (sent @ s) \<subseteq> set sent'" "pending_ids d' \<subseteq> pending_ids d1"
      "\<forall>i e. get_event d1 i = Some e \<and> e_status e = EventPending \<and> e_available_at e \<le> now \<longrightarrow> i \<in> set sent' \<and> i \<notin> pending_ids d'"
      using less.hyps [OF psubset_card_mono [OF finite_pending] RunOnce_keys [OF less.prems(1) r] dr'] by blast+
    have "i \<in> set sent' \<and> i \<notin> pending_ids d'"
      if x: "get_event d i = Some x" "e_status x = EventPending" "e_available_at x \<le> now" for i x
      using due [OF x] IH F(1,4) x by auto
    then show ?thesis
      using IH(1,2) F(1) by auto
  qed
qed



end
