(* ===== verification/Decimal.thy ===== *)
theory Decimal
  imports GoStrings
begin

text \<open>
  Decimal numerals as the standard library writes and reads them: \<^verbatim>\<open>strconv.Itoa\<close>, the zero-padded
  fields of \<^verbatim>\<open>time.Format\<close>, and the value of a string of digits.
\<close>

definition is_digit :: "char \<Rightarrow> bool" where
  "is_digit c = (48 \<le> byte c \<and> byte c \<le> 57)"

definition digit :: "nat \<Rightarrow> char" where
  "digit n = chr (48 + n)"

fun nat_digits :: "nat \<Rightarrow> string" where
  "nat_digits n = (if n < 10 then [digit n] else nat_digits (n div 10) @ [digit (n mod 10)])"

declare nat_digits.simps [simp del]

definition Itoa :: "int \<Rightarrow> string" where
  "Itoa x = (if x < 0 then CHR ''-'' # nat_digits (nat (- x)) else nat_digits (nat x))"

definition padded :: "nat \<Rightarrow> nat \<Rightarrow> string" where
  "padded w n = replicate (w - length (nat_digits n)) (digit 0) @ nat_digits n"

definition digit_value :: "char \<Rightarrow> nat" where
  "digit_value c = byte c - 48"

definition digits_value :: "string \<Rightarrow> nat" where
  "digits_value s = foldl (\<lambda>n c. n * 10 + digit_value c) 0 s"

lemma digit_facts [simp]: "n < 10 \<Longrightarrow> is_digit (digit n)" "n < 10 \<Longrightarrow> digit_value (digit n) = n" "n < 10 \<Longrightarrow> byte (digit n) = 48 + n"
  by (simp_all add: digit_def is_digit_def digit_value_def)

lemma digits_value_snoc [simp]: "digits_value (s @ [c]) = digits_value s * 10 + digit_value c"
  by (simp add: digits_value_def)

lemma digits_value_Nil [simp]: "digits_value [] = 0"
  by (simp add: digits_value_def)

lemma digits_value_nat_digits [simp]: "digits_value (nat_digits n) = n"
proof (induction n rule: nat_digits.induct)
  case (1 n)
  show ?case
  proof (cases "n < 10")
    case True
    then show ?thesis
      by (simp add: nat_digits.simps [of n] digits_value_def)
  next
    case False
    then show ?thesis
      using 1 by (simp add: nat_digits.simps [of n])
  qed
qed

lemma nat_digits_are_digits [simp]: "list_all is_digit (nat_digits n)"
proof (induction n rule: nat_digits.induct)
  case (1 n)
  then show ?case
    by (cases "n < 10") (simp_all add: nat_digits.simps [of n])
qed

lemma nat_digits_nonempty [simp]: "nat_digits n \<noteq> []"
  by (simp add: nat_digits.simps [of n])

lemma nat_digits_inject [simp]: "nat_digits m = nat_digits n \<longleftrightarrow> m = n"
  by (metis digits_value_nat_digits)

lemma nat_digits_head: "\<exists>c s. nat_digits n = c # s \<and> is_digit c"
  using nat_digits_are_digits [of n] by (cases "nat_digits n") auto

lemma Itoa_inject [simp]: "Itoa x = Itoa y \<longleftrightarrow> x = y"
proof -
  have "nat_digits n \<noteq> CHR ''-'' # s" for n s
    using nat_digits_head [of n] by (auto simp: is_digit_def)
  then have "CHR ''-'' # s \<noteq> nat_digits n" for n s
    by metis
  then show ?thesis
    using \<open>\<And>s n. nat_digits n \<noteq> CHR ''-'' # s\<close> by (auto simp: Itoa_def split: if_splits)
qed

lemma digits_value_zeros: "digits_value (replicate k (digit 0) @ s) = digits_value s"
proof (induction s rule: rev_induct)
  case Nil
  show ?case
    by (induction k) (simp_all add: digits_value_def)
next
  case (snoc c s)
  then show ?case
    using digits_value_snoc [of "replicate k (digit 0) @ s" c] by simp
qed

lemma digits_value_padded [simp]: "digits_value (padded w n) = n"
  by (simp add: padded_def digits_value_zeros)

lemma padded_are_digits [simp]: "list_all is_digit (padded w n)"
  using nat_digits_are_digits [of n] by (auto simp: padded_def list_all_iff set_replicate_conv_if)

lemma padded_nonempty [simp]: "padded w n \<noteq> []"
  by (simp add: padded_def)

lemma padded_inject: "padded w m = padded w n \<longleftrightarrow> m = n"
  by (metis digits_value_padded)

lemma length_nat_digits: "0 < w \<Longrightarrow> n < 10 ^ w \<Longrightarrow> length (nat_digits n) \<le> w"
proof (induction w arbitrary: n)
  case (Suc w)
  show ?case
  proof (cases "n < 10")
    case True
    then show ?thesis
      by (simp add: nat_digits.simps [of n])
  next
    case False
    then have "n div 10 < 10 ^ w" "0 < w"
      using Suc.prems(2) by (auto intro: ccontr simp: less_mult_imp_div_less mult.commute)
    then show ?thesis
      using Suc.IH [of "n div 10"] False by (simp add: nat_digits.simps [of n])
  qed
qed simp

lemma length_padded [simp]: "0 < w \<Longrightarrow> n < 10 ^ w \<Longrightarrow> length (padded w n) = w"
  using length_nat_digits [of w n] by (simp add: padded_def)

end
