(* ===== verification/Json.thy ===== *)
theory Json
  imports Decimal
begin

text \<open>
  Canonical JSON (\<^verbatim>\<open>internal/jobs/canonical.go\<close>) on top of the part of Go's \<^verbatim>\<open>encoding/json\<close> it uses: the
  decoder with \<^verbatim>\<open>UseNumber\<close> (numbers keep their literal, strings are unquoted with surrogate pairs
  joined and invalid UTF-8 replaced, a repeated key keeps its last value, nesting is limited),
  \<^verbatim>\<open>Decoder.More\<close>, and the encoder's string escapes without HTML escaping.
\<close>

datatype json = JNull | JBool bool | JNumber string | JString string | JArray "json list" | JObject "(string \<times> json) list"

datatype json_error = DecodeError | TrailingContent

section \<open>Tokens\<close>

definition is_ws :: "char \<Rightarrow> bool" where
  "is_ws c = (byte c = 32 \<or> byte c = 9 \<or> byte c = 10 \<or> byte c = 13)"

definition skip_ws :: "string \<Rightarrow> string" where
  "skip_ws s = dropWhile is_ws s"

definition hex_value :: "char \<Rightarrow> nat option" where
  "hex_value c = (if is_digit c then Some (byte c - 48)
     else if 97 \<le> byte c \<and> byte c \<le> 102 then Some (byte c - 87)
     else if 65 \<le> byte c \<and> byte c \<le> 70 then Some (byte c - 55) else None)"

text \<open>The four digits of an escaped code unit.\<close>

definition hex4 :: "char \<Rightarrow> char \<Rightarrow> char \<Rightarrow> char \<Rightarrow> nat option" where
  "hex4 a b c d = (case (hex_value a, hex_value b, hex_value c, hex_value d) of
     (Some w, Some x, Some y, Some z) \<Rightarrow> Some (((w * 16 + x) * 16 + y) * 16 + z) | _ \<Rightarrow> None)"

definition is_surrogate :: "rune \<Rightarrow> bool" where
  "is_surrogate u = (0xD800 \<le> u \<and> u \<le> 0xDFFF)"

text \<open>\<^verbatim>\<open>utf16.DecodeRune\<close>.\<close>

definition decode_pair :: "rune \<Rightarrow> rune \<Rightarrow> rune" where
  "decode_pair u v = (if 0xD800 \<le> u \<and> u < 0xDC00 \<and> 0xDC00 \<le> v \<and> v \<le> 0xDFFF
     then (u - 0xD800) * 1024 + (v - 0xDC00) + 0x10000 else RuneError)"

definition simple_escape :: "char \<Rightarrow> rune option" where
  "simple_escape e = (if byte e \<in> {34, 92, 47} then Some (byte e) else if byte e = 98 then Some 8 else if byte e = 102 then Some 12
     else if byte e = 110 then Some 10 else if byte e = 114 then Some 13 else if byte e = 116 then Some 9 else None)"

definition cons_rune :: "rune \<Rightarrow> (rune list \<times> string) option \<Rightarrow> (rune list \<times> string) option" where
  "cons_rune r = map_option (\<lambda>(rs, rest). (r # rs, rest))"

text \<open>An escaped code unit, with the second half of a surrogate pair when it follows: the rune and how many bytes it took.\<close>

definition unicode_escape :: "string \<Rightarrow> (rune \<times> nat) option" where
  "unicode_escape s = (case s of a # b # c # d # r \<Rightarrow> (case hex4 a b c d of
       None \<Rightarrow> None
     | Some u \<Rightarrow> if \<not> is_surrogate u then Some (u, 4)
         else (case r of x # y # a' # b' # c' # d' # _ \<Rightarrow>
             (case if byte x = 92 \<and> byte y = 117 then hex4 a' b' c' d' else None of
                Some v \<Rightarrow> if decode_pair u v \<noteq> RuneError then Some (decode_pair u v, 10) else Some (RuneError, 4)
              | None \<Rightarrow> Some (RuneError, 4))
           | _ \<Rightarrow> Some (RuneError, 4)))
     | _ \<Rightarrow> None)"

lemma unicode_escape_len: "unicode_escape s = Some (r, n) \<Longrightarrow> n \<le> length s \<and> 0 < n"
  by (auto simp: unicode_escape_def split: list.splits option.splits if_splits)

text \<open>The characters of a string literal after its opening quote.\<close>

function parse_chars :: "string \<Rightarrow> (rune list \<times> string) option" where
  "parse_chars [] = None"
| "parse_chars (c # cs) =
     (if byte c = 34 then Some ([], cs)
      else if byte c < 32 then None
      else if byte c = 92 then
        (case cs of [] \<Rightarrow> None
         | e # r \<Rightarrow> if byte e = 117 then
               (case unicode_escape r of None \<Rightarrow> None | Some (u, n) \<Rightarrow> cons_rune u (parse_chars (drop n r)))
             else (case simple_escape e of None \<Rightarrow> None | Some u \<Rightarrow> cons_rune u (parse_chars r)))
      else (case decode_rune c cs of (u, w) \<Rightarrow> cons_rune u (parse_chars (drop (w - 1) cs))))"
  by pat_completeness auto
termination
  by (relation "measure length") auto

declare parse_chars.simps(2) [simp del]

definition parse_string :: "string \<Rightarrow> (string \<times> string) option" where
  "parse_string s = map_option (\<lambda>(rs, rest). (encode_runes rs, rest)) (parse_chars s)"

section \<open>Numbers\<close>

definition num_int :: "string \<Rightarrow> (string \<times> string) option" where
  "num_int s = (case s of [] \<Rightarrow> None
     | c # r \<Rightarrow> if byte c = 48 then Some ([c], r)
         else if is_digit c then Some (c # takeWhile is_digit r, dropWhile is_digit r) else None)"

definition num_sign :: "string \<Rightarrow> (string \<times> string) option" where
  "num_sign s = (case s of c # r \<Rightarrow> if byte c = 45 then map_option (\<lambda>(l, r). (c # l, r)) (num_int r) else num_int s | [] \<Rightarrow> None)"

definition num_digits :: "string \<Rightarrow> (string \<times> string) option" where
  "num_digits s = (if takeWhile is_digit s = [] then None else Some (takeWhile is_digit s, dropWhile is_digit s))"

definition num_frac :: "string \<Rightarrow> (string \<times> string) option" where
  "num_frac s = (case s of c # r \<Rightarrow> if byte c = 46 then map_option (\<lambda>(l, r). (c # l, r)) (num_digits r) else Some ([], s)
     | [] \<Rightarrow> Some ([], []))"

definition num_exp :: "string \<Rightarrow> (string \<times> string) option" where
  "num_exp s = (case s of c # r \<Rightarrow>
       if byte c = 101 \<or> byte c = 69 then
         map_option (\<lambda>(l, r). (c # l, r)) (case r of p # t \<Rightarrow> if byte p = 43 \<or> byte p = 45
             then map_option (\<lambda>(l, r). (p # l, r)) (num_digits t) else num_digits r | [] \<Rightarrow> None)
       else Some ([], s)
     | [] \<Rightarrow> Some ([], []))"

definition parse_number :: "string \<Rightarrow> (string \<times> string) option" where
  "parse_number s = (case num_sign s of None \<Rightarrow> None
     | Some (i, r) \<Rightarrow> (case num_frac r of None \<Rightarrow> None
         | Some (f, r') \<Rightarrow> (case num_exp r' of None \<Rightarrow> None | Some (e, r'') \<Rightarrow> Some (i @ f @ e, r''))))"

section \<open>Values\<close>

text \<open>The members of a Go map: a repeated key replaces the earlier value.\<close>

fun put_member :: "string \<Rightarrow> json \<Rightarrow> (string \<times> json) list \<Rightarrow> (string \<times> json) list" where
  "put_member k v [] = [(k, v)]"
| "put_member k v ((k', v') # ms) = (if k' = k then (k, v) # ms else (k', v') # put_member k v ms)"

definition parse_word :: "string \<Rightarrow> json \<Rightarrow> string \<Rightarrow> (json \<times> string) option" where
  "parse_word w v s = (if take (length w) s = w then Some (v, drop (length w) s) else None)"

text \<open>
  The recursive descent, with fuel for its steps and the nesting that is still allowed; the fuel
  \<^verbatim>\<open>decode\<close> gives is enough for every input.
\<close>

fun parse_value :: "nat \<Rightarrow> nat \<Rightarrow> string \<Rightarrow> (json \<times> string) option"
  and parse_elems :: "nat \<Rightarrow> nat \<Rightarrow> string \<Rightarrow> (json list \<times> string) option"
  and parse_members :: "nat \<Rightarrow> nat \<Rightarrow> (string \<times> json) list \<Rightarrow> string \<Rightarrow> ((string \<times> json) list \<times> string) option" where
  "parse_value 0 depth s = None"
| "parse_value (Suc n) depth s = (case skip_ws s of [] \<Rightarrow> None
     | c # r \<Rightarrow>
       if byte c = 123 then
         (if depth = 0 then None
          else case skip_ws r of [] \<Rightarrow> None
            | x # r' \<Rightarrow> if byte x = 125 then Some (JObject [], r')
                else map_option (\<lambda>(ms, t). (JObject ms, t)) (parse_members n (depth - 1) [] r))
       else if byte c = 91 then
         (if depth = 0 then None
          else case skip_ws r of [] \<Rightarrow> None
            | x # r' \<Rightarrow> if byte x = 93 then Some (JArray [], r')
                else map_option (\<lambda>(vs, t). (JArray vs, t)) (parse_elems n (depth - 1) r))
       else if byte c = 34 then map_option (\<lambda>(t, r'). (JString t, r')) (parse_string r)
       else if byte c = 116 then parse_word ''true'' (JBool True) (c # r)
       else if byte c = 102 then parse_word ''false'' (JBool False) (c # r)
       else if byte c = 110 then parse_word ''null'' JNull (c # r)
       else map_option (\<lambda>(t, r'). (JNumber t, r')) (parse_number (c # r)))"
| "parse_elems 0 depth s = None"
| "parse_elems (Suc n) depth s = (case parse_value n depth s of None \<Rightarrow> None
     | Some (v, r) \<Rightarrow> (case skip_ws r of [] \<Rightarrow> None
         | c # r' \<Rightarrow> if byte c = 44 then map_option (\<lambda>(vs, t). (v # vs, t)) (parse_elems n depth r')
             else if byte c = 93 then Some ([v], r') else None))"
| "parse_members 0 depth ms s = None"
| "parse_members (Suc n) depth ms s = (case skip_ws s of [] \<Rightarrow> None
     | q # s1 \<Rightarrow> if byte q \<noteq> 34 then None
       else case parse_string s1 of None \<Rightarrow> None
         | Some (k, s2) \<Rightarrow> (case skip_ws s2 of [] \<Rightarrow> None
           | c # s3 \<Rightarrow> if byte c \<noteq> 58 then None
             else case parse_value n depth s3 of None \<Rightarrow> None
               | Some (v, s4) \<Rightarrow> (case skip_ws s4 of [] \<Rightarrow> None
                 | c' # s5 \<Rightarrow> if byte c' = 44 then parse_members n depth (put_member k v ms) s5
                     else if byte c' = 125 then Some (put_member k v ms, s5) else None)))"

definition maxNestingDepth :: nat where
  "maxNestingDepth = 10000"

definition json_decode :: "string \<Rightarrow> (json \<times> string) option" where
  "json_decode s = parse_value (2 * length s + 2) maxNestingDepth s"

text \<open>\<^verbatim>\<open>Decoder.More\<close> after a top-level value: a following bracket does not count.\<close>

definition decoder_More :: "string \<Rightarrow> bool" where
  "decoder_More rest = (case skip_ws rest of [] \<Rightarrow> False | c # _ \<Rightarrow> byte c \<noteq> 93 \<and> byte c \<noteq> 125)"

section \<open>The canonical writer\<close>

definition hex_digit :: "nat \<Rightarrow> char" where
  "hex_digit n = chr (if n < 10 then 48 + n else 87 + n)"

definition unicode_of :: "rune \<Rightarrow> string" where
  "unicode_of r = chr 92 # chr 117 # [hex_digit (r div 4096 mod 16), hex_digit (r div 256 mod 16), hex_digit (r div 16 mod 16),
     hex_digit (r mod 16)]"

definition escape_rune :: "rune \<Rightarrow> string" where
  "escape_rune r = (if r = 34 \<or> r = 92 then [chr 92, chr r] else if r = 8 then [chr 92, chr 98]
     else if r = 12 then [chr 92, chr 102] else if r = 10 then [chr 92, chr 110] else if r = 13 then [chr 92, chr 114]
     else if r = 9 then [chr 92, chr 116] else if r < 32 \<or> r = 0x2028 \<or> r = 0x2029 then unicode_of r
     else encode_rune r)"

lemma escape_rune_code [code]: "escape_rune r = (if r = 34 \<or> r = 92 then [chr 92, chr r] else if 32 \<le> r \<and> r < 128 then [chr r]
     else if r = 8 then [chr 92, chr 98]
     else if r = 12 then [chr 92, chr 102] else if r = 10 then [chr 92, chr 110] else if r = 13 then [chr 92, chr 114]
     else if r = 9 then [chr 92, chr 116] else if r < 32 \<or> r = 0x2028 \<or> r = 0x2029 then unicode_of r
     else encode_rune r)"
  by (simp add: escape_rune_def encode_rune_code)

definition escape_chunk :: "rune \<times> string \<Rightarrow> string" where
  "escape_chunk c = (if snd c \<noteq> encode_rune (fst c) then unicode_of RuneError else escape_rune (fst c))"

definition writeCanonicalString :: "string \<Rightarrow> string" where
  "writeCanonicalString s = chr 34 # concat (map escape_chunk (chunks s)) @ [chr 34]"

definition sort_members :: "(string \<times> 'a) list \<Rightarrow> (string \<times> 'a) list" where
  "sort_members = sort_key fst"

lemma sort_members_code [code]: "sort_members ms = foldr (insort_key fst) ms []"
  by (simp add: sort_members_def sort_key_def)

primrec writeCanonical :: "json \<Rightarrow> string" where
  "writeCanonical JNull = ''null''"
| "writeCanonical (JBool b) = (if b then ''true'' else ''false'')"
| "writeCanonical (JNumber t) = t"
| "writeCanonical (JString t) = writeCanonicalString t"
| "writeCanonical (JArray vs) = chr 91 # strings_Join (map writeCanonical vs) [chr 44] @ [chr 93]"
| "writeCanonical (JObject ms) = chr 123 # strings_Join (map (\<lambda>(k, t). writeCanonicalString k @ chr 58 # t)
     (sort_members (map (map_prod id writeCanonical) ms))) [chr 44] @ [chr 125]"

definition CanonicalJSON :: "string \<Rightarrow> json_error + string" where
  "CanonicalJSON raw = (case json_decode raw of None \<Rightarrow> Inl DecodeError
     | Some (v, rest) \<Rightarrow> if decoder_More rest then Inl TrailingContent else Inr (writeCanonical v))"

end
