(* ===== verification/JsonCanonical.thy ===== *)
theory JsonCanonical
  imports Json
begin

text \<open>
  The canonical form is a normal form: what the writer writes for a decoded value, the decoder reads
  back as the same value with its members in order. So canonicalising twice is canonicalising once,
  and two documents have the same canonical bytes exactly when they are the same value.
\<close>

section \<open>Strings\<close>

text \<open>A Go string that is valid UTF-8.\<close>

definition utf8_text :: "string \<Rightarrow> bool" where
  "utf8_text t = (\<exists>rs. list_all valid_rune rs \<and> t = encode_runes rs)"

lemma hex_value_digit: "n < 16 \<Longrightarrow> hex_value (hex_digit n) = Some n"
  by (auto simp: hex_value_def hex_digit_def is_digit_def)

lemma hex4_digits:
  assumes "r < 65536"
  shows "hex4 (hex_digit (r div 4096 mod 16)) (hex_digit (r div 256 mod 16)) (hex_digit (r div 16 mod 16)) (hex_digit (r mod 16)) = Some r"
proof -
  have "r div 4096 mod 16 = r div 4096"
    using assms by simp
  moreover have "r div 4096 < 16"
    using assms by simp
  moreover have "r div 4096 * 16 + r div 256 mod 16 = r div 256"
    using div_mult_mod_eq [of "r div 256" 16] by (simp add: div_mult2_eq [symmetric])
  moreover have "r div 256 * 16 + r div 16 mod 16 = r div 16"
    using div_mult_mod_eq [of "r div 16" 16] by (simp add: div_mult2_eq [symmetric])
  ultimately show ?thesis
    by (simp add: hex4_def hex_value_digit)
qed

lemma unicode_escape_digits:
  assumes "r < 65536" and "\<not> is_surrogate r"
  shows "parse_chars (unicode_of r @ s) = cons_rune r (parse_chars s)"
  using assms hex4_digits [OF assms(1)] by (simp add: unicode_of_def parse_chars.simps(2) unicode_escape_def)

lemma parse_chars_plain:
  assumes "valid_rune r" and "32 \<le> r" and "r \<noteq> 34" and "r \<noteq> 92"
  shows "parse_chars (encode_rune r @ s) = cons_rune r (parse_chars s)"
proof -
  obtain c cs where e: "encode_rune r = c # cs" and nc: "\<not> is_cont c"
    using encode_rune_shape [OF assms(1)] by blast
  have d: "decode_rune c (cs @ s) = (r, Suc (length cs))"
    using decode_encode_rune [OF assms(1), of s c "cs @ s"] e by simp
  have "byte c \<noteq> 34 \<and> \<not> byte c < 32 \<and> byte c \<noteq> 92"
  proof (cases "byte c < 128")
    case True
    then have "byte c = r"
      using d by (simp add: decode_rune_def)
    then show ?thesis
      using assms by simp
  qed simp
  then show ?thesis
    using d by (simp add: e parse_chars.simps(2))
qed

lemma parse_chars_escape:
  assumes "valid_rune r"
  shows "parse_chars (escape_rune r @ s) = cons_rune r (parse_chars s)"
proof -
  consider "r \<in> {34, 92, 8, 12, 10, 13, 9}" | "r \<notin> {34, 92, 8, 12, 10, 13, 9}" "r < 32 \<or> r = 0x2028 \<or> r = 0x2029"
    | "r \<notin> {34, 92, 8, 12, 10, 13, 9}" "32 \<le> r" "r \<noteq> 0x2028" "r \<noteq> 0x2029"
    by fastforce
  then show ?thesis
  proof cases
    case 1
    then show ?thesis
      by (auto simp: escape_rune_def parse_chars.simps(2) simple_escape_def)
  next
    case 2
    then have "escape_rune r = unicode_of r" "r < 65536" "\<not> is_surrogate r"
      by (auto simp: escape_rune_def is_surrogate_def)
    then show ?thesis
      using unicode_escape_digits by simp
  next
    case 3
    then have "escape_rune r = encode_rune r"
      by (auto simp: escape_rune_def)
    then show ?thesis
      using 3 parse_chars_plain [OF assms] by simp
  qed
qed

lemma parse_chars_written:
  "list_all valid_rune rs \<Longrightarrow>
    parse_chars (concat (map escape_chunk (map (\<lambda>r. (r, encode_rune r)) rs)) @ chr 34 # rest) = Some (rs, rest)"
proof (induction rs)
  case Nil
  then show ?case
    by (simp add: parse_chars.simps(2))
next
  case (Cons r rs)
  then show ?case
    by (simp add: escape_chunk_def parse_chars_escape cons_rune_def comp_def)
qed

lemma parse_string_written:
  assumes "utf8_text t"
  shows "\<exists>u. writeCanonicalString t = chr 34 # u \<and> (\<forall>rest. parse_string (u @ rest) = Some (t, rest))"
proof -
  obtain rs where rs: "list_all valid_rune rs" "t = encode_runes rs"
    using assms by (auto simp: utf8_text_def)
  show ?thesis
    using parse_chars_written [OF rs(1)]
    by (simp add: writeCanonicalString_def rs(2) chunks_encode_runes [OF rs(1)] parse_string_def)
qed

lemma hex4_bound: "hex4 a b c d = Some u \<Longrightarrow> u < 65536"
proof -
  have v: "n < 16" if "hex_value x = Some n" for x n
    using that by (auto simp: hex_value_def is_digit_def split: if_splits)
  assume "hex4 a b c d = Some u"
  then obtain w x y z where h: "hex_value a = Some w" "hex_value b = Some x" "hex_value c = Some y" "hex_value d = Some z"
    and u: "u = ((w * 16 + x) * 16 + y) * 16 + z"
    by (auto simp: hex4_def split: option.splits)
  have "w \<le> 15" "x \<le> 15" "y \<le> 15" "z \<le> 15"
    using v [OF h(1)] v [OF h(2)] v [OF h(3)] v [OF h(4)] by simp_all
  moreover have "u = w * 4096 + x * 256 + y * 16 + z"
    by (simp add: u algebra_simps)
  ultimately show ?thesis
    by linarith
qed

lemma unicode_escape_valid:
  assumes "unicode_escape s = Some (r, n)"
  shows "valid_rune r"
proof -
  have e: "valid_rune RuneError"
    by (simp add: valid_rune_def RuneError_def)
  have p: "valid_rune (decode_pair u v)" for u v
    using e by (auto simp: decode_pair_def valid_rune_def)
  have h: "valid_rune u" if "hex4 a b c d = Some u" "\<not> is_surrogate u" for a b c d u
    using hex4_bound [OF that(1)] that(2) by (auto simp: valid_rune_def is_surrogate_def)
  show ?thesis
    using assms e p h by (auto simp: unicode_escape_def split: list.splits option.splits if_splits)
qed

lemma parse_chars_step:
  assumes "parse_chars (c # cs) = Some (rs, rest)"
  shows "(rs = [] \<and> rest = cs) \<or> (\<exists>u rs' k. rs = u # rs' \<and> valid_rune u \<and> parse_chars (drop k cs) = Some (rs', rest))"
proof -
  have simple: "valid_rune u" if "simple_escape e = Some u" for e u
    using that by (auto simp: simple_escape_def valid_rune_def split: if_splits)
  obtain u w where d: "decode_rune c cs = (u, w)" and v: "valid_rune u"
    using decode_rune_valid [of c cs] by (cases "decode_rune c cs") simp
  have cons: "\<exists>rs'. rs = x # rs' \<and> p = Some (rs', rest)" if "cons_rune x p = Some (rs, rest)" for x p
    using that by (auto simp: cons_rune_def)
  consider "byte c = 34" | e r x n where "cs = e # r" "unicode_escape r = Some (x, n)" "cons_rune x (parse_chars (drop n r)) = Some (rs, rest)"
    | e r x where "cs = e # r" "simple_escape e = Some x" "cons_rune x (parse_chars r) = Some (rs, rest)"
    | "cons_rune u (parse_chars (drop (w - 1) cs)) = Some (rs, rest)"
    using assms d by (auto simp: parse_chars.simps(2) [of c cs] split: if_splits list.splits option.splits)
  then show ?thesis
  proof cases
    case 1
    then show ?thesis
      using assms by (simp add: parse_chars.simps(2) [of c cs])
  next
    case (2 e r x n)
    then show ?thesis
      using cons [OF 2(3)] unicode_escape_valid [OF 2(2)] by (metis drop_Suc_Cons)
  next
    case (3 e r x)
    then show ?thesis
      using cons [OF 3(3)] simple [OF 3(2)] by (metis drop0 drop_Suc_Cons)
  next
    case 4
    then show ?thesis
      using cons v by blast
  qed
qed

lemma parse_chars_result: "parse_chars s = Some (rs, rest) \<Longrightarrow> list_all valid_rune rs \<and> length rest < length s"
proof (induction "length s" arbitrary: s rs rest rule: less_induct)
  case less
  then obtain c cs where s: "s = c # cs"
    by (cases s) auto
  from parse_chars_step [OF less.prems [unfolded s]] show ?case
  proof
    assume "rs = [] \<and> rest = cs"
    then show ?thesis
      using s by simp
  next
    assume "\<exists>u rs' k. rs = u # rs' \<and> valid_rune u \<and> parse_chars (drop k cs) = Some (rs', rest)"
    then obtain u rs' k where u: "rs = u # rs'" "valid_rune u" "parse_chars (drop k cs) = Some (rs', rest)"
      by blast
    have "length (drop k cs) < length s"
      using s by simp
    then show ?thesis
      using less.hyps [OF _ u(3)] u(1,2) s by fastforce
  qed
qed

lemma parse_string_result: "parse_string s = Some (t, rest) \<Longrightarrow> utf8_text t \<and> length rest < length s"
  using parse_chars_result by (auto simp: parse_string_def utf8_text_def)

section \<open>Numbers\<close>

definition no_digit :: "string \<Rightarrow> bool" where
  "no_digit r = (case r of [] \<Rightarrow> True | c # _ \<Rightarrow> \<not> is_digit c)"

definition num_stop :: "string \<Rightarrow> bool" where
  "num_stop r = (case r of [] \<Rightarrow> True | c # _ \<Rightarrow> \<not> is_digit c \<and> byte c \<notin> {46, 101, 69})"

text \<open>A literal that is read back whole, whatever does not continue a number follows it.\<close>

definition is_number :: "string \<Rightarrow> bool" where
  "is_number t = ((\<exists>c u. t = c # u \<and> (byte c = 45 \<or> is_digit c)) \<and> (\<forall>r. num_stop r \<longrightarrow> parse_number (t @ r) = Some (t, r)))"

lemma digits_again: "no_digit r \<Longrightarrow> takeWhile is_digit (takeWhile is_digit s @ r) = takeWhile is_digit s"
  "no_digit r \<Longrightarrow> dropWhile is_digit (takeWhile is_digit s @ r) = r"
proof -
  have all: "\<forall>c\<in>set (takeWhile is_digit s). is_digit c"
    by (auto dest: set_takeWhileD)
  show "no_digit r \<Longrightarrow> takeWhile is_digit (takeWhile is_digit s @ r) = takeWhile is_digit s"
    using all by (cases r) (simp_all add: no_digit_def)
  show "no_digit r \<Longrightarrow> dropWhile is_digit (takeWhile is_digit s @ r) = r"
    using all by (cases r) (simp_all add: no_digit_def)
qed

lemma num_int_again:
  assumes "num_int s = Some (l, r)"
  shows "s = l @ r" and "\<exists>c u. l = c # u \<and> is_digit c" and "no_digit r' \<Longrightarrow> num_int (l @ r') = Some (l, r')"
proof -
  obtain c t where s: "s = c # t"
    using assms by (cases s) (auto simp: num_int_def)
  have c: "is_digit c" if "byte c = 48"
    using that by (simp add: is_digit_def)
  show "s = l @ r" "\<exists>c u. l = c # u \<and> is_digit c"
    using assms s c by (auto simp: num_int_def split: if_splits)
  show "no_digit r' \<Longrightarrow> num_int (l @ r') = Some (l, r')"
    using assms s by (auto simp: num_int_def digits_again split: if_splits)
qed

lemma num_digits_again:
  assumes "num_digits s = Some (l, r)"
  shows "s = l @ r" and "\<exists>c u. l = c # u \<and> is_digit c" and "no_digit r' \<Longrightarrow> num_digits (l @ r') = Some (l, r')"
proof -
  have l: "l = takeWhile is_digit s" "r = dropWhile is_digit s" "l \<noteq> []"
    using assms by (auto simp: num_digits_def split: if_splits)
  then show "s = l @ r"
    by simp
  show "\<exists>c u. l = c # u \<and> is_digit c"
    using l(1,3) by (cases s) (auto split: if_splits)
  show "no_digit r' \<Longrightarrow> num_digits (l @ r') = Some (l, r')"
    using l by (simp add: num_digits_def digits_again)
qed

lemma num_sign_again:
  assumes "num_sign s = Some (l, r)"
  shows "s = l @ r" and "\<exists>c u. l = c # u \<and> (byte c = 45 \<or> is_digit c)" and "no_digit r' \<Longrightarrow> num_sign (l @ r') = Some (l, r')"
proof -
  obtain c t where s: "s = c # t"
    using assms by (cases s) (auto simp: num_sign_def)
  show "s = l @ r" "\<exists>c u. l = c # u \<and> (byte c = 45 \<or> is_digit c)"
    using assms s num_int_again(1,2) by (fastforce simp: num_sign_def split: if_splits)+
  show "num_sign (l @ r') = Some (l, r')" if n: "no_digit r'"
  proof (cases "byte c = 45")
    case True
    then show ?thesis
      using assms s num_int_again(3) [OF _ n] by (auto simp: num_sign_def)
  next
    case False
    then have i: "num_int s = Some (l, r)"
      using assms s by (simp add: num_sign_def)
    then obtain u where "l = c # u"
      using num_int_again(1,2) [OF i] s by auto
    then show ?thesis
      using False num_int_again(3) [OF i n] by (simp add: num_sign_def)
  qed
qed

lemma num_frac_again:
  assumes "num_frac s = Some (l, r)"
  shows "s = l @ r" and "l = [] \<or> (\<exists>c u. l = c # u \<and> byte c = 46)"
    and "no_digit r' \<Longrightarrow> (case r' of [] \<Rightarrow> True | c # _ \<Rightarrow> byte c \<noteq> 46) \<Longrightarrow> num_frac (l @ r') = Some (l, r')"
proof -
  show "s = l @ r" "l = [] \<or> (\<exists>c u. l = c # u \<and> byte c = 46)"
    using assms num_digits_again(1) by (auto simp: num_frac_def split: list.splits if_splits)
  show "num_frac (l @ r') = Some (l, r')" if n: "no_digit r'" "case r' of [] \<Rightarrow> True | c # _ \<Rightarrow> byte c \<noteq> 46"
  proof (cases "l = []")
    case True
    then show ?thesis
      using n(2) by (auto simp: num_frac_def split: list.splits)
  next
    case False
    then obtain c t m where "byte c = 46" and m: "num_digits t = Some (m, r)" and "l = c # m"
      using assms by (auto simp: num_frac_def split: list.splits if_splits)
    then show ?thesis
      using num_digits_again(3) [OF m n(1)] by (simp add: num_frac_def)
  qed
qed

lemma num_exp_again:
  assumes "num_exp s = Some (l, r)"
  shows "s = l @ r" and "l = [] \<or> (\<exists>c u. l = c # u \<and> (byte c = 101 \<or> byte c = 69))"
    and "num_stop r' \<Longrightarrow> num_exp (l @ r') = Some (l, r')"
proof -
  have sign: "\<not> (byte c = 43 \<or> byte c = 45)" if "is_digit c" for c
    using that by (auto simp: is_digit_def)
  show "s = l @ r" "l = [] \<or> (\<exists>c u. l = c # u \<and> (byte c = 101 \<or> byte c = 69))"
    using assms num_digits_again(1) by (auto simp: num_exp_def split: list.splits if_splits)
  assume n: "num_stop r'"
  then have nd: "no_digit r'"
    by (simp add: num_stop_def no_digit_def split: list.splits)
  show "num_exp (l @ r') = Some (l, r')"
  proof (cases "l = []")
    case True
    then show ?thesis
      using n by (auto simp: num_exp_def num_stop_def split: list.splits)
  next
    case False
    then obtain c t where s: "s = c # t" "byte c = 101 \<or> byte c = 69"
      using assms by (auto simp: num_exp_def split: list.splits if_splits)
    then consider p u m where "t = p # u" "byte p = 43 \<or> byte p = 45" "num_digits u = Some (m, r)" "l = c # p # m"
      | m where "num_digits t = Some (m, r)" "l = c # m"
      using assms by (auto simp: num_exp_def split: list.splits if_splits)
    then show ?thesis
    proof cases
      case (1 p u m)
      then show ?thesis
        using s num_digits_again(3) [OF 1(3) nd] by (simp add: num_exp_def)
    next
      case (2 m)
      obtain d v where d: "m = d # v" "is_digit d"
        using num_digits_again(2) [OF 2(1)] by blast
      then have "num_digits (d # v @ r') = Some (m, r')"
        using num_digits_again(3) [OF 2(1) nd] by simp
      then show ?thesis
        using s 2(2) d sign [OF d(2)] by (auto simp: num_exp_def)
    qed
  qed
qed

lemma parse_number_again:
  assumes "parse_number s = Some (t, r)"
  shows "s = t @ r" and "is_number t"
proof -
  obtain i r1 f r2 e where i: "num_sign s = Some (i, r1)" and f: "num_frac r1 = Some (f, r2)" and e: "num_exp r2 = Some (e, r)"
    and t: "t = i @ f @ e"
    using assms by (auto simp: parse_number_def split: option.splits)
  note I = num_sign_again [OF i] and F = num_frac_again [OF f] and E = num_exp_again [OF e]
  show "s = t @ r"
    using I(1) F(1) E(1) t by simp
  have "parse_number (t @ r') = Some (t, r')" if n: "num_stop r'" for r'
  proof -
    have nd: "no_digit r'"
      using n by (simp add: num_stop_def no_digit_def split: list.splits)
    have e1: "no_digit (e @ r')" "case e @ r' of [] \<Rightarrow> True | c # _ \<Rightarrow> byte c \<noteq> 46"
      using E(2) n nd by (auto simp: no_digit_def num_stop_def is_digit_def split: list.splits)
    have f1: "no_digit (f @ e @ r')"
      using F(2) e1(1) by (auto simp: no_digit_def is_digit_def)
    show ?thesis
      using I(3) [OF f1] F(3) [OF e1] E(3) [OF n] by (simp add: parse_number_def t)
  qed
  then show "is_number t"
    using I(2) t by (auto simp: is_number_def)
qed

section \<open>Fuel\<close>

lemma skip_ws_len: "length (skip_ws s) \<le> length s"
  by (simp add: skip_ws_def length_dropWhile_le)

lemma skip_ws_Cons: "skip_ws s = c # r \<Longrightarrow> length r < length s"
  using skip_ws_len [of s] by simp

lemma parse_word_len: "parse_word w v s = Some (x, r) \<Longrightarrow> w \<noteq> [] \<Longrightarrow> length r < length s"
  by (cases s) (auto simp: parse_word_def split: if_splits)

lemma parse_number_len: "parse_number s = Some (t, r) \<Longrightarrow> length r < length s"
  using parse_number_again [of s t r] by (auto simp: is_number_def)

text \<open>Every successful call consumes input.\<close>

lemma parse_consumes:
  "parse_value n d s = Some (v, r) \<Longrightarrow> length r < length s"
  "parse_elems n d s = Some (vs, r) \<Longrightarrow> length r < length s"
  "parse_members n d ms s = Some (ms', r) \<Longrightarrow> length r < length s"
proof (induction n arbitrary: d s v r vs ms ms')
  case (Suc n)
  note lens = skip_ws_Cons parse_word_len parse_number_len
  {
    case 1
    then obtain c t where ct: "skip_ws s = c # t"
      by (auto split: list.splits)
    have l: "length t < length s"
      using skip_ws_Cons [OF ct] .
    have el: "length r < length s" if "skip_ws t = x # r" for x
      using skip_ws_Cons [OF that] l by simp
    have w: "length r < length s" if "parse_word u x (c # t) = Some (v, r)" "u \<noteq> []" for u x
      using parse_word_len [OF that] l by simp
    show ?case
      using 1 ct l el w [of "''true''"] w [of "''false''"] w [of "''null''"] Suc.IH(2,3) parse_string_result [of t _ r] parse_number_len [of "c # t" _ r]
      by (fastforce split: list.splits if_splits option.splits)
  next
    case 2
    then obtain v r1 c r2 where v: "parse_value n d s = Some (v, r1)" and c: "skip_ws r1 = c # r2"
      by (auto split: option.splits list.splits)
    have "length r2 < length s"
      using Suc.IH(1) [OF v] skip_ws_Cons [OF c] by simp
    then show ?case
      using 2 v c Suc.IH(2) [of d r2] by (fastforce split: if_splits)
  next
    case 3
    then obtain q s1 k s2 c s3 v s4 c' s5 where p: "skip_ws s = q # s1" "parse_string s1 = Some (k, s2)" "skip_ws s2 = c # s3"
      "parse_value n d s3 = Some (v, s4)" "skip_ws s4 = c' # s5"
      by (auto split: option.splits list.splits if_splits)
    have "length s5 < length s"
      using skip_ws_Cons [OF p(1)] parse_string_result [OF p(2)] skip_ws_Cons [OF p(3)] Suc.IH(1) [OF p(4)] skip_ws_Cons [OF p(5)] by simp
    then show ?case
      using 3 p Suc.IH(3) [of d _ s5] by (fastforce split: if_splits)
  }
qed simp_all

end
