(* ===== verification/JsonRoundTrip.thy ===== *)
theory JsonRoundTrip
  imports JsonCanonical "HOL-Library.Multiset"
begin

text \<open>
The canonical encoding of a payload (\<^verbatim>\<open>internal/jobs/canonical.go\<close>): the fuel of the decoder is enough, what the
decoder accepts is well formed, and reading back what \<^verbatim>\<open>writeCanonical\<close> wrote gives the value with its members in
order. So canonicalising is idempotent and two payloads have the same canonical bytes exactly when they are the same value.
\<close>

text \<open>The fuel of \<^verbatim>\<open>json_decode\<close> is enough: what succeeds with some fuel succeeds with any amount from there on.\<close>

lemma parse_fuel:
  "parse_value n d s = Some x \<Longrightarrow> 2 * length s + 1 \<le> m \<Longrightarrow> parse_value m d s = Some x"
  "parse_elems n d s = Some y \<Longrightarrow> 2 * length s + 2 \<le> m \<Longrightarrow> parse_elems m d s = Some y"
  "parse_members n d ms s = Some z \<Longrightarrow> 2 * length s + 2 \<le> m \<Longrightarrow> parse_members m d ms s = Some z"
proof (induction n arbitrary: d s x y z ms m)
  case (Suc n)
  {
    case 1
    then obtain m' where m: "m = Suc m'"
      by (cases m) simp_all
    obtain c t where ct: "skip_ws s = c # t"
      using 1(1) by (cases "skip_ws s") simp_all
    have l: "2 * length t + 2 \<le> m'"
      using skip_ws_Cons [OF ct] 1(2) m by simp
    have el: "parse_elems m' (d - 1) t = parse_elems n (d - 1) t" if "parse_elems n (d - 1) t \<noteq> None"
      using that Suc.IH(2) [OF _ l] by (cases "parse_elems n (d - 1) t") simp_all
    have me: "parse_members m' (d - 1) [] t = parse_members n (d - 1) [] t" if "parse_members n (d - 1) [] t \<noteq> None"
      using that Suc.IH(3) [OF _ l] by (cases "parse_members n (d - 1) [] t") simp_all
    consider "byte c = 123" | "byte c = 91" | "byte c \<noteq> 123" "byte c \<noteq> 91"
      by blast
    then show ?case
    proof cases
      case 1
      then show ?thesis
        using \<open>parse_value (Suc n) d s = Some x\<close> m ct me
        by (cases "skip_ws t"; cases "parse_members n (d - 1) [] t") (simp_all split: if_splits)
    next
      case 2
      then show ?thesis
        using \<open>parse_value (Suc n) d s = Some x\<close> m ct el
        by (cases "skip_ws t"; cases "parse_elems n (d - 1) t") (simp_all split: if_splits)
    next
      case 3
      then show ?thesis
        using \<open>parse_value (Suc n) d s = Some x\<close> m ct by simp
    qed
  next
    case 2
    then obtain m' where m: "m = Suc m'"
      by (cases m) simp_all
    obtain v r1 c r2 where v: "parse_value n d s = Some (v, r1)" and c: "skip_ws r1 = c # r2"
      using 2(1) by (auto split: option.splits list.splits)
    have l: "2 * length s + 1 \<le> m'" "2 * length r2 + 2 \<le> m'"
      using parse_consumes(1) [OF v] skip_ws_Cons [OF c] 2(2) m by simp_all
    have v': "parse_value m' d s = Some (v, r1)"
      by (rule Suc.IH(1) [OF v l(1)])
    have "parse_elems m' d r2 = parse_elems n d r2" if "parse_elems n d r2 \<noteq> None"
      using that Suc.IH(2) [OF _ l(2)] by (cases "parse_elems n d r2") simp_all
    then show ?case
      using 2(1) m c v v' by (cases "parse_elems n d r2") (simp_all split: if_splits)
  next
    case 3
    then obtain m' where m: "m = Suc m'"
      by (cases m) simp_all
    obtain q s1 k s2 c s3 v s4 c' s5 where p: "skip_ws s = q # s1" "parse_string s1 = Some (k, s2)" "skip_ws s2 = c # s3"
      "parse_value n d s3 = Some (v, s4)" "skip_ws s4 = c' # s5"
      using 3(1) by (auto split: option.splits list.splits if_splits)
    have l: "2 * length s3 + 1 \<le> m'" "2 * length s5 + 2 \<le> m'"
      using skip_ws_Cons [OF p(1)] parse_string_result [OF p(2)] skip_ws_Cons [OF p(3)] parse_consumes(1) [OF p(4)]
        skip_ws_Cons [OF p(5)] 3(2) m by simp_all
    have v': "parse_value m' d s3 = Some (v, s4)"
      by (rule Suc.IH(1) [OF p(4) l(1)])
    have "parse_members m' d (put_member k v ms) s5 = Some z" if "parse_members n d (put_member k v ms) s5 = Some z"
      by (rule Suc.IH(3) [OF that l(2)])
    then show ?case
      using 3(1) m p v' by (simp split: if_splits)
  }
qed simp_all

text \<open>Parsing with some fuel.\<close>

definition reads :: "nat \<Rightarrow> string \<Rightarrow> json \<Rightarrow> string \<Rightarrow> bool" where
  "reads d s v r = (\<exists>n. parse_value n d s = Some (v, r))"

definition reads_elems :: "nat \<Rightarrow> string \<Rightarrow> json list \<Rightarrow> string \<Rightarrow> bool" where
  "reads_elems d s vs r = (\<exists>n. parse_elems n d s = Some (vs, r))"

definition reads_members :: "nat \<Rightarrow> (string \<times> json) list \<Rightarrow> string \<Rightarrow> (string \<times> json) list \<Rightarrow> string \<Rightarrow> bool" where
  "reads_members d ms s ms' r = (\<exists>n. parse_members n d ms s = Some (ms', r))"

lemma json_decode_reads: "json_decode s = Some (v, r) \<longleftrightarrow> reads maxNestingDepth s v r"
proof -
  have "parse_value (2 * length s + 2) maxNestingDepth s = Some (v, r)" if e: "reads maxNestingDepth s v r"
  proof -
    obtain n where "parse_value n maxNestingDepth s = Some (v, r)"
      using e by (auto simp only: reads_def)
    then show ?thesis
      by (rule parse_fuel(1)) simp
  qed
  then show ?thesis
    unfolding json_decode_def reads_def by blast
qed

lemma readsD: "reads d s v r \<Longrightarrow> 2 * length s + 1 \<le> m \<Longrightarrow> parse_value m d s = Some (v, r)"
  unfolding reads_def by (elim exE) (rule parse_fuel(1))

lemma reads_elemsD: "reads_elems d s vs r \<Longrightarrow> 2 * length s + 2 \<le> m \<Longrightarrow> parse_elems m d s = Some (vs, r)"
  unfolding reads_elems_def by (elim exE) (rule parse_fuel(2))

lemma reads_membersD: "reads_members d ms s ms' r \<Longrightarrow> 2 * length s + 2 \<le> m \<Longrightarrow> parse_members m d ms s = Some (ms', r)"
  unfolding reads_members_def by (elim exE) (rule parse_fuel(3))

lemma reads_elems_last:
  assumes "reads d s v r" and "skip_ws r = c # t" and "byte c = 93"
  shows "reads_elems d s [v] t"
proof -
  define m where "m = 2 * length s + 1"
  have "parse_value m d s = Some (v, r)"
    by (rule readsD [OF assms(1)]) (simp add: m_def)
  then have "parse_elems (Suc m) d s = Some ([v], t)"
    using assms(2,3) by simp
  then show ?thesis
    unfolding reads_elems_def ..
qed

lemma reads_elems_more:
  assumes "reads d s v r" and "skip_ws r = c # t" and "byte c = 44" and "reads_elems d t vs u"
  shows "reads_elems d s (v # vs) u"
proof -
  define m where "m = 2 * length s + 2 * length t + 2"
  have "parse_value m d s = Some (v, r)"
    by (rule readsD [OF assms(1)]) (simp add: m_def)
  moreover have "parse_elems m d t = Some (vs, u)"
    by (rule reads_elemsD [OF assms(4)]) (simp add: m_def)
  ultimately have "parse_elems (Suc m) d s = Some (v # vs, u)"
    using assms(2,3) by simp
  then show ?thesis
    unfolding reads_elems_def ..
qed

lemma reads_member:
  assumes "skip_ws s = q # s1" "byte q = 34" "parse_string s1 = Some (k, s2)" "skip_ws s2 = c # s3" "byte c = 58"
    and "reads d s3 v s4" and "skip_ws s4 = c' # s5"
    and "(byte c' = 125 \<and> ms' = put_member k v ms \<and> u = s5) \<or> (byte c' = 44 \<and> reads_members d (put_member k v ms) s5 ms' u)"
  shows "reads_members d ms s ms' u"
proof -
  define m where "m = 2 * length s3 + 2 * length s5 + 2"
  have v: "parse_value m d s3 = Some (v, s4)"
    by (rule readsD [OF assms(6)]) (simp add: m_def)
  have "parse_members (Suc m) d ms s = Some (ms', u)"
    using assms(8)
  proof
    assume "byte c' = 125 \<and> ms' = put_member k v ms \<and> u = s5"
    then show ?thesis
      using assms(1-5,7) v by simp
  next
    assume a: "byte c' = 44 \<and> reads_members d (put_member k v ms) s5 ms' u"
    then have "parse_members m d (put_member k v ms) s5 = Some (ms', u)"
      by (intro reads_membersD) (simp_all add: m_def)
    then show ?thesis
      using assms(1-5,7) v a by simp
  qed
  then show ?thesis
    unfolding reads_members_def ..
qed

lemma reads_array:
  assumes "skip_ws s = c # t" "byte c = 91" "skip_ws t = x # t'" "byte x \<noteq> 93" and "reads_elems (d - 1) t vs r" and "0 < d"
  shows "reads d s (JArray vs) r"
proof -
  obtain n where "parse_elems n (d - 1) t = Some (vs, r)"
    using assms(5) by (auto simp: reads_elems_def)
  then have "parse_value (Suc n) d s = Some (JArray vs, r)"
    using assms by simp
  then show ?thesis
    unfolding reads_def ..
qed

lemma reads_object:
  assumes "skip_ws s = c # t" "byte c = 123" "skip_ws t = x # t'" "byte x \<noteq> 125" and "reads_members (d - 1) [] t ms r" and "0 < d"
  shows "reads d s (JObject ms) r"
proof -
  obtain n where "parse_members n (d - 1) [] t = Some (ms, r)"
    using assms(5) by (auto simp: reads_members_def)
  then have "parse_value (Suc n) d s = Some (JObject ms, r)"
    using assms by simp
  then show ?thesis
    unfolding reads_def ..
qed

section \<open>Decoded values\<close>

text \<open>What the decoder returns: number literals, UTF-8 strings, distinct keys, bounded nesting.\<close>

primrec json_ok :: "json \<Rightarrow> nat \<Rightarrow> bool" where
  "json_ok JNull = (\<lambda>d. True)"
| "json_ok (JBool b) = (\<lambda>d. True)"
| "json_ok (JNumber t) = (\<lambda>d. is_number t)"
| "json_ok (JString t) = (\<lambda>d. utf8_text t)"
| "json_ok (JArray vs) = (\<lambda>d. 0 < d \<and> list_all (\<lambda>f. f (d - 1)) (map json_ok vs))"
| "json_ok (JObject ms) = (\<lambda>d. 0 < d \<and> distinct (map fst ms) \<and>
     list_all (\<lambda>(k, f). utf8_text k \<and> f (d - 1)) (map (map_prod id json_ok) ms))"

definition members_ok :: "nat \<Rightarrow> (string \<times> json) list \<Rightarrow> bool" where
  "members_ok d ms = (distinct (map fst ms) \<and> (\<forall>(k, v) \<in> set ms. utf8_text k \<and> json_ok v d))"

lemma json_ok_array: "json_ok (JArray vs) d \<longleftrightarrow> 0 < d \<and> (\<forall>v \<in> set vs. json_ok v (d - 1))"
  by (simp add: list_all_iff)

lemma json_ok_object: "json_ok (JObject ms) d \<longleftrightarrow> 0 < d \<and> members_ok (d - 1) ms"
  by (auto simp: list_all_iff members_ok_def)

lemma set_put_member: "set (put_member k v ms) \<subseteq> insert (k, v) (set ms)"
  by (induction k v ms rule: put_member.induct) auto

lemma put_member_keys: "fst ` set (put_member k v ms) = insert k (fst ` set ms)"
  by (induction k v ms rule: put_member.induct) auto

lemma put_member_distinct: "distinct (map fst ms) \<Longrightarrow> distinct (map fst (put_member k v ms))"
  by (induction k v ms rule: put_member.induct) (auto simp: put_member_keys)

lemma put_member_new: "k \<notin> fst ` set ms \<Longrightarrow> put_member k v ms = ms @ [(k, v)]"
  by (induction k v ms rule: put_member.induct) auto

lemma members_ok_put: "members_ok d ms \<Longrightarrow> utf8_text k \<Longrightarrow> json_ok v d \<Longrightarrow> members_ok d (put_member k v ms)"
  using set_put_member [of k v ms] by (fastforce simp: members_ok_def put_member_distinct)

lemma decoded_ok:
  "parse_value n d s = Some (v, r) \<Longrightarrow> json_ok v d"
  "parse_elems n d s = Some (vs, r) \<Longrightarrow> \<forall>v \<in> set vs. json_ok v d"
  "parse_members n d ms s = Some (ms', r) \<Longrightarrow> members_ok d ms \<Longrightarrow> members_ok d ms'"
proof (induction n arbitrary: d s v r vs ms ms')
  case (Suc n)
  {
    case 1
    then obtain c t where ct: "skip_ws s = c # t"
      by (cases "skip_ws s") simp_all
    have nil: "members_ok (d - 1) []"
      by (simp add: members_ok_def)
    consider "byte c = 123" | "byte c = 91" | "byte c \<noteq> 123" "byte c \<noteq> 91"
      by blast
    then show ?case
    proof cases
      case a: 1
      then show ?thesis
        using 1 ct nil Suc.IH(3) [of "d - 1" "[]" t] by (cases "skip_ws t") (auto simp: json_ok_object simp del: json_ok.simps split: if_splits)
    next
      case a: 2
      then show ?thesis
        using 1 ct Suc.IH(2) [of "d - 1" t] by (cases "skip_ws t") (auto simp: json_ok_array simp del: json_ok.simps split: if_splits)
    next
      case a: 3
      then show ?thesis
        using 1 ct parse_string_result [of t _ r] parse_number_again(2) [of "c # t" _ r]
        by (auto simp: parse_word_def split: if_splits)
    qed
  next
    case 2
    then obtain w r1 c r2 where v: "parse_value n d s = Some (w, r1)" and c: "skip_ws r1 = c # r2"
      by (auto split: option.splits list.splits)
    show ?case
      using 2 v c Suc.IH(1) [OF v] Suc.IH(2) [of d r2] by (auto split: if_splits)
  next
    case 3
    then obtain q s1 k s2 c s3 v s4 c' s5 where p: "skip_ws s = q # s1" "parse_string s1 = Some (k, s2)" "skip_ws s2 = c # s3"
      "parse_value n d s3 = Some (v, s4)" "skip_ws s4 = c' # s5"
      by (auto split: option.splits list.splits if_splits)
    have "members_ok d (put_member k v ms)"
      using members_ok_put [OF 3(2)] parse_string_result [OF p(2)] Suc.IH(1) [OF p(4)] by blast
    then show ?case
      using 3(1) p Suc.IH(3) [of d "put_member k v ms" s5] by (auto split: if_splits)
  }
qed simp_all

section \<open>Reading back the canonical form\<close>

text \<open>The value with the members of every object in order of their keys.\<close>

primrec sortj :: "json \<Rightarrow> json" where
  "sortj JNull = JNull"
| "sortj (JBool b) = JBool b"
| "sortj (JNumber t) = JNumber t"
| "sortj (JString t) = JString t"
| "sortj (JArray vs) = JArray (map sortj vs)"
| "sortj (JObject ms) = JObject (sort_members (map (map_prod id sortj) ms))"

lemma insort_map_values: "insort_key fst (k, f v) (map (map_prod id f) ms) = map (map_prod id f) (insort_key fst (k, v) ms)"
  by (induction ms) auto

lemma sort_members_map: "sort_members (map (map_prod id f) ms) = map (map_prod id f) (sort_members ms)"
  by (induction ms) (simp_all add: sort_members_def split_paired_all insort_map_values [of _ f, unfolded id_def] id_def)

lemma sort_members_set [simp]: "set (sort_members ms) = set ms"
  by (simp add: sort_members_def)

lemma sort_members_distinct [simp]: "distinct (map fst (sort_members ms)) = distinct (map fst ms)"
  by (rule mset_eq_imp_distinct_iff) (simp add: sort_members_def)

lemma sort_members_idem [simp]: "sort_members (sort_members ms) = sort_members ms"
  by (simp add: sort_members_def sorted_sort_id sort_key_id_if_sorted)

definition write_member :: "string \<times> json \<Rightarrow> string" where
  "write_member m = writeCanonicalString (fst m) @ chr 58 # writeCanonical (snd m)"

lemma writeCanonical_object:
  "writeCanonical (JObject ms) = chr 123 # strings_Join (map write_member (sort_members ms)) [chr 44] @ [chr 125]"
  by (simp add: sort_members_map comp_def case_prod_unfold write_member_def [abs_def])

lemma writeCanonical_sortj: "writeCanonical (sortj v) = writeCanonical v"
proof (induction v)
  case (JArray vs)
  then have "map writeCanonical (map sortj vs) = map writeCanonical vs"
    by simp
  then show ?case
    by (simp del: map_map)
next
  case (JObject ms)
  have e: "map (map_prod id writeCanonical) (map (map_prod id sortj) ms) = map (map_prod id writeCanonical) ms"
    using JObject by (auto simp: Basic_BNFs.snds.simps)
  have "sort_members (map (map_prod id writeCanonical) (sort_members (map (map_prod id sortj) ms)))
      = sort_members (sort_members (map (map_prod id writeCanonical) (map (map_prod id sortj) ms)))"
    by (simp only: sort_members_map)
  then show ?case
    by (simp only: sortj.simps writeCanonical.simps e sort_members_idem)
qed simp_all

lemma skip_ws_plain: "\<not> is_ws c \<Longrightarrow> skip_ws (c # s) = c # s"
  by (simp add: skip_ws_def)

lemma is_ws_chr [simp]: "n < 256 \<Longrightarrow> is_ws (chr n) = (n = 32 \<or> n = 9 \<or> n = 10 \<or> n = 13)"
  by (simp add: is_ws_def)

lemma skip_ws_chr: "n < 256 \<Longrightarrow> n \<notin> {32, 9, 10, 13} \<Longrightarrow> skip_ws (chr n # s) = chr n # s"
  by (rule skip_ws_plain) simp

text \<open>No canonical text starts with white space or a closing bracket.\<close>

lemma writeCanonical_head:
  assumes "json_ok v d"
  shows "\<exists>c t. writeCanonical v = c # t \<and> \<not> is_ws c \<and> byte c \<noteq> 93 \<and> byte c \<noteq> 125"
  using assms
  by (cases v) (auto simp: is_ws_def is_digit_def is_number_def writeCanonicalString_def)

lemma strings_Join_more: "ss \<noteq> [] \<Longrightarrow> strings_Join (s # ss) sep = s @ sep @ strings_Join ss sep"
  by (cases ss) simp_all

lemma num_stop_chr [simp]: "n < 256 \<Longrightarrow> num_stop (chr n # s) = (\<not> (48 \<le> n \<and> n \<le> 57) \<and> n \<notin> {46, 101, 69})"
  by (simp add: num_stop_def is_digit_def)

lemma elems_read_back:
  assumes "\<And>v rest. v \<in> set vs \<Longrightarrow> num_stop rest \<Longrightarrow> reads d (writeCanonical v @ rest) (sortj v) rest" and "vs \<noteq> []"
  shows "reads_elems d (strings_Join (map writeCanonical vs) [chr 44] @ chr 93 # rest) (map sortj vs) rest"
  using assms
proof (induction vs)
  case (Cons v vs)
  show ?case
  proof (cases "vs = []")
    case True
    have "reads d (writeCanonical v @ chr 93 # rest) (sortj v) (chr 93 # rest)"
      by (rule Cons.prems(1)) simp_all
    then show ?thesis
      using True by (auto intro!: reads_elems_last simp: skip_ws_chr)
  next
    case False
    define tail where "tail = strings_Join (map writeCanonical vs) [chr 44] @ chr 93 # rest"
    have v: "reads d (writeCanonical v @ chr 44 # tail) (sortj v) (chr 44 # tail)"
      by (rule Cons.prems(1)) simp_all
    have vs: "reads_elems d tail (map sortj vs) rest"
      unfolding tail_def by (rule Cons.IH) (use Cons.prems False in auto)
    have "reads_elems d (writeCanonical v @ chr 44 # tail) (sortj v # map sortj vs) rest"
      by (rule reads_elems_more [OF v skip_ws_chr _ vs]) simp_all
    then show ?thesis
      using False by (simp add: strings_Join_more tail_def)
  qed
qed simp

lemma member_read_back:
  assumes v: "reads d (writeCanonical v @ chr e # t) (sortj v) (chr e # t)" and k: "utf8_text k" and new: "k \<notin> fst ` set acc"
    and e: "(e = 125 \<and> ms = acc @ [(k, sortj v)] \<and> u = t) \<or> (e = 44 \<and> reads_members d (acc @ [(k, sortj v)]) t ms u)"
  shows "reads_members d acc (write_member (k, v) @ chr e # t) ms u"
proof -
  obtain w where w: "writeCanonicalString k = chr 34 # w" "\<And>rest. parse_string (w @ rest) = Some (k, rest)"
    using parse_string_written [OF k] by blast
  have s: "skip_ws (write_member (k, v) @ chr e # t) = chr 34 # w @ chr 58 # writeCanonical v @ chr e # t"
    by (simp add: write_member_def w(1) skip_ws_chr)
  have c: "skip_ws (chr 58 # writeCanonical v @ chr e # t) = chr 58 # writeCanonical v @ chr e # t"
    by (simp add: skip_ws_chr)
  have "skip_ws (chr e # t) = chr e # t"
    using e by (auto simp: skip_ws_chr)
  then show ?thesis
    using e new by (intro reads_member [OF s _ w(2) c _ v]) (auto simp: put_member_new)
qed

lemma members_read_back:
  assumes "\<And>k v rest. (k, v) \<in> set ms \<Longrightarrow> num_stop rest \<Longrightarrow> reads d (writeCanonical v @ rest) (sortj v) rest" and "ms \<noteq> []"
    and "distinct (map fst (acc @ ms))" and "\<forall>k \<in> fst ` set ms. utf8_text k"
  shows "reads_members d acc (strings_Join (map write_member ms) [chr 44] @ chr 125 # rest) (acc @ map (map_prod id sortj) ms) rest"
  using assms
proof (induction ms arbitrary: acc)
  case (Cons m ms)
  obtain k v where m: "m = (k, v)"
    by force
  have k: "utf8_text k" "k \<notin> fst ` set acc"
    using Cons.prems(3,4) m by auto
  have v: "reads d (writeCanonical v @ r) (sortj v) r" if "num_stop r" for r
    by (rule Cons.prems(1) [of k]) (simp_all add: m that)
  show ?case
  proof (cases "ms = []")
    case True
    have "reads_members d acc (write_member (k, v) @ chr 125 # rest) (acc @ [(k, sortj v)]) rest"
      by (rule member_read_back [OF v k]) simp_all
    then show ?thesis
      using True m by simp
  next
    case False
    define tail where "tail = strings_Join (map write_member ms) [chr 44] @ chr 125 # rest"
    have "reads_members d (acc @ [(k, sortj v)]) tail ((acc @ [(k, sortj v)]) @ map (map_prod id sortj) ms) rest"
      unfolding tail_def by (rule Cons.IH) (use Cons.prems False m in auto)
    then have "reads_members d acc (write_member (k, v) @ chr 44 # tail) (acc @ (k, sortj v) # map (map_prod id sortj) ms) rest"
      by (intro member_read_back [OF v k]) simp_all
    then show ?thesis
      using False m by (simp add: strings_Join_more tail_def id_def)
  qed
qed simp

lemma number_read_back:
  assumes "is_number t" and "num_stop rest"
  shows "reads d (t @ rest) (JNumber t) rest"
proof -
  obtain c u where c: "t = c # u" "byte c = 45 \<or> is_digit c"
    using assms(1) by (auto simp: is_number_def)
  have p: "parse_number (c # u @ rest) = Some (t, rest)"
    using assms c(1) by (simp add: is_number_def)
  have "\<not> is_ws c" "byte c \<notin> {123, 91, 34, 116, 102, 110}"
    using c(2) by (auto simp: is_ws_def is_digit_def)
  then have "parse_value (Suc 0) d (t @ rest) = Some (JNumber t, rest)"
    using c(1) p by (simp add: skip_ws_plain)
  then show ?thesis
    unfolding reads_def ..
qed

lemma string_read_back:
  assumes "utf8_text t"
  shows "reads d (writeCanonicalString t @ rest) (JString t) rest"
proof -
  obtain w where w: "writeCanonicalString t = chr 34 # w" "\<And>rest. parse_string (w @ rest) = Some (t, rest)"
    using parse_string_written [OF assms] by blast
  then have "parse_value (Suc 0) d (writeCanonicalString t @ rest) = Some (JString t, rest)"
    by (simp add: skip_ws_chr)
  then show ?thesis
    unfolding reads_def ..
qed

lemma word_read_back:
  "reads d (''true'' @ rest) (JBool True) rest" "reads d (''false'' @ rest) (JBool False) rest" "reads d (''null'' @ rest) JNull rest"
proof -
  have "parse_value (Suc 0) d (''true'' @ rest) = Some (JBool True, rest)"
    "parse_value (Suc 0) d (''false'' @ rest) = Some (JBool False, rest)" "parse_value (Suc 0) d (''null'' @ rest) = Some (JNull, rest)"
    by (simp_all add: skip_ws_def is_ws_def parse_word_def)
  then show "reads d (''true'' @ rest) (JBool True) rest" "reads d (''false'' @ rest) (JBool False) rest" "reads d (''null'' @ rest) JNull rest"
    unfolding reads_def by blast+
qed

lemma empty_read_back:
  assumes "0 < d"
  shows "reads d (chr 91 # chr 93 # rest) (JArray []) rest" "reads d (chr 123 # chr 125 # rest) (JObject []) rest"
proof -
  have "parse_value (Suc 0) d (chr 91 # chr 93 # rest) = Some (JArray [], rest)"
    "parse_value (Suc 0) d (chr 123 # chr 125 # rest) = Some (JObject [], rest)"
    using assms by (simp_all add: skip_ws_chr)
  then show "reads d (chr 91 # chr 93 # rest) (JArray []) rest" "reads d (chr 123 # chr 125 # rest) (JObject []) rest"
    unfolding reads_def by blast+
qed

lemma array_read_back:
  assumes ok: "json_ok (JArray vs) d"
    and ih: "\<And>v rest. v \<in> set vs \<Longrightarrow> num_stop rest \<Longrightarrow> reads (d - 1) (writeCanonical v @ rest) (sortj v) rest"
  shows "reads d (writeCanonical (JArray vs) @ rest) (sortj (JArray vs)) rest"
proof (cases vs)
  case Nil
  then show ?thesis
    using ok empty_read_back(1) by simp
next
  case (Cons v ws)
  obtain c t where h: "writeCanonical v = c # t" "\<not> is_ws c" "byte c \<noteq> 93"
    using writeCanonical_head [of v "d - 1"] ok Cons by (auto simp: json_ok_array simp del: json_ok.simps)
  define tail where "tail = strings_Join (map writeCanonical vs) [chr 44] @ chr 93 # rest"
  obtain t' where t': "tail = c # t'"
    using h Cons by (cases ws) (auto simp: tail_def)
  have "reads_elems (d - 1) tail (map sortj vs) rest"
    unfolding tail_def by (rule elems_read_back [OF ih]) (simp_all add: Cons)
  then have "reads d (chr 91 # tail) (JArray (map sortj vs)) rest"
    using ok h t' by (intro reads_array [OF skip_ws_chr]) (auto simp: skip_ws_plain)
  then show ?thesis
    by (simp add: tail_def)
qed

lemma object_read_back:
  assumes ok: "json_ok (JObject ms) d"
    and ih: "\<And>k v rest. (k, v) \<in> set ms \<Longrightarrow> num_stop rest \<Longrightarrow> reads (d - 1) (writeCanonical v @ rest) (sortj v) rest"
  shows "reads d (writeCanonical (JObject ms) @ rest) (sortj (JObject ms)) rest"
proof (cases "sort_members ms")
  case Nil
  then show ?thesis
    using ok empty_read_back(2) by (simp add: sort_members_map)
next
  case (Cons m ns)
  have d: "0 < d" "members_ok (d - 1) ms"
    using ok by (auto simp: json_ok_object simp del: json_ok.simps)
  define tail where "tail = strings_Join (map write_member (sort_members ms)) [chr 44] @ chr 125 # rest"
  obtain t where t: "tail = chr 34 # t"
    by (cases ns) (simp_all add: tail_def Cons write_member_def writeCanonicalString_def)
  have "reads_members (d - 1) [] tail ([] @ map (map_prod id sortj) (sort_members ms)) rest"
    unfolding tail_def
  proof (rule members_read_back)
    show "reads (d - 1) (writeCanonical v @ r) (sortj v) r" if "(k, v) \<in> set (sort_members ms)" "num_stop r" for k v r
      by (rule ih [of k]) (use that in simp_all)
    show "sort_members ms \<noteq> []"
      by (simp add: Cons)
    show "distinct (map fst ([] @ sort_members ms))" "\<forall>k \<in> fst ` set (sort_members ms). utf8_text k"
      using d(2) by (auto simp: members_ok_def)
  qed
  then have "reads d (chr 123 # tail) (JObject (map (map_prod id sortj) (sort_members ms))) rest"
    using d(1) t by (intro reads_object [OF skip_ws_chr]) (auto simp: skip_ws_chr)
  then show ?thesis
    by (simp add: tail_def writeCanonical_object sort_members_map del: writeCanonical.simps(6))
qed

lemma write_read_back: "json_ok v d \<Longrightarrow> num_stop rest \<Longrightarrow> reads d (writeCanonical v @ rest) (sortj v) rest"
proof (induction v arbitrary: d rest)
  case (JArray vs)
  have "reads (d - 1) (writeCanonical v @ r) (sortj v) r" if "v \<in> set vs" "num_stop r" for v r
    by (rule JArray.IH) (use that JArray.prems in \<open>auto simp: json_ok_array simp del: json_ok.simps\<close>)
  then show ?case
    by (rule array_read_back [OF JArray.prems(1)])
next
  case (JObject ms)
  have "reads (d - 1) (writeCanonical v @ r) (sortj v) r" if "(k, v) \<in> set ms" "num_stop r" for k v r
    by (rule JObject.IH [OF that(1)]) (use that JObject.prems in \<open>auto simp: json_ok_object members_ok_def simp del: json_ok.simps\<close>)
  then show ?case
    by (rule object_read_back [OF JObject.prems(1)])
next
  case (JBool b)
  then show ?case
    using word_read_back(1,2) [of d rest] by simp
qed (use word_read_back(3) number_read_back string_read_back in simp_all)

section \<open>The same value\<close>

text \<open>Equality of JSON values: objects are compared as finite maps, arrays position by position, numbers by their literal.\<close>

inductive json_same :: "json \<Rightarrow> json \<Rightarrow> bool" where
  same_null: "json_same JNull JNull"
| same_bool: "json_same (JBool b) (JBool b)"
| same_number: "json_same (JNumber t) (JNumber t)"
| same_string: "json_same (JString t) (JString t)"
| same_array: "list_all2 json_same vs ws \<Longrightarrow> json_same (JArray vs) (JArray ws)"
| same_object: "(\<And>k. rel_option json_same (map_of ms k) (map_of ns k)) \<Longrightarrow> json_same (JObject ms) (JObject ns)"

inductive_simps json_same_simps [simp]:
  "json_same JNull w" "json_same (JBool b) w" "json_same (JNumber t) w" "json_same (JString t) w" "json_same (JArray vs) w"
  "json_same (JObject ms) w"

lemma map_of_values: "map_of (map (map_prod id f) ms) k = map_option f (map_of ms k)"
  by (induction ms) auto

lemma sort_members_eq_iff:
  assumes "distinct (map fst xs)" and "distinct (map fst ys)"
  shows "sort_members xs = sort_members ys \<longleftrightarrow> map_of xs = map_of ys"
proof
  assume "sort_members xs = sort_members ys"
  then have "set xs = set ys"
    by (metis sort_members_set)
  then show "map_of xs = map_of ys"
    using map_of_inject_set [OF assms] by blast
next
  assume "map_of xs = map_of ys"
  then have "mset xs = mset ys"
    using map_of_inject_set [OF assms] assms by (simp add: distinct_map set_eq_iff_mset_eq_distinct)
  then show "sort_members xs = sort_members ys"
    unfolding sort_members_def using assms by (intro sort_key_inj_key_eq) (simp_all add: distinct_map)
qed

lemma json_same_iff: "json_ok v d \<Longrightarrow> json_ok w d' \<Longrightarrow> json_same v w \<longleftrightarrow> sortj v = sortj w"
proof (induction v arbitrary: w d d')
  case (JArray vs)
  show ?case
  proof (cases w)
    case w: (JArray ws)
    have "json_same v u \<longleftrightarrow> sortj v = sortj u" if "v \<in> set vs" "u \<in> set ws" for v u
      by (rule JArray.IH [of v "d - 1" u "d' - 1"]) (use that JArray.prems w in \<open>auto simp: json_ok_array simp del: json_ok.simps\<close>)
    then have "list_all2 json_same vs ws \<longleftrightarrow> list_all2 (\<lambda>v u. sortj v = sortj u) vs ws"
      by (intro list.rel_cong) auto
    also have "\<dots> \<longleftrightarrow> map sortj vs = map sortj ws"
      by (simp add: list.rel_map flip: list.rel_eq)
    finally show ?thesis
      by (simp add: w)
  qed auto
next
  case (JObject ms)
  show ?case
  proof (cases w)
    case w: (JObject ns)
    have ok: "members_ok (d - 1) ms" "members_ok (d' - 1) ns"
      using JObject.prems w by (auto simp: json_ok_object simp del: json_ok.simps)
    have "json_same v u \<longleftrightarrow> sortj v = sortj u" if "map_of ms k = Some v" "map_of ns k = Some u" for k v u
      by (rule JObject.IH [of "(k, v)" v "d - 1" u "d' - 1"])
        (use ok map_of_SomeD [OF that(1)] map_of_SomeD [OF that(2)] in \<open>auto simp: members_ok_def Basic_BNFs.snds.simps\<close>)
    then have "rel_option json_same (map_of ms k) (map_of ns k) \<longleftrightarrow> map_option sortj (map_of ms k) = map_option sortj (map_of ns k)" for k
      by (cases "map_of ms k"; cases "map_of ns k") auto
    then have "json_same (JObject ms) (JObject ns) \<longleftrightarrow> map_of (map (map_prod id sortj) ms) = map_of (map (map_prod id sortj) ns)"
      by (auto simp: map_of_values fun_eq_iff)
    then show ?thesis
      using ok by (simp add: w sort_members_eq_iff members_ok_def)
  qed auto
qed (auto; case_tac w; auto)+

lemma canonical_decoded:
  assumes "CanonicalJSON raw = Inr out"
  shows "\<exists>v rest. json_decode raw = Some (v, rest) \<and> json_ok v maxNestingDepth \<and> out = writeCanonical v"
proof -
  obtain v rest where v: "json_decode raw = Some (v, rest)" "out = writeCanonical v"
    using assms by (auto simp: CanonicalJSON_def split: option.splits if_splits)
  have "json_ok v maxNestingDepth"
    using v(1) unfolding json_decode_def by (rule decoded_ok(1))
  then show ?thesis
    using v by blast
qed

lemma written_decodes:
  "json_ok v maxNestingDepth \<Longrightarrow> num_stop rest \<Longrightarrow> json_decode (writeCanonical v @ rest) = Some (sortj v, rest)"
  by (simp add: json_decode_reads write_read_back)

lemma writeCanonical_eq_iff:
  assumes "json_ok v maxNestingDepth" and "json_ok w maxNestingDepth"
  shows "writeCanonical v = writeCanonical w \<longleftrightarrow> json_same v w"
proof
  have d: "json_decode (writeCanonical v) = Some (sortj v, [])" "json_decode (writeCanonical w) = Some (sortj w, [])"
    using assms written_decodes [of _ "[]"] by (simp_all add: num_stop_def)
  show "json_same v w" if "writeCanonical v = writeCanonical w"
    using d that json_same_iff [OF assms] by simp
  show "writeCanonical v = writeCanonical w" if "json_same v w"
    using that json_same_iff [OF assms] by (metis writeCanonical_sortj)
qed

text \<open>A document that nests less deeply than the limit.\<close>

lemma parse_depth:
  "parse_value n d s = Some x \<Longrightarrow> d \<le> d' \<Longrightarrow> parse_value n d' s = Some x"
  "parse_elems n d s = Some y \<Longrightarrow> d \<le> d' \<Longrightarrow> parse_elems n d' s = Some y"
  "parse_members n d ms s = Some z \<Longrightarrow> d \<le> d' \<Longrightarrow> parse_members n d' ms s = Some z"
proof (induction n arbitrary: d d' s x y z ms)
  case (Suc n)
  {
    case 1
    then obtain c t where ct: "skip_ws s = c # t"
      by (cases "skip_ws s") simp_all
    have l: "d - 1 \<le> d' - 1" "0 < d \<Longrightarrow> 0 < d'"
      using 1(2) by simp_all
    consider "byte c = 123" | "byte c = 91" | "byte c \<noteq> 123" "byte c \<noteq> 91"
      by blast
    then show ?case
    proof cases
      case a: 1
      then show ?thesis
        using 1(1) ct l(2) Suc.IH(3) [OF _ l(1), of "[]" t]
        by (cases "skip_ws t"; cases "parse_members n (d - 1) [] t") (simp_all split: if_splits)
    next
      case a: 2
      then show ?thesis
        using 1(1) ct l(2) Suc.IH(2) [OF _ l(1), of t]
        by (cases "skip_ws t"; cases "parse_elems n (d - 1) t") (simp_all split: if_splits)
    next
      case a: 3
      then show ?thesis
        using 1(1) ct by simp
    qed
  next
    case 2
    then obtain v r1 c r2 where v: "parse_value n d s = Some (v, r1)" and c: "skip_ws r1 = c # r2"
      by (auto split: option.splits list.splits)
    show ?case
      using 2(1) c v Suc.IH(1) [OF v 2(2)] Suc.IH(2) [OF _ 2(2), of r2]
      by (cases "parse_elems n d r2") (simp_all split: if_splits)
  next
    case 3
    then obtain q s1 k s2 c s3 v s4 c' s5 where p: "skip_ws s = q # s1" "parse_string s1 = Some (k, s2)" "skip_ws s2 = c # s3"
      "parse_value n d s3 = Some (v, s4)" "skip_ws s4 = c' # s5"
      by (auto split: option.splits list.splits if_splits)
    show ?case
      using 3(1) p Suc.IH(1) [OF p(4) 3(2)] Suc.IH(3) [OF _ 3(2), of "put_member k v ms" s5]
      by (simp split: if_splits)
  }
qed simp_all

lemma json_decode_shallow:
  assumes "parse_value n d s = Some (v, r)" and "d \<le> maxNestingDepth"
  shows "json_decode s = Some (v, r)"
proof -
  have "reads maxNestingDepth s v r"
    unfolding reads_def using parse_depth(1) [OF assms] by blast
  then show ?thesis
    by (simp add: json_decode_reads)
qed

lemma maxNesting3: "3 \<le> maxNestingDepth"
  by (simp add: maxNestingDepth_def)

lemma CanonicalJSON_shallow:
  assumes "parse_value n 3 s = Some (v, r)" and "\<not> decoder_More r" and "writeCanonical v = out"
  shows "CanonicalJSON s = Inr out"
  using json_decode_shallow [OF assms(1) maxNesting3] assms(2,3) by (simp add: CanonicalJSON_def)

lemma canonical_again:
  assumes "CanonicalJSON raw = Inr out"
  shows "CanonicalJSON out = Inr out"
proof -
  obtain v rest where v: "json_ok v maxNestingDepth" "out = writeCanonical v"
    using canonical_decoded [OF assms] by blast
  then have "json_decode out = Some (sortj v, [])"
    using written_decodes [of v "[]"] by (simp add: num_stop_def)
  then show ?thesis
    by (simp add: CanonicalJSON_def decoder_More_def skip_ws_def v(2) writeCanonical_sortj)
qed

section \<open>Properties\<close>

text \<open>C27: Canonicalising a canonical payload changes nothing: whatever document \<^verbatim>\<open>CanonicalJSON\<close> accepted, its output is
accepted again and is its own canonical form. The decoder has fuel proportional to the input, and it never runs out.\<close>

theorem canonical_idempotent:
  assumes "CanonicalJSON raw = Inr out"
  shows "CanonicalJSON out = Inr out"
  by (rule canonical_again [OF assms])

theorem canonical_idempotent_witness:
  "CanonicalJSON '' {\"b\":[1,2.50e1],\"a\":null, \"b\":\"x\"}'' = Inr ''{\"a\":null,\"b\":\"x\"}'' \<and>
    CanonicalJSON ''{\"a\":null,\"b\":\"x\"}'' = Inr ''{\"a\":null,\"b\":\"x\"}''"
proof -
  have "CanonicalJSON '' {\"b\":[1,2.50e1],\"a\":null, \"b\":\"x\"}'' = Inr ''{\"a\":null,\"b\":\"x\"}''"
    by (rule CanonicalJSON_shallow [of 9 _ "JObject [(''b'', JString ''x''), (''a'', JNull)]" "[]"]) code_simp+
  then show ?thesis
    using canonical_idempotent by blast
qed

text \<open>C28: Two accepted payloads have the same canonical bytes exactly when they are the same JSON value: equal literals for
numbers, equal text for strings, arrays equal position by position and objects equal as maps, whatever the order, spacing and
escapes they were written with. The fingerprint of a submission hashes these bytes.\<close>

theorem canonical_same_value:
  assumes "CanonicalJSON a = Inr x" and "CanonicalJSON b = Inr y"
    and "json_decode a = Some (v, r)" and "json_decode b = Some (w, r')"
  shows "x = y \<longleftrightarrow> json_same v w"
  using canonical_decoded [OF assms(1)] canonical_decoded [OF assms(2)] assms(3,4) writeCanonical_eq_iff by auto

theorem canonical_same_value_witness:
  "json_same (JObject [(''b'', JNumber ''1''), (''a'', JString ''x'')]) (JObject [(''a'', JString ''x''), (''b'', JNumber ''1'')])"
proof -
  have "parse_value 9 3 '' {\"b\":1, \"a\":\"x\"}'' = Some (JObject [(''b'', JNumber ''1''), (''a'', JString ''x'')], [])"
    and "parse_value 9 3 ''{\"a\" : \"x\",\"b\":1}'' = Some (JObject [(''a'', JString ''x''), (''b'', JNumber ''1'')], [])"
    by code_simp+
  note d = this [THEN json_decode_shallow, OF maxNesting3]
  have "CanonicalJSON '' {\"b\":1, \"a\":\"x\"}'' = Inr ''{\"a\":\"x\",\"b\":1}''"
    by (rule CanonicalJSON_shallow [of 9 _ "JObject [(''b'', JNumber ''1''), (''a'', JString ''x'')]" "[]"]) code_simp+
  moreover have "CanonicalJSON ''{\"a\" : \"x\",\"b\":1}'' = Inr ''{\"a\":\"x\",\"b\":1}''"
    by (rule CanonicalJSON_shallow [of 9 _ "JObject [(''a'', JString ''x''), (''b'', JNumber ''1'')]" "[]"]) code_simp+
  ultimately show ?thesis
    using canonical_same_value d by blast
qed



end
