(* ===== verification/GoTime.thy ===== *)
theory GoTime
  imports Decimal
begin

text \<open>
  The part of Go's \<^verbatim>\<open>time\<close> package the sources use on text: \<^verbatim>\<open>time.Parse\<close> with the layout \<^verbatim>\<open>RFC3339\<close> and
  \<^verbatim>\<open>Time.UTC().Format\<close> with \<^verbatim>\<open>RFC3339Nano\<close>. An instant is its distance from the epoch in nanoseconds.
  The calendar is the proleptic Gregorian one.
\<close>

section \<open>Calendar\<close>

definition isLeap :: "int \<Rightarrow> bool" where
  "isLeap y = (y mod 4 = 0 \<and> (y mod 100 \<noteq> 0 \<or> y mod 400 = 0))"

definition month_lengths :: "int \<Rightarrow> int list" where
  "month_lengths y = [31, if isLeap y then 29 else 28, 31, 30, 31, 30, 31, 31, 30, 31, 30, 31]"

definition daysIn :: "nat \<Rightarrow> int \<Rightarrow> int" where
  "daysIn m y = month_lengths y ! (m - 1)"

text \<open>Days from 1 January of the year 1 to 1 January of a year.\<close>

definition days_before_year :: "int \<Rightarrow> int" where
  "days_before_year y = 365 * (y - 1) + (y - 1) div 4 - (y - 1) div 100 + (y - 1) div 400"

definition days_of_civil :: "int \<Rightarrow> nat \<Rightarrow> int \<Rightarrow> int" where
  "days_of_civil y m d = days_before_year y - days_before_year 1970 + sum_list (take (m - 1) (month_lengths y)) + (d - 1)"

text \<open>The year of a day, by cycles of 400, 100, 4 and 1 years.\<close>

definition year_of_days :: "int \<Rightarrow> int" where
  "year_of_days n = (let k = n + days_before_year 1970; c = k div 146097; r = k mod 146097;
       a = min 3 (r div 36524); r2 = r - a * 36524; b = r2 div 1461; r3 = r2 mod 1461; e = min 3 (r3 div 365)
     in 400 * c + 100 * a + 4 * b + e + 1)"

fun month_search :: "nat \<Rightarrow> int list \<Rightarrow> int \<Rightarrow> nat \<times> int" where
  "month_search m [] d = (m, d)"
| "month_search m (l # ls) d = (if d < l \<or> ls = [] then (m, d) else month_search (Suc m) ls (d - l))"

definition civil_of_days :: "int \<Rightarrow> int \<times> nat \<times> int" where
  "civil_of_days n = (let y = year_of_days n;
       (m, d) = month_search 1 (month_lengths y) (n + days_before_year 1970 - days_before_year y)
     in (y, m, d + 1))"

section \<open>Formatting\<close>

definition append_year :: "int \<Rightarrow> string" where
  "append_year y = (if y < 0 then CHR ''-'' # padded 4 (nat (- y)) else padded 4 (nat y))"

text \<open>The fraction without its trailing zeros, and nothing at all for a whole second.\<close>

definition append_nano :: "nat \<Rightarrow> string" where
  "append_nano ns = (if ns = 0 then [] else CHR ''.'' # rev (dropWhile (\<lambda>c. c = CHR ''0'') (rev (padded 9 ns))))"

definition clock_text :: "nat \<Rightarrow> string" where
  "clock_text s = padded 2 (s div 3600) @ CHR '':'' # padded 2 (s div 60 mod 60) @ CHR '':'' # padded 2 (s mod 60)"

definition format_rfc3339nano :: "int \<Rightarrow> string" where
  "format_rfc3339nano t = (let secs = t div 1000000000; (y, m, d) = civil_of_days (secs div 86400) in
     append_year y @ CHR ''-'' # padded 2 m @ CHR ''-'' # padded 2 (nat d) @ CHR ''T'' #
     clock_text (nat (secs mod 86400)) @ append_nano (nat (t mod 1000000000)) @ ''Z'')"

section \<open>Parsing\<close>

text \<open>\<^verbatim>\<open>getnum\<close>: two digits, or one when the field is not fixed.\<close>

definition getnum :: "bool \<Rightarrow> string \<Rightarrow> (nat \<times> string) option" where
  "getnum fixed s = (case s of [] \<Rightarrow> None
     | a # r \<Rightarrow> if \<not> is_digit a then None
         else (case r of b # r' \<Rightarrow> if is_digit b then Some (digit_value a * 10 + digit_value b, r')
                 else if fixed then None else Some (digit_value a, r)
               | [] \<Rightarrow> if fixed then None else Some (digit_value a, [])))"

definition literal :: "char \<Rightarrow> string \<Rightarrow> string option" where
  "literal c s = (case s of x # r \<Rightarrow> if x = c then Some r else None | [] \<Rightarrow> None)"

definition get_year :: "string \<Rightarrow> (nat \<times> string) option" where
  "get_year s = (if length s < 4 \<or> \<not> list_all is_digit (take 4 s) then None else Some (digits_value (take 4 s), drop 4 s))"

text \<open>A fraction after the seconds: at most nine digits count.\<close>

definition get_fraction :: "string \<Rightarrow> nat \<times> string" where
  "get_fraction s = (case s of p # r \<Rightarrow>
       if (p = CHR ''.'' \<or> p = CHR '','') \<and> takeWhile is_digit r \<noteq> []
       then (let ds = take 9 (takeWhile is_digit r) in (digits_value ds * 10 ^ (9 - length ds), dropWhile is_digit r))
       else (0, s)
     | [] \<Rightarrow> (0, s))"

text \<open>The offset in seconds; hours up to 24 and minutes up to 60 are accepted.\<close>

definition get_zone :: "string \<Rightarrow> (int \<times> string) option" where
  "get_zone s = (case s of z # r \<Rightarrow>
       if z = CHR ''Z'' then Some (0, r)
       else (case r of a # b # c # m # n # r' \<Rightarrow>
           if c \<noteq> CHR '':'' then None
           else (case (getnum True [a, b], getnum True [m, n]) of
               (Some (hr, _), Some (mm, _)) \<Rightarrow>
                 if 24 < hr \<or> 60 < mm then None
                 else if z = CHR ''+'' then Some (int ((hr * 60 + mm) * 60), r')
                 else if z = CHR ''-'' then Some (- int ((hr * 60 + mm) * 60), r') else None
             | _ \<Rightarrow> None)
         | _ \<Rightarrow> None)
     | [] \<Rightarrow> None)"

definition get_field :: "bool \<Rightarrow> nat \<Rightarrow> nat \<Rightarrow> string \<Rightarrow> (nat \<times> string) option" where
  "get_field fixed lo hi s = (case getnum fixed s of None \<Rightarrow> None
     | Some (n, r) \<Rightarrow> if lo \<le> n \<and> n \<le> hi then Some (n, r) else None)"

definition get_date :: "string \<Rightarrow> (int \<times> string) option" where
  "get_date s = Option.bind (get_year s) (\<lambda>(y, s). Option.bind (literal CHR ''-'' s) (\<lambda>s.
     Option.bind (get_field True 1 12 s) (\<lambda>(m, s). Option.bind (literal CHR ''-'' s) (\<lambda>s.
     Option.bind (getnum True s) (\<lambda>(d, s).
       if 1 \<le> d \<and> int d \<le> daysIn m (int y) then Some (days_of_civil (int y) m (int d), s) else None)))))"

definition get_clock :: "string \<Rightarrow> (nat \<times> string) option" where
  "get_clock s = Option.bind (get_field False 0 23 s) (\<lambda>(h, s). Option.bind (literal CHR '':'' s) (\<lambda>s.
     Option.bind (get_field True 0 59 s) (\<lambda>(m, s). Option.bind (literal CHR '':'' s) (\<lambda>s.
     Option.bind (get_field True 0 59 s) (\<lambda>(sec, s). Some (h * 3600 + m * 60 + sec, s))))))"

definition parse_rfc3339 :: "string \<Rightarrow> int option" where
  "parse_rfc3339 s = Option.bind (get_date s) (\<lambda>(days, s). Option.bind (literal CHR ''T'' s) (\<lambda>s.
     Option.bind (get_clock s) (\<lambda>(secs, s). (case get_fraction s of (ns, s) \<Rightarrow>
     Option.bind (get_zone s) (\<lambda>(off, s).
       if s \<noteq> [] then None else Some ((days * 86400 + int secs - off) * 1000000000 + int ns))))))"

section \<open>The calendar is inverted\<close>

lemma div_mod_int: "0 \<le> r \<Longrightarrow> r < m \<Longrightarrow> (m * q + r) div m = q \<and> (m * q + r) mod m = (r::int)"
  by simp

lemma cycles:
  fixes a b c e :: int
  assumes "0 \<le> a" "a \<le> 3" "0 \<le> b" "b \<le> 24" "0 \<le> e" "e \<le> 3"
  defines "y \<equiv> 400 * c + 100 * a + 4 * b + e"
  shows "y div 4 = 100 * c + 25 * a + b \<and> y mod 4 = e" "y div 100 = 4 * c + a \<and> y mod 100 = 4 * b + e"
    "y div 400 = c \<and> y mod 400 = 100 * a + 4 * b + e"
  using assms(1-6) div_mod_int [of e 4 "100 * c + 25 * a + b"] div_mod_int [of "4 * b + e" 100 "4 * c + a"]
    div_mod_int [of "100 * a + 4 * b + e" 400 c] by (simp_all add: y_def algebra_simps)

lemma days_before_year_cycles:
  assumes "0 \<le> a" "a \<le> 3" "0 \<le> b" "b \<le> 24" "0 \<le> e" "e \<le> (3::int)"
  shows "days_before_year (400 * c + 100 * a + 4 * b + e + 1) = 146097 * c + 36524 * a + 1461 * b + 365 * e"
  using cycles [OF assms, of c] by (simp add: days_before_year_def)

lemma mod_succ_int: "0 < m \<Longrightarrow> (y + 1) mod m = 0 \<longleftrightarrow> y mod m = m - (1::int)"
  by (smt (verit) Euclidean_Rings.pos_mod_bound mod_add_left_eq mod_pos_pos_trivial mod_self Euclidean_Rings.pos_mod_sign)

lemma isLeap_cycles:
  assumes "0 \<le> a" "a \<le> 3" "0 \<le> b" "b \<le> 24" "0 \<le> e" "e \<le> (3::int)"
  shows "isLeap (400 * c + 100 * a + 4 * b + e + 1) \<longleftrightarrow> e = 3 \<and> (b \<noteq> 24 \<or> a = 3)"
proof -
  define y where "y = 400 * c + 100 * a + 4 * b + e"
  have y: "y mod 4 = e" "y mod 100 = 4 * b + e" "y mod 400 = 100 * a + 4 * b + e"
    using cycles [OF assms, of c] by (simp_all only: y_def)
  have "(y + 1) mod 4 = 0 \<longleftrightarrow> e = 3"
    unfolding mod_succ_int [of 4, simplified] y by simp
  moreover have "(y + 1) mod 100 = 0 \<longleftrightarrow> e = 3 \<and> b = 24"
    unfolding mod_succ_int [of 100, simplified] y using assms by linarith
  moreover have "(y + 1) mod 400 = 0 \<longleftrightarrow> e = 3 \<and> b = 24 \<and> a = 3"
    unfolding mod_succ_int [of 400, simplified] y using assms by linarith
  ultimately show ?thesis
    by (auto simp only: isLeap_def y_def)
qed

lemma capped_quotient:
  fixes r q :: int
  assumes "0 \<le> r" and "0 < q" and e: "e = min 3 (r div q)"
  shows "0 \<le> e" "e \<le> 3" "0 \<le> r - e * q" "e < 3 \<Longrightarrow> r - e * q < q"
proof -
  have d: "r = r div q * q + r mod q" "0 \<le> r mod q" "r mod q < q" "0 \<le> r div q"
    using assms by (simp_all add: pos_imp_zdiv_nonneg_iff)
  show "0 \<le> e" "e \<le> 3"
    using d(4) e by simp_all
  have "e * q \<le> r div q * q"
    using e assms(2) by (intro mult_right_mono) simp_all
  then show "0 \<le> r - e * q"
    using d(1,2) by linarith
  show "r - e * q < q" if "e < 3"
  proof -
    have "e = r div q"
      using e that by (simp add: min_def split: if_splits)
    then show ?thesis
      using d(3) by (simp add: minus_div_mult_eq_mod)
  qed
qed

lemma year_of_days_bounds:
  fixes n defines "y \<equiv> year_of_days n"
  shows "0 \<le> n + days_before_year 1970 - days_before_year y"
    and "n + days_before_year 1970 - days_before_year y < (if isLeap y then 366 else 365)"
proof -
  define k where "k = n + days_before_year 1970"
  define c r where "c = k div 146097" and "r = k mod 146097"
  define a where "a = min 3 (r div 36524)"
  define r2 where "r2 = r - a * 36524"
  define b r3 where "b = r2 div 1461" and "r3 = r2 mod 1461"
  define e where "e = min 3 (r3 div 365)"
  have k: "k = 146097 * c + r" "0 \<le> r" "r < 146097"
    by (simp_all add: c_def r_def)
  have q: "0 < (36524::int)" "0 < (365::int)"
    by simp_all
  note a = capped_quotient [OF k(2) q(1) a_def, folded r2_def]
  have a2: "r2 < 36525"
    using k(3) a by (cases "a < 3") (simp_all add: r2_def)
  have b: "r2 = 1461 * b + r3" "0 \<le> r3" "r3 < 1461" "0 \<le> b" "b \<le> 24"
    using a(3) a2 by (simp_all add: b_def r3_def)
  note e = capped_quotient [OF b(2) q(2) e_def]
  have e2: "r3 - e * 365 < 366"
    using b(3) e by (cases "e < 3") simp_all
  have y: "y = 400 * c + 100 * a + 4 * b + e + 1"
    unfolding y_def year_of_days_def Let_def k_def c_def r_def a_def r2_def b_def r3_def e_def ..
  have d: "k - days_before_year y = r3 - e * 365"
    using k b by (simp add: y days_before_year_cycles [OF a(1,2) b(4,5) e(1,2)] r2_def)
  have l: "isLeap y \<longleftrightarrow> e = 3 \<and> (b \<noteq> 24 \<or> a = 3)"
    unfolding y by (rule isLeap_cycles [OF a(1,2) b(4,5) e(1,2)])
  show "0 \<le> n + days_before_year 1970 - days_before_year y"
    using d e(3) by (simp add: k_def)
  show "n + days_before_year 1970 - days_before_year y < (if isLeap y then 366 else 365)"
  proof (cases "isLeap y")
    case True
    then show ?thesis
      using d e2 by (simp add: k_def)
  next
    case False
    have "r3 - e * 365 < 365"
    proof (cases "e = 3")
      case True
      then have "b = 24" "a < 3"
        using False l a(2) by auto
      then show ?thesis
        using True b(1) a(4) by simp
    next
      case False
      then show ?thesis
        using e(2,4) by simp
    qed
    then show ?thesis
      using d False by (simp add: k_def)
  qed
qed

lemma month_search_sum:
  "month_search m0 ls d = (m, r) \<Longrightarrow> ls \<noteq> [] \<Longrightarrow>
     m0 \<le> m \<and> m < m0 + length ls \<and> d = sum_list (take (m - m0) ls) + r"
proof (induction m0 ls d rule: month_search.induct)
  case (2 m0 l ls d)
  then show ?case
    by (auto simp: Suc_diff_le take_Cons' split: if_splits)
qed simp

lemma month_search_range:
  "month_search m0 ls d = (m, r) \<Longrightarrow> 0 \<le> d \<Longrightarrow> d < sum_list ls \<Longrightarrow> 0 \<le> r \<and> r < ls ! (m - m0)"
proof (induction m0 ls d rule: month_search.induct)
  case (2 m0 l ls d)
  show ?case
  proof (cases "d < l \<or> ls = []")
    case True
    then show ?thesis
      using 2 by auto
  next
    case False
    then have r: "month_search (Suc m0) ls (d - l) = (m, r)"
      using 2 by simp
    have "0 \<le> r \<and> r < ls ! (m - Suc m0)"
      using 2 False r by auto
    moreover have "m - m0 = Suc (m - Suc m0)"
      using month_search_sum [OF r] False by auto
    ultimately show ?thesis
      by simp
  qed
qed simp

lemma sum_month_lengths: "sum_list (month_lengths y) = (if isLeap y then 366 else 365)"
  by (simp add: month_lengths_def)

lemma civil_of_days_valid:
  assumes "civil_of_days n = (y, m, d)"
  shows "days_of_civil y m d = n" and "1 \<le> m" "m \<le> 12" "1 \<le> d" "d \<le> daysIn m y" "d \<le> 31"
proof -
  obtain r where y: "y = year_of_days n" and d: "d = r + 1"
    and s: "month_search 1 (month_lengths y) (n + days_before_year 1970 - days_before_year y) = (m, r)"
    using assms by (auto simp: civil_of_days_def Let_def split: prod.splits)
  have ms: "1 \<le> m \<and> m < 1 + length (month_lengths y) \<and>
      n + days_before_year 1970 - days_before_year y = sum_list (take (m - 1) (month_lengths y)) + r"
    by (rule month_search_sum [OF s]) (simp add: month_lengths_def)
  have r: "0 \<le> r \<and> r < month_lengths y ! (m - 1)"
    by (rule month_search_range [OF s]) (use year_of_days_bounds [of n] y in \<open>simp_all add: sum_month_lengths\<close>)
  have len: "length (month_lengths y) = 12"
    by (simp add: month_lengths_def)
  show "days_of_civil y m d = n" "1 \<le> m" "m \<le> 12" "1 \<le> d" "d \<le> daysIn m y"
    using ms r d len by (simp_all add: days_of_civil_def daysIn_def)
  have "month_lengths y ! (m - 1) \<in> set (month_lengths y)"
    using ms len by (intro nth_mem) auto
  then show "d \<le> 31"
    using r d by (auto simp: month_lengths_def split: if_splits)
qed

section \<open>What is formatted is read back\<close>

lemma padded2: "n < 100 \<Longrightarrow> padded 2 n = [digit (n div 10), digit (n mod 10)]"
  by (cases "n < 10") (simp_all add: padded_def nat_digits.simps [of n] nat_digits.simps [of "n div 10"] numeral_2_eq_2)

lemma getnum_padded [simp]: "n < 100 \<Longrightarrow> getnum fixed (padded 2 n @ s) = Some (n, s)"
  by (simp add: padded2 getnum_def)

lemma get_field_padded [simp]: "n < 100 \<Longrightarrow> lo \<le> n \<Longrightarrow> n \<le> hi \<Longrightarrow> get_field fixed lo hi (padded 2 n @ s) = Some (n, s)"
  by (simp add: get_field_def)

lemma literal_hit [simp]: "literal c (c # s) = Some s"
  by (simp add: literal_def)

lemma get_year_padded [simp]: "n < 10000 \<Longrightarrow> get_year (padded 4 n @ s) = Some (n, s)"
  by (simp add: get_year_def)

lemma get_clock_text: "s < 86400 \<Longrightarrow> get_clock (clock_text s @ r) = Some (s, r)"
proof -
  assume "s < 86400"
  then have "s div 3600 \<le> 23" "s div 60 mod 60 \<le> 59" "s mod 60 \<le> 59"
    by (simp_all add: less_Suc_eq_le [symmetric] less_mult_imp_div_less)
  moreover have "s div 60 = s div 3600 * 60 + s div 60 mod 60"
    using div_mult_mod_eq [of "s div 60" 60] by (simp add: div_mult2_eq [symmetric])
  then have "s div 3600 * 3600 + s div 60 mod 60 * 60 + s mod 60 = s"
    using div_mult_mod_eq [of s 60] by linarith
  ultimately show ?thesis
    by (simp add: get_clock_def clock_text_def)
qed

lemma digits_value_append_zeros: "digits_value (s @ replicate k (CHR ''0'')) = digits_value s * 10 ^ k"
proof (induction k)
  case (Suc k)
  have "digits_value (s @ replicate (Suc k) (CHR ''0'')) = digits_value ((s @ replicate k (CHR ''0'')) @ [CHR ''0''])"
    by (simp add: replicate_append_same)
  also have "\<dots> = digits_value s * 10 ^ Suc k"
    using Suc by (simp only: digits_value_snoc) (simp add: digit_value_def)
  finally show ?case .
qed simp

lemma trim_zeros:
  fixes p defines "ds \<equiv> rev (dropWhile (\<lambda>c. c = CHR ''0'') (rev p))"
  shows "p = ds @ replicate (length p - length ds) (CHR ''0'')"
proof -
  have "takeWhile (\<lambda>c. c = CHR ''0'') (rev p) = replicate (length (takeWhile (\<lambda>c. c = CHR ''0'') (rev p))) (CHR ''0'')"
    by (rule replicate_length_same [symmetric]) (auto dest: set_takeWhileD)
  then have "rev p = replicate (length p - length ds) (CHR ''0'') @ dropWhile (\<lambda>c. c = CHR ''0'') (rev p)"
    using takeWhile_dropWhile_id [of "\<lambda>c. c = CHR ''0''" "rev p"]
    by (metis ds_def add_diff_cancel_right' length_append length_rev)
  then have "rev (rev p) = ds @ replicate (length p - length ds) (CHR ''0'')"
    unfolding ds_def by (metis rev_append rev_replicate)
  then show ?thesis
    by simp
qed

lemma get_fraction_nano:
  assumes "ns < 1000000000"
  shows "get_fraction (append_nano ns @ ''Z'') = (ns, ''Z'')"
proof (cases "ns = 0")
  case False
  define p where "p = padded 9 ns"
  define ds where "ds = rev (dropWhile (\<lambda>c. c = CHR ''0'') (rev p))"
  have p: "length p = 9" "list_all is_digit p" "digits_value p = ns"
    using assms by (simp_all add: p_def)
  have e: "p = ds @ replicate (length p - length ds) (CHR ''0'')"
    unfolding ds_def by (rule trim_zeros)
  have v: "digits_value ds * 10 ^ (9 - length ds) = ns"
    using digits_value_append_zeros [of ds] e p by metis
  have l: "length ds \<le> 9" "list_all is_digit ds"
    using e p by (metis length_append le_add1, metis list_all_append)
  have "takeWhile is_digit (ds @ ''Z'') = ds" "dropWhile is_digit (ds @ ''Z'') = ''Z''"
    using l(2) by (simp_all add: list_all_iff is_digit_def)
  moreover have "ds \<noteq> []"
    using v False by auto
  ultimately show ?thesis
    using False l v by (simp add: append_nano_def get_fraction_def Let_def p_def [symmetric] ds_def [symmetric])
qed (simp add: append_nano_def get_fraction_def)

text \<open>The text after the year, and what the field readers make of it.\<close>

definition after_year :: "int \<Rightarrow> string" where
  "after_year t = (let secs = t div 1000000000; (y, m, d) = civil_of_days (secs div 86400) in
     padded 2 m @ CHR ''-'' # padded 2 (nat d) @ CHR ''T'' #
     clock_text (nat (secs mod 86400)) @ append_nano (nat (t mod 1000000000)) @ ''Z'')"

definition year_of :: "int \<Rightarrow> int" where
  "year_of t = year_of_days (t div 1000000000 div 86400)"

lemma civil_year: "civil_of_days n = (y, m, d) \<Longrightarrow> y = year_of_days n"
  by (simp add: civil_of_days_def Let_def split: prod.splits)

lemma format_split: "format_rfc3339nano t = append_year (year_of t) @ CHR ''-'' # after_year t"
  by (auto simp: format_rfc3339nano_def after_year_def year_of_def Let_def dest: civil_year split: prod.split)

text \<open>Reading what follows the year, given the year.\<close>

definition read_after_year :: "int \<Rightarrow> string \<Rightarrow> int option" where
  "read_after_year y s = Option.bind (get_field True 1 12 s) (\<lambda>(m, s). Option.bind (literal CHR ''-'' s) (\<lambda>s.
     Option.bind (getnum True s) (\<lambda>(d, s).
     Option.bind (if 1 \<le> d \<and> int d \<le> daysIn m y then Some (days_of_civil y m (int d)) else None) (\<lambda>days.
     Option.bind (literal CHR ''T'' s) (\<lambda>s.
     Option.bind (get_clock s) (\<lambda>(secs, s). (case get_fraction s of (ns, s) \<Rightarrow>
     Option.bind (get_zone s) (\<lambda>(off, s).
       if s \<noteq> [] then None else Some ((days * 86400 + int secs - off) * 1000000000 + int ns)))))))))"

lemma parse_rfc3339_split:
  "parse_rfc3339 s = Option.bind (get_year s) (\<lambda>(y, s). Option.bind (literal CHR ''-'' s) (read_after_year (int y)))"
  by (simp add: parse_rfc3339_def get_date_def read_after_year_def [abs_def] case_prod_unfold Option.bind_assoc if_distrib [of "\<lambda>x. Option.bind x f" for f]
      cong: if_cong)

lemma read_fields:
  assumes "1 \<le> m" "m \<le> 12" "1 \<le> dd" "dd \<le> 31" "int dd \<le> daysIn m y" and s: "s < 86400" and f: "f < 1000000000"
  shows "read_after_year y (padded 2 m @ CHR ''-'' # padded 2 dd @ CHR ''T'' # clock_text s @ append_nano f @ ''Z'')
      = Some ((days_of_civil y m (int dd) * 86400 + int s) * 1000000000 + int f)"
proof -
  have "get_field True 1 12 (padded 2 m @ r) = Some (m, r)" "getnum True (padded 2 dd @ r) = Some (dd, r)" for r
    using assms(1-4) by simp_all
  then show ?thesis
    unfolding read_after_year_def using assms(3,5)
    by (simp only: Option.bind.bind_lunit prod.case literal_hit if_True simp_thms get_clock_text [OF s] get_fraction_nano [OF f])
      (simp add: get_zone_def)
qed

lemma read_after_year: "read_after_year (year_of t) (after_year t) = Some t"
proof -
  define secs ns where "secs = t div 1000000000" and "ns = t mod 1000000000"
  obtain y m d where c: "civil_of_days (secs div 86400) = (y, m, d)"
    by (cases "civil_of_days (secs div 86400)")
  have y: "year_of t = y"
    using civil_year [OF c] by (simp add: year_of_def secs_def)
  note v = civil_of_days_valid [OF c]
  have "0 \<le> ns" "ns < 1000000000" "0 \<le> secs mod 86400" "secs mod 86400 < 86400"
    by (simp_all add: ns_def)
  then have n: "nat ns < 1000000000" "nat (secs mod 86400) < 86400" "int (nat ns) = ns" "int (nat (secs mod 86400)) = secs mod 86400"
    by linarith+
  have t: "t = (secs div 86400 * 86400 + secs mod 86400) * 1000000000 + ns"
    by (simp add: secs_def ns_def)
  have a: "after_year t = padded 2 m @ CHR ''-'' # padded 2 (nat d) @ CHR ''T'' #
     clock_text (nat (secs mod 86400)) @ append_nano (nat ns) @ ''Z''"
    using c by (simp add: after_year_def Let_def secs_def ns_def)
  have d: "1 \<le> nat d" "nat d \<le> 31" "int (nat d) = d"
    using v by linarith+
  have "read_after_year y (after_year t) = Some ((days_of_civil y m d * 86400 + secs mod 86400) * 1000000000 + ns)"
    using read_fields [OF v(2,3) d(1,2) _ n(2,1), of y] v(5) unfolding a d(3) n(3,4) by blast
  also have "\<dots> = Some t"
    unfolding v(1) by (rule arg_cong [OF t [symmetric]])
  finally show ?thesis
    unfolding y .
qed

lemma parse_format:
  assumes "0 \<le> year_of t" and "year_of t \<le> 9999"
  shows "parse_rfc3339 (format_rfc3339nano t) = Some t"
proof -
  have y: "nat (year_of t) < 10000" "int (nat (year_of t)) = year_of t"
    using assms by linarith+
  then show ?thesis
    using assms by (simp add: format_split append_year_def parse_rfc3339_split read_after_year)
qed

lemma append_year_unique:
  assumes "append_year x @ CHR ''-'' # s = append_year y @ CHR ''-'' # t"
  shows "x = y \<and> s = t"
proof -
  have d: "u = v \<and> s = t" if "list_all is_digit u" "list_all is_digit v" "u @ CHR ''-'' # s = v @ CHR ''-'' # t" for u v
  proof -
    have t: "takeWhile is_digit (w @ CHR ''-'' # r) = w" if "list_all is_digit w" for w r
      using that by (simp add: list_all_iff is_digit_def)
    have "u = v"
      using t [OF that(1), of s] t [OF that(2), of t] that(3) by simp
    then show ?thesis
      using that(3) by simp
  qed
  have h: "\<exists>c r. padded 4 n = c # r \<and> c \<noteq> CHR ''-''" for n
    using padded_are_digits [of 4 n] padded_nonempty [of 4 n] by (cases "padded 4 n") (auto simp: is_digit_def)
  consider "x < 0" "y < 0" | "0 \<le> x" "0 \<le> y" | "x < 0 \<longleftrightarrow> 0 \<le> y"
    by linarith
  then show ?thesis
  proof cases
    case 1
    then show ?thesis
      using assms d [of "padded 4 (nat (- x))" "padded 4 (nat (- y))"] by (auto simp: append_year_def padded_inject nat_eq_iff)
  next
    case 2
    then show ?thesis
      using assms d [of "padded 4 (nat x)" "padded 4 (nat y)"] by (auto simp: append_year_def padded_inject nat_eq_iff)
  next
    case 3
    then show ?thesis
      using assms h [of "nat x"] h [of "nat y"] by (auto simp: append_year_def split: if_splits)
  qed
qed

lemma format_inject: "format_rfc3339nano s = format_rfc3339nano t \<longleftrightarrow> s = t"
proof
  assume "format_rfc3339nano s = format_rfc3339nano t"
  then have "year_of s = year_of t \<and> after_year s = after_year t"
    by (intro append_year_unique) (simp only: format_split)
  then have "Some s = Some t"
    using read_after_year [of s] read_after_year [of t] by metis
  then show "s = t"
    by simp
qed simp

end
