(* ===== verification/Sha256.thy ===== *)
theory Sha256
  imports GoStrings "HOL-Library.Word"
begin

text \<open>
  SHA-256 as the sources use it (\<^verbatim>\<open>crypto/sha256\<close>, FIPS 180-4), on byte strings, and the lower-case
  encoding of \<^verbatim>\<open>encoding/hex\<close>.
\<close>

unbundle bit_operations_syntax

type_synonym w32 = "32 word"

definition rotr :: "nat \<Rightarrow> w32 \<Rightarrow> w32" where
  "rotr n x = (drop_bit n x OR push_bit (32 - n) x)"

text \<open>
  The constants: the first 32 bits of the fractional parts of the cube roots of the first 64 primes and
  of the square roots of the first 8 primes. The root of a number is found bit by bit.
\<close>

definition is_prime :: "nat \<Rightarrow> bool" where
  "is_prime p = (2 \<le> p \<and> list_all (\<lambda>q. p mod q \<noteq> 0) [2..<p])"

definition first_primes :: "nat \<Rightarrow> nat list" where
  "first_primes n = take n (filter is_prime [2..<312])"

fun iroot :: "nat \<Rightarrow> nat \<Rightarrow> nat \<Rightarrow> nat \<Rightarrow> nat" where
  "iroot k 0 r n = r"
| "iroot k (Suc b) r n = iroot k b (if (r + 2 ^ b) ^ k \<le> n then r + 2 ^ b else r) n"

definition root_fraction :: "nat \<Rightarrow> nat \<Rightarrow> w32" where
  "root_fraction k p = of_nat (iroot k 36 0 (p * 2 ^ (32 * k)))"

definition round_constants :: "w32 list" where
  "round_constants = map (root_fraction 3) (first_primes 64)"

definition initial_hash :: "w32 list" where
  "initial_hash = map (root_fraction 2) (first_primes 8)"

lemma iroot_correct:
  assumes "0 < k" and "r ^ k \<le> n" and "n < (r + 2 ^ b) ^ k"
  shows "iroot k b r n ^ k \<le> n \<and> n < (iroot k b r n + 1) ^ k"
  using assms by (induction b arbitrary: r) (auto simp: not_le mult_2 add.assoc)

text \<open>The bytes of a number, most significant first.\<close>

fun big_endian :: "nat \<Rightarrow> nat \<Rightarrow> string" where
  "big_endian 0 n = []"
| "big_endian (Suc k) n = big_endian k (n div 256) @ [chr (n mod 256)]"

definition sha_pad :: "string \<Rightarrow> string" where
  "sha_pad m = m @ chr 0x80 # replicate ((119 - length m mod 64) mod 64) (chr 0) @ big_endian 8 (8 * length m)"

fun sha_words :: "string \<Rightarrow> w32 list" where
  "sha_words (a # b # c # d # r) = (push_bit 24 (of_nat (byte a)) OR push_bit 16 (of_nat (byte b)) OR push_bit 8 (of_nat (byte c))
     OR of_nat (byte d)) # sha_words r"
| "sha_words _ = []"

fun sha_schedule :: "nat \<Rightarrow> w32 list \<Rightarrow> w32 list" where
  "sha_schedule 0 ws = ws"
| "sha_schedule (Suc k) ws =
     (let n = length ws; x = ws ! (n - 15); y = ws ! (n - 2);
          s0 = rotr 7 x XOR rotr 18 x XOR drop_bit 3 x; s1 = rotr 17 y XOR rotr 19 y XOR drop_bit 10 y
      in sha_schedule k (ws @ [ws ! (n - 16) + s0 + ws ! (n - 7) + s1]))"

definition sha_round :: "w32 list \<Rightarrow> w32 \<times> w32 \<Rightarrow> w32 list" where
  "sha_round v kw = (case v of [a, b, c, d, e, f, g, h] \<Rightarrow>
       let s1 = rotr 6 e XOR rotr 11 e XOR rotr 25 e; ch = (e AND f) XOR (NOT e AND g);
           t1 = h + s1 + ch + fst kw + snd kw;
           s0 = rotr 2 a XOR rotr 13 a XOR rotr 22 a; maj = (a AND b) XOR (a AND c) XOR (b AND c)
       in [t1 + s0 + maj, a, b, c, d + t1, e, f, g]
     | _ \<Rightarrow> v)"

definition sha_block :: "w32 list \<Rightarrow> w32 list \<Rightarrow> w32 list" where
  "sha_block h ws = map2 (+) h (foldl sha_round h (zip round_constants (sha_schedule 48 ws)))"

fun sha_blocks :: "nat \<Rightarrow> w32 list \<Rightarrow> w32 list \<Rightarrow> w32 list" where
  "sha_blocks 0 h ws = h"
| "sha_blocks (Suc k) h ws = sha_blocks k (sha_block h (take 16 ws)) (drop 16 ws)"

definition word_bytes :: "w32 \<Rightarrow> string" where
  "word_bytes w = map (\<lambda>k. chr (unat (drop_bit k w AND 255))) [24, 16, 8, 0]"

definition sha256 :: "string \<Rightarrow> string" where
  "sha256 m = (let p = sha_pad m in concat (map word_bytes (sha_blocks (length p div 64) initial_hash (sha_words p))))"

definition lower_hex :: "nat \<Rightarrow> char" where
  "lower_hex n = chr (if n < 10 then 48 + n else 87 + n)"

definition EncodeToString :: "string \<Rightarrow> string" where
  "EncodeToString s = concat (map (\<lambda>c. [lower_hex (byte c div 16), lower_hex (byte c mod 16)]) s)"

lemma byte_lower_hex: "n < 16 \<Longrightarrow> byte (lower_hex n) = (if n < 10 then 48 + n else 87 + n)"
  by (simp add: lower_hex_def)

lemma lower_hex_inject:
  assumes "m < 16" and "n < 16" and "lower_hex m = lower_hex n"
  shows "m = n"
proof -
  have "(if m < 10 then 48 + m else 87 + m) = (if n < 10 then 48 + n else 87 + n)"
    using arg_cong [OF assms(3), of byte] unfolding byte_lower_hex [OF assms(1)] byte_lower_hex [OF assms(2)] .
  then show ?thesis
    by (cases "m < 10"; cases "n < 10") simp_all
qed

lemma EncodeToString_inject: "EncodeToString s = EncodeToString t \<longleftrightarrow> s = t"
proof
  show "s = t" if "EncodeToString s = EncodeToString t"
    using that
  proof (induction s arbitrary: t)
    case Nil
    then show ?case
      by (cases t) (simp_all add: EncodeToString_def)
  next
    case (Cons c s)
    obtain e t' where t: "t = e # t'"
      using Cons.prems by (cases t) (simp_all add: EncodeToString_def)
    have eq: "lower_hex (byte c div 16) = lower_hex (byte e div 16)" "lower_hex (byte c mod 16) = lower_hex (byte e mod 16)"
      and rest: "EncodeToString s = EncodeToString t'"
      using Cons.prems by (simp_all add: EncodeToString_def t)
    have b: "byte x div 16 < 16" "byte x mod 16 < 16" for x
      using nat_of_char_less_256 [of x] by (simp_all add: less_mult_imp_div_less)
    have "byte c div 16 = byte e div 16" "byte c mod 16 = byte e mod 16"
      by (rule lower_hex_inject [OF b(1) b(1) eq(1)], rule lower_hex_inject [OF b(2) b(2) eq(2)])
    then have "byte c = byte e"
      by (metis div_mult_mod_eq)
    then have "c = e"
      by simp
    then show ?case
      using Cons.IH [OF rest] t by simp
  qed
qed simp

end
