(* ===== verification/Submission.thy ===== *)
theory Submission
  imports Jobs JsonRoundTrip GoTime Sha256
begin

text \<open>
  The client-facing half of a submission (\<^verbatim>\<open>internal/jobs/submit.go\<close>): validation with defaults, the
  idempotency key, and the fingerprint that decides whether a repeated key repeats the same request.
\<close>

section \<open>Requests\<close>

record SubmitRequest =
  sr_Queue :: string
  sr_Type :: string
  sr_Payload :: string
  sr_Priority :: "int option"
  sr_MaxAttempts :: "int option"
  sr_TimeoutSeconds :: "int option"
  sr_ScheduledAt :: "string option"
  sr_RequiredCapabilities :: "string list"

text \<open>The text of a JSON error is the decoder's; the model keeps which error it was.\<close>

datatype message = Message string | InvalidJSON json_error

record FieldError =
  fe_Field :: string
  fe_Message :: message

definition field_error :: "string \<Rightarrow> string \<Rightarrow> FieldError" where
  "field_error f m = \<lparr> fe_Field = f, fe_Message = Message m \<rparr>"

definition DefaultPriority :: int where "DefaultPriority = 50"
definition DefaultMaxAttempts :: int where "DefaultMaxAttempts = 3"
definition DefaultTimeoutSeconds :: int where "DefaultTimeoutSeconds = 300"
definition MinPriority :: int where "MinPriority = 0"
definition MaxPriority :: int where "MaxPriority = 100"
definition MinMaxAttempts :: int where "MinMaxAttempts = 1"
definition MaxMaxAttempts :: int where "MaxMaxAttempts = 100"
definition MinTimeoutSeconds :: int where "MinTimeoutSeconds = 1"
definition MaxTimeoutSeconds :: int where "MaxTimeoutSeconds = 86400"
definition MaxRequiredCapabilities :: nat where "MaxRequiredCapabilities = 16"
definition MaxIdempotencyKeyLen :: nat where "MaxIdempotencyKeyLen = 255"

definition queueNamePattern :: "string \<Rightarrow> bool" where
  "queueNamePattern s = token_pattern 63 s"

definition submitTypePattern :: "string \<Rightarrow> bool" where
  "submitTypePattern s = token_pattern 127 s"

definition capabilityPattern :: "string \<Rightarrow> bool" where
  "capabilityPattern s = token_pattern 63 s"

section \<open>Normalisation\<close>

definition name_errors :: "string \<Rightarrow> (string \<Rightarrow> bool) \<Rightarrow> string \<Rightarrow> string \<Rightarrow> FieldError list" where
  "name_errors field pattern text name =
     (if name = '''' then [field_error field ''is required'']
      else if \<not> pattern name then [field_error field text] else [])"

definition payload_errors :: "string \<Rightarrow> FieldError list \<times> string" where
  "payload_errors raw = (if raw = [] then ([field_error ''payload'' ''is required''], [])
     else case CanonicalJSON raw of
         Inl e \<Rightarrow> ([\<lparr> fe_Field = ''payload'', fe_Message = InvalidJSON e \<rparr>], [])
       | Inr canonical \<Rightarrow> if canonical = [] \<or> hd canonical \<noteq> CHR ''{''
           then ([field_error ''payload'' ''must be a JSON object''], []) else ([], canonical))"

definition bounded_errors :: "string \<Rightarrow> string \<Rightarrow> int \<Rightarrow> int \<Rightarrow> int option \<Rightarrow> FieldError list" where
  "bounded_errors field text lo hi v = (case v of None \<Rightarrow> []
     | Some x \<Rightarrow> if x < lo \<or> x > hi then [field_error field text] else [])"

definition default_to :: "'a \<Rightarrow> 'a option \<Rightarrow> 'a" where
  "default_to x v = (case v of None \<Rightarrow> x | Some y \<Rightarrow> y)"

definition schedule_errors :: "string option \<Rightarrow> FieldError list \<times> int option" where
  "schedule_errors v = (case v of None \<Rightarrow> ([], None)
     | Some s \<Rightarrow> (case parse_rfc3339 (TrimSpace s) of
         None \<Rightarrow> ([field_error ''scheduled_at'' ''must be an RFC 3339 timestamp, for example 2026-09-01T12:00:00Z''], None)
       | Some t \<Rightarrow> ([], Some t)))"

definition capability_field :: "nat \<Rightarrow> string" where
  "capability_field i = ''required_capabilities['' @ Itoa (int i) @ '']''"

fun capability_loop :: "nat \<Rightarrow> string list \<Rightarrow> string list \<Rightarrow> FieldError list \<times> string list" where
  "capability_loop i [] seen = ([], seen)"
| "capability_loop i (c0 # cs) seen = (let c = TrimSpace c0 in
     if \<not> capabilityPattern c then
       (case capability_loop (Suc i) cs seen of (es, out) \<Rightarrow>
          (field_error (capability_field i) ''must match ^[a-z0-9][a-z0-9._-]{0,63}$'' # es, out))
     else if c \<in> set seen then capability_loop (Suc i) cs seen
     else capability_loop (Suc i) cs (seen @ [c]))"

definition normalizeCapabilities :: "string list \<Rightarrow> FieldError list \<times> string list" where
  "normalizeCapabilities cs =
     (if length cs > MaxRequiredCapabilities
      then ([field_error ''required_capabilities'' ''must contain at most 16 entries''], [])
      else (case capability_loop 0 cs [] of (es, out) \<Rightarrow> (es, sort out)))"

definition Normalize :: "SubmitRequest \<Rightarrow> FieldError list + NormalizedRequest" where
  "Normalize r = (let queue = TrimSpace (sr_Queue r); type = TrimSpace (sr_Type r);
       (payload_es, payload) = payload_errors (sr_Payload r);
       (schedule_es, schedule) = schedule_errors (sr_ScheduledAt r);
       (caps_es, caps) = normalizeCapabilities (sr_RequiredCapabilities r);
       es = name_errors ''queue'' queueNamePattern ''must match ^[a-z0-9][a-z0-9._-]{0,63}$'' queue
          @ name_errors ''job_type'' submitTypePattern ''must match ^[a-z0-9][a-z0-9._-]{0,127}$'' type
          @ payload_es
          @ bounded_errors ''priority'' ''must be between 0 and 100'' MinPriority MaxPriority (sr_Priority r)
          @ bounded_errors ''max_attempts'' ''must be between 1 and 100 (it counts the first attempt)'' MinMaxAttempts MaxMaxAttempts
              (sr_MaxAttempts r)
          @ bounded_errors ''timeout_seconds'' ''must be between 1 and 86400'' MinTimeoutSeconds MaxTimeoutSeconds (sr_TimeoutSeconds r)
          @ schedule_es @ caps_es
     in if es \<noteq> [] then Inl es
        else Inr \<lparr> nr_Queue = queue, nr_Type = type, nr_Payload = payload,
               nr_Priority = default_to DefaultPriority (sr_Priority r),
               nr_MaxAttempts = default_to DefaultMaxAttempts (sr_MaxAttempts r),
               nr_TimeoutSeconds = default_to DefaultTimeoutSeconds (sr_TimeoutSeconds r),
               nr_RequiredCapabilities = caps, nr_ScheduledAt = schedule \<rparr>)"

definition ValidateIdempotencyKey :: "string \<Rightarrow> FieldError option" where
  "ValidateIdempotencyKey key =
     (if TrimSpace key = '''' then Some (field_error ''Idempotency-Key'' ''header is required'')
      else if length key > MaxIdempotencyKeyLen then Some (field_error ''Idempotency-Key'' ''must be at most 255 bytes'')
      else if list_ex (\<lambda>r. r < 0x20 \<or> r = 0x7f) (runes key)
        then Some (field_error ''Idempotency-Key'' ''must not contain control characters'')
      else None)"

section \<open>Fingerprints\<close>

definition fingerprintVersion :: string where
  "fingerprintVersion = ''taskforge.fingerprint.v1''"

definition scheduledAtFingerprintTag :: string where
  "scheduledAtFingerprintTag = ''taskforge.fingerprint.scheduled_at''"

definition write_field :: "string \<Rightarrow> string" where
  "write_field b = big_endian 8 (length b mod 2 ^ 64) @ b"

definition fingerprint_fields :: "NormalizedRequest \<Rightarrow> string list" where
  "fingerprint_fields n =
     [fingerprintVersion, nr_Queue n, nr_Type n, nr_Payload n, Itoa (nr_Priority n), Itoa (nr_MaxAttempts n),
      Itoa (nr_TimeoutSeconds n), Itoa (int (length (nr_RequiredCapabilities n)))]
     @ nr_RequiredCapabilities n
     @ (case nr_ScheduledAt n of None \<Rightarrow> [] | Some t \<Rightarrow> [scheduledAtFingerprintTag, format_rfc3339nano t])"

definition fingerprint_stream :: "NormalizedRequest \<Rightarrow> string" where
  "fingerprint_stream n = concat (map write_field (fingerprint_fields n))"

definition Fingerprint :: "NormalizedRequest \<Rightarrow> string" where
  "Fingerprint n = EncodeToString (sha256 (fingerprint_stream n))"

section \<open>Well-formed requests\<close>

text \<open>What a normalized request promises to the store.\<close>

definition normalized :: "NormalizedRequest \<Rightarrow> bool" where
  "normalized n = (queueNamePattern (nr_Queue n) \<and> submitTypePattern (nr_Type n)
     \<and> CanonicalJSON (nr_Payload n) = Inr (nr_Payload n) \<and> (\<exists>s. nr_Payload n = CHR ''{'' # s)
     \<and> MinPriority \<le> nr_Priority n \<and> nr_Priority n \<le> MaxPriority
     \<and> MinMaxAttempts \<le> nr_MaxAttempts n \<and> nr_MaxAttempts n \<le> MaxMaxAttempts
     \<and> MinTimeoutSeconds \<le> nr_TimeoutSeconds n \<and> nr_TimeoutSeconds n \<le> MaxTimeoutSeconds
     \<and> list_all capabilityPattern (nr_RequiredCapabilities n) \<and> sorted (nr_RequiredCapabilities n)
     \<and> distinct (nr_RequiredCapabilities n) \<and> length (nr_RequiredCapabilities n) \<le> MaxRequiredCapabilities)"

lemma capability_loop_ok:
  assumes "capability_loop i cs seen = ([], out)" and "distinct seen" and "list_all capabilityPattern seen"
  shows "distinct out \<and> list_all capabilityPattern out \<and> set out = set seen \<union> TrimSpace ` set cs \<and> length out \<le> length seen + length cs"
  using assms
proof (induction i cs seen rule: capability_loop.induct)
  case (2 i c0 cs seen)
  have p: "capabilityPattern (TrimSpace c0)"
    using "2.prems"(1) by (simp add: Let_def split: if_splits prod.splits)
  show ?case
  proof (cases "TrimSpace c0 \<in> set seen")
    case True
    then show ?thesis
      using "2.IH"(2) [OF refl] "2.prems" p by (auto simp: Let_def)
  next
    case False
    then show ?thesis
      using "2.IH"(3) [OF refl] "2.prems" p by (auto simp: Let_def)
  qed
qed simp

lemma capability_loop_fixed:
  "list_all capabilityPattern cs \<Longrightarrow> distinct (seen @ cs) \<Longrightarrow> capability_loop i cs seen = ([], seen @ cs)"
proof (induction cs arbitrary: i seen)
  case (Cons c cs)
  then have "TrimSpace c = c"
    using TrimSpace_plain [OF token_plain [of 63 c]] by (simp add: capabilityPattern_def)
  then show ?case
    using Cons by (simp add: Let_def)
qed simp

lemma normalizeCapabilities_ok:
  assumes "normalizeCapabilities cs = ([], out)"
  shows "sorted out" "distinct out" "list_all capabilityPattern out" "set out = TrimSpace ` set cs" "length out \<le> MaxRequiredCapabilities"
  using assms capability_loop_ok [of 0 cs "[]"]
  by (auto simp: normalizeCapabilities_def list_all_iff split: if_splits prod.splits)

lemma normalizeCapabilities_fixed:
  assumes "list_all capabilityPattern cs" "sorted cs" "distinct cs" "length cs \<le> MaxRequiredCapabilities"
  shows "normalizeCapabilities cs = ([], cs)"
  using assms capability_loop_fixed [of cs "[]" 0] by (simp add: normalizeCapabilities_def sorted_sort_id)

lemma name_errors_none [simp]: "name_errors f p t x = [] \<longleftrightarrow> x \<noteq> [] \<and> p x"
  by (simp add: name_errors_def)

lemma bounded_errors_none:
  "bounded_errors f t lo hi v = [] \<Longrightarrow> lo \<le> d \<Longrightarrow> d \<le> hi \<Longrightarrow> lo \<le> default_to d v \<and> default_to d v \<le> hi"
  by (auto simp: bounded_errors_def default_to_def split: option.splits if_splits)

lemma payload_errors_none:
  assumes "payload_errors raw = ([], p)"
  shows "CanonicalJSON raw = Inr p" "\<exists>s. p = CHR ''{'' # s"
  using assms by (auto simp: payload_errors_def neq_Nil_conv split: if_splits sum.splits)

lemma Normalize_parts:
  assumes "Normalize r = Inr n"
  shows "n = \<lparr> nr_Queue = TrimSpace (sr_Queue r), nr_Type = TrimSpace (sr_Type r), nr_Payload = snd (payload_errors (sr_Payload r)),
      nr_Priority = default_to DefaultPriority (sr_Priority r), nr_MaxAttempts = default_to DefaultMaxAttempts (sr_MaxAttempts r),
      nr_TimeoutSeconds = default_to DefaultTimeoutSeconds (sr_TimeoutSeconds r),
      nr_RequiredCapabilities = snd (normalizeCapabilities (sr_RequiredCapabilities r)),
      nr_ScheduledAt = snd (schedule_errors (sr_ScheduledAt r)) \<rparr>"
    and "name_errors ''queue'' queueNamePattern ''must match ^[a-z0-9][a-z0-9._-]{0,63}$'' (TrimSpace (sr_Queue r)) = []"
    and "name_errors ''job_type'' submitTypePattern ''must match ^[a-z0-9][a-z0-9._-]{0,127}$'' (TrimSpace (sr_Type r)) = []"
    and "fst (payload_errors (sr_Payload r)) = []" and "fst (schedule_errors (sr_ScheduledAt r)) = []"
    and "fst (normalizeCapabilities (sr_RequiredCapabilities r)) = []"
    and "bounded_errors ''priority'' ''must be between 0 and 100'' MinPriority MaxPriority (sr_Priority r) = []"
    and "bounded_errors ''max_attempts'' ''must be between 1 and 100 (it counts the first attempt)'' MinMaxAttempts MaxMaxAttempts
           (sr_MaxAttempts r) = []"
    and "bounded_errors ''timeout_seconds'' ''must be between 1 and 86400'' MinTimeoutSeconds MaxTimeoutSeconds (sr_TimeoutSeconds r) = []"
  using assms unfolding Normalize_def Let_def case_prod_unfold by (simp_all only: append_is_Nil_conv split: if_splits) simp_all

lemmas submit_bounds = DefaultPriority_def DefaultMaxAttempts_def DefaultTimeoutSeconds_def MinPriority_def MaxPriority_def
  MinMaxAttempts_def MaxMaxAttempts_def MinTimeoutSeconds_def MaxTimeoutSeconds_def

lemma Normalize_sound:
  assumes "Normalize r = Inr n"
  shows "normalized n" and "set (nr_RequiredCapabilities n) = TrimSpace ` set (sr_RequiredCapabilities r)"
    and "CanonicalJSON (sr_Payload r) = Inr (nr_Payload n)"
proof -
  note n = Normalize_parts [OF assms]
  have p: "CanonicalJSON (sr_Payload r) = Inr (nr_Payload n)" "\<exists>s. nr_Payload n = CHR ''{'' # s"
    using payload_errors_none [of "sr_Payload r" "nr_Payload n"] n(1,4) by (simp_all add: prod_eq_iff)
  have c: "normalizeCapabilities (sr_RequiredCapabilities r) = ([], nr_RequiredCapabilities n)"
    using n(1,6) by (simp add: prod_eq_iff)
  have "MinPriority \<le> nr_Priority n \<and> nr_Priority n \<le> MaxPriority"
    using bounded_errors_none [OF n(7), of DefaultPriority] n(1) by (simp add: submit_bounds)
  moreover have "MinMaxAttempts \<le> nr_MaxAttempts n \<and> nr_MaxAttempts n \<le> MaxMaxAttempts"
    using bounded_errors_none [OF n(8), of DefaultMaxAttempts] n(1) by (simp add: submit_bounds)
  moreover have "MinTimeoutSeconds \<le> nr_TimeoutSeconds n \<and> nr_TimeoutSeconds n \<le> MaxTimeoutSeconds"
    using bounded_errors_none [OF n(9), of DefaultTimeoutSeconds] n(1) by (simp add: submit_bounds)
  moreover have "queueNamePattern (nr_Queue n)" "submitTypePattern (nr_Type n)"
    using n(1-3) by simp_all
  ultimately show "normalized n"
    using canonical_again [OF p(1)] p(2) normalizeCapabilities_ok [OF c] by (simp add: normalized_def)
  show "set (nr_RequiredCapabilities n) = TrimSpace ` set (sr_RequiredCapabilities r)"
    by (rule normalizeCapabilities_ok(4) [OF c])
  show "CanonicalJSON (sr_Payload r) = Inr (nr_Payload n)"
    by (rule p(1))
qed

text \<open>The request that asks for a normalized request again.\<close>

definition as_request :: "NormalizedRequest \<Rightarrow> SubmitRequest" where
  "as_request n = \<lparr> sr_Queue = nr_Queue n, sr_Type = nr_Type n, sr_Payload = nr_Payload n, sr_Priority = Some (nr_Priority n),
     sr_MaxAttempts = Some (nr_MaxAttempts n), sr_TimeoutSeconds = Some (nr_TimeoutSeconds n),
     sr_ScheduledAt = map_option format_rfc3339nano (nr_ScheduledAt n), sr_RequiredCapabilities = nr_RequiredCapabilities n \<rparr>"

lemma digits_plain: "list_all is_digit s \<Longrightarrow> list_all plain s"
  by (auto simp: list_all_iff is_digit_def plain_def)

lemma format_plain: "list_all plain (format_rfc3339nano t)"
proof -
  have p: "list_all plain (padded w k)" for w k
    by (rule digits_plain) simp
  have "list_all plain (append_year y)" for y
    using p by (simp add: append_year_def plain_def)
  moreover have "list_all plain (clock_text k)" for k
    using p by (simp add: clock_text_def plain_def)
  moreover have "list_all plain (append_nano k)" for k
    using p [of 9 k] by (auto simp: append_nano_def plain_def list_all_iff dest: set_dropWhileD)
  ultimately show ?thesis
    using p by (simp add: format_rfc3339nano_def Let_def case_prod_unfold) (simp add: plain_def)
qed

lemma Normalize_fixed:
  assumes n: "normalized n" and y: "\<And>t. nr_ScheduledAt n = Some t \<Longrightarrow> 0 \<le> year_of t \<and> year_of t \<le> 9999"
  shows "Normalize (as_request n) = Inr n"
proof -
  have t: "TrimSpace (nr_Queue n) = nr_Queue n" "TrimSpace (nr_Type n) = nr_Type n" "nr_Queue n \<noteq> []" "nr_Type n \<noteq> []"
    using n TrimSpace_plain token_plain by (auto simp: normalized_def queueNamePattern_def submitTypePattern_def)
  have p: "payload_errors (nr_Payload n) = ([], nr_Payload n)"
    using n by (auto simp: normalized_def payload_errors_def)
  have s: "schedule_errors (map_option format_rfc3339nano (nr_ScheduledAt n)) = ([], nr_ScheduledAt n)"
    using y by (auto simp: schedule_errors_def TrimSpace_plain format_plain parse_format split: option.splits)
  have c: "normalizeCapabilities (nr_RequiredCapabilities n) = ([], nr_RequiredCapabilities n)"
    using n by (intro normalizeCapabilities_fixed) (simp_all add: normalized_def)
  show ?thesis
    using n t by (simp add: Normalize_def as_request_def Let_def p s c name_errors_def bounded_errors_def default_to_def normalized_def)
qed

section \<open>Fingerprint streams\<close>

lemma length_big_endian [simp]: "length (big_endian k n) = k"
  by (induction k arbitrary: n) simp_all

lemma big_endian_inject: "m < 256 ^ k \<Longrightarrow> n < 256 ^ k \<Longrightarrow> big_endian k m = big_endian k n \<longleftrightarrow> m = n"
proof (induction k arbitrary: m n)
  case (Suc k)
  have b: "m div 256 < 256 ^ k" "n div 256 < 256 ^ k"
    using Suc.prems by (simp_all add: less_mult_imp_div_less mult.commute)
  have "chr (m mod 256) = chr (n mod 256) \<longleftrightarrow> m mod 256 = n mod 256"
    by (metis byte_chr mod_less_divisor zero_less_numeral)
  then show ?case
    using Suc.IH [OF b] by (auto simp: append_eq_append_conv) (metis div_mult_mod_eq)
qed simp

definition field_sized :: "string \<Rightarrow> bool" where
  "field_sized f = (length f < 2 ^ 63)"

lemma write_field_unique:
  assumes "field_sized f" and "field_sized g" and "write_field f @ r = write_field g @ s"
  shows "f = g \<and> r = s"
proof -
  have l: "length f < 2 ^ 64" "length g < 2 ^ 64"
    using assms(1,2) by (simp_all add: field_sized_def)
  have "big_endian 8 (length f) = big_endian 8 (length g) \<and> f @ r = g @ s"
    using assms(3) l by (simp add: write_field_def append_eq_append_conv del: big_endian.simps)
  then have "length f = length g"
    using l big_endian_inject [of "length f" 8 "length g"] by simp
  then show ?thesis
    using assms(3) by (simp add: write_field_def)
qed

lemma write_field_nonempty [simp]: "write_field f \<noteq> []"
proof -
  have "length (write_field f) = 8 + length f"
    unfolding write_field_def length_append length_big_endian ..
  then show ?thesis
    by auto
qed

lemma write_fields_inject:
  "list_all field_sized fs \<Longrightarrow> list_all field_sized gs \<Longrightarrow> concat (map write_field fs) = concat (map write_field gs) \<Longrightarrow> fs = gs"
proof (induction fs arbitrary: gs)
  case Nil
  then show ?case
    by (cases gs) simp_all
next
  case (Cons f fs)
  obtain g gs' where gs: "gs = g # gs'"
    using Cons.prems(3) by (cases gs) simp_all
  have e: "f = g \<and> concat (map write_field fs) = concat (map write_field gs')"
    by (rule write_field_unique) (use Cons.prems gs in simp_all)
  have "fs = gs'"
    by (rule Cons.IH) (use Cons.prems gs e in simp_all)
  then show ?case
    using e gs by simp
qed

lemma fingerprint_fields_inject:
  assumes "fingerprint_fields a = fingerprint_fields b"
  shows "a = (b :: NormalizedRequest)"
proof -
  let ?s = "\<lambda>n. case nr_ScheduledAt n of None \<Rightarrow> [] | Some t \<Rightarrow> [scheduledAtFingerprintTag, format_rfc3339nano t]"
  have "length (nr_RequiredCapabilities a) = length (nr_RequiredCapabilities b)"
    "nr_RequiredCapabilities a @ ?s a = nr_RequiredCapabilities b @ ?s b"
    using assms by (simp_all add: fingerprint_fields_def)
  then have "nr_RequiredCapabilities a = nr_RequiredCapabilities b" "?s a = ?s b"
    by simp_all
  moreover from this have "nr_ScheduledAt a = nr_ScheduledAt b"
    by (auto simp: format_inject split: option.splits)
  ultimately show ?thesis
    using assms by (intro NormalizedRequest.equality) (simp_all add: fingerprint_fields_def)
qed

lemma fingerprint_stream_inject:
  assumes "list_all field_sized (fingerprint_fields a)" and "list_all field_sized (fingerprint_fields b)"
  shows "fingerprint_stream a = fingerprint_stream b \<longleftrightarrow> a = b"
  using write_fields_inject [OF assms] fingerprint_fields_inject by (auto simp: fingerprint_stream_def)

section \<open>Properties\<close>

text \<open>A submission and its normal form.\<close>

definition request0 :: SubmitRequest where
  "request0 = \<lparr> sr_Queue = '' default'', sr_Type = ''t'', sr_Payload = '' {\"b\":1, \"a\":\"x\"}'', sr_Priority = Some 10,
     sr_MaxAttempts = None, sr_TimeoutSeconds = None, sr_ScheduledAt = Some ''1970-01-02T00:00:01Z'',
     sr_RequiredCapabilities = [''gpu'', ''cpu'', ''gpu''] \<rparr>"

definition normal0 :: NormalizedRequest where
  "normal0 = \<lparr> nr_Queue = ''default'', nr_Type = ''t'', nr_Payload = ''{\"a\":\"x\",\"b\":1}'', nr_Priority = 10, nr_MaxAttempts = 3,
     nr_TimeoutSeconds = 300, nr_RequiredCapabilities = [''cpu'', ''gpu''], nr_ScheduledAt = Some 86401000000000 \<rparr>"

lemma payload0: "payload_errors '' {\"b\":1, \"a\":\"x\"}'' = ([], ''{\"a\":\"x\",\"b\":1}'')"
proof -
  have "CanonicalJSON '' {\"b\":1, \"a\":\"x\"}'' = Inr ''{\"a\":\"x\",\"b\":1}''"
    by (rule CanonicalJSON_shallow [of 9 _ "JObject [(''b'', JNumber ''1''), (''a'', JString ''x'')]" "[]"]) code_simp+
  then show ?thesis
    by (simp add: payload_errors_def)
qed

lemma Normalize_request0: "Normalize request0 = Inr normal0"
proof -
  have "schedule_errors (Some ''1970-01-02T00:00:01Z'') = ([], Some 86401000000000)"
    "normalizeCapabilities [''gpu'', ''cpu'', ''gpu''] = ([], [''cpu'', ''gpu''])" "TrimSpace '' default'' = ''default''" "TrimSpace ''t'' = ''t''"
    "queueNamePattern ''default''" "submitTypePattern ''t''"
    by code_simp+
  then show ?thesis
    by (simp add: Normalize_def request0_def normal0_def payload0 bounded_errors_def default_to_def submit_bounds)
qed

lemma field_sizedI: "list_all (\<lambda>f. length f < 100) fs \<Longrightarrow> list_all field_sized fs"
  by (auto simp: list_all_iff field_sized_def)





text \<open>C34: The fingerprint separates requests: two normalized requests have the same fingerprint exactly when they are the same
request or their byte streams are a collision of SHA-256. Every field has a length that fits an \<^verbatim>\<open>int\<close>, as every Go string
has.\<close>

theorem fingerprint_separates:
  assumes "list_all field_sized (fingerprint_fields a)" and "list_all field_sized (fingerprint_fields b)"
  shows "Fingerprint a = Fingerprint b \<longleftrightarrow>
    a = b \<or> (fingerprint_stream a \<noteq> fingerprint_stream b \<and> sha256 (fingerprint_stream a) = sha256 (fingerprint_stream b))"
  using fingerprint_stream_inject [OF assms] by (auto simp: Fingerprint_def EncodeToString_inject)

theorem fingerprint_separates_witness:
  "Fingerprint normal0 = Fingerprint (normal0\<lparr> nr_ScheduledAt := None \<rparr>) \<longleftrightarrow>
     sha256 (fingerprint_stream normal0) = sha256 (fingerprint_stream (normal0\<lparr> nr_ScheduledAt := None \<rparr>))"
proof -
  have "list_all field_sized (fingerprint_fields normal0)" "list_all field_sized (fingerprint_fields (normal0\<lparr> nr_ScheduledAt := None \<rparr>))"
    by (rule field_sizedI, code_simp)+
  from fingerprint_separates [OF this] show ?thesis
    by (auto simp: normal0_def Fingerprint_def)
qed

end
