(* ===== verification/Intake.thy ===== *)
theory Intake
  imports Submission Settlement Scenario
begin

text \<open>
  Idempotent intake: a submission key and a replay key are bound once, for ever, to the job they
  created; repeating the request returns that job, whatever happened since, and a different request
  under a used submission key is refused.
\<close>

section \<open>Records are final\<close>

definition idempotency_of :: "db \<Rightarrow> string \<times> string \<Rightarrow> idempotency_row option" where
  "idempotency_of d k = find_idempotency (fst k) (snd k) d"

definition replay_of :: "db \<Rightarrow> string \<times> uuid \<times> string \<Rightarrow> replay_row option" where
  "replay_of d k = find_replay (fst k) (fst (snd k)) (snd (snd k)) d"

lemma find_append: "find p xs = Some r \<Longrightarrow> find p (xs @ ys) = Some r"
  by (induction xs) auto

lemma find_append_None: "find p xs = None \<Longrightarrow> find p (xs @ ys) = find p ys"
  by (induction xs) (auto split: if_splits)

lemma moves_idempotency_of: "moves d d' \<Longrightarrow> idempotency_of d k = Some i \<Longrightarrow> idempotency_of d' k = Some i"
  using moves_requests [of d d'] find_append by (auto simp: idempotency_of_def find_idempotency_def)

lemma moves_replay_of: "moves d d' \<Longrightarrow> replay_of d k = Some p \<Longrightarrow> replay_of d' k = Some p"
  using moves_requests [of d d'] find_append by (auto simp: replay_of_def find_replay_def)

interpretation idempotency_rows: final_rows "db_step cfg" db_ok idempotency_of "\<lambda>_. True" for cfg
  by unfold_locales (use step_moves moves_idempotency_of in blast)

interpretation replay_rows: final_rows "db_step cfg" db_ok replay_of "\<lambda>_. True" for cfg
  by unfold_locales (use step_moves moves_replay_of in blast)

lemma jobs_Get_lookup:
  assumes "get_job d x = Some j" and "j_scope j = scope" and "keys_ok d"
  shows "jobs_Get scope x d = Inr j"
proof -
  have k: "keys_distinct j_id (db_jobs d)"
    using assms(3) by (simp add: keys_ok_def)
  have "find (\<lambda>j. j_id j = x \<and> j_scope j = scope) (db_jobs d) = Some j"
    using assms(1,2) k
  proof (induction "db_jobs d" arbitrary: d)
    case Nil
    then show ?case
      by (simp add: lookup_def)
  next
    case (Cons y ys)
    then show ?case
      using Cons.hyps(1) [of "d\<lparr> db_jobs := ys \<rparr>"] by (auto simp: Cons.hyps(2) [symmetric] lookup_def split: if_splits)
  qed
  then show ?thesis
    by (simp add: jobs_Get_def)
qed

lemma idempotency_of_job:
  assumes "db_ok d" and "idempotency_of d (scope, key) = Some i"
  obtains j where "get_job d (i_job_id i) = Some j" and "j_scope j = scope" and "jobs_Get scope (i_job_id i) d = Inr j"
proof -
  have i: "i \<in> set (db_idempotency d)" "i_scope i = scope"
    using assms(2) by (auto simp: idempotency_of_def find_idempotency_def find_Some_iff)
  then obtain j where j: "get_job d (i_job_id i) = Some j" "j_scope j = scope"
    using db_okD(12) [OF assms(1)] by (auto simp: requests_ok_def idempotency_ok_def)
  show thesis
    using that [OF j jobs_Get_lookup [OF j db_okD(1) [OF assms(1)]]] .
qed

lemma replay_of_jobs:
  assumes "db_ok d" and "replay_of d (scope, x, key) = Some p"
  obtains j k where "get_job d x = Some j" and "j_status j = StatusDeadLettered" and "get_job d (p_replacement p) = Some k"
    and "j_scope k = scope" and "j_replayed_from k = Some x" and "jobs_Get scope (p_replacement p) d = Inr k"
proof -
  have p: "p \<in> set (db_replays d)" "p_scope p = scope" "p_original p = x"
    using assms(2) by (auto simp: replay_of_def find_replay_def find_Some_iff)
  then obtain j k where j: "get_job d x = Some j" "j_status j = StatusDeadLettered"
    and k: "get_job d (p_replacement p) = Some k" "j_scope k = scope" "j_replayed_from k = Some x"
    using db_okD(12) [OF assms(1)] by (fastforce simp: requests_ok_def replay_ok_def)
  show thesis
    using that [OF j k jobs_Get_lookup [OF k(1,2) db_okD(1) [OF assms(1)]]] .
qed

section \<open>Submissions\<close>

text \<open>The record and the job an accepted submission leaves.\<close>

lemma Submit_recorded:
  assumes ok: "db_ok d" and s: "Submit start now jid eid trace scope key fp req d = Inr (res, d')"
  shows "db_ok d'" "\<exists>i. idempotency_of d' (scope, key) = Some i \<and> i_fingerprint i = fp \<and> i_job_id i = j_id (sub_Job res)
     \<and> get_job d' (j_id (sub_Job res)) = Some (sub_Job res)"
proof -
  show "db_ok d'"
    using Submit_refines [of d start now jid eid trace scope key fp req] db_ok_moves [OF _ ok] ok s by (auto simp: refines_def)
  let ?j = "submitted_job start now jid scope req"
  show "\<exists>i. idempotency_of d' (scope, key) = Some i \<and> i_fingerprint i = fp \<and> i_job_id i = j_id (sub_Job res)
     \<and> get_job d' (j_id (sub_Job res)) = Some (sub_Job res)"
  proof (cases "find_idempotency scope key d")
    case None
    have f: "get_job d jid = None"
      using s by (auto simp: Submit_def Let_def split: if_splits)
    have "res = \<lparr> sub_Job = ?j, sub_Replayed = False \<rparr>" "db_jobs d' = db_jobs d @ [?j]"
      "db_idempotency d' = db_idempotency d @ [\<lparr> i_scope = scope, i_key = key, i_fingerprint = fp, i_job_id = jid \<rparr>]"
      using s None by (auto simp: Submit_def Let_def InsertWorkAvailableTx_def split: if_splits)
    moreover have "j_id ?j = jid"
      by (simp add: submitted_job_def)
    ultimately show ?thesis
      using None f by (simp add: idempotency_of_def find_idempotency_def lookup_insert find_append_None)
  next
    case (Some i)
    then have i: "idempotency_of d (scope, key) = Some i"
      by (simp add: idempotency_of_def)
    obtain j where j: "get_job d (i_job_id i) = Some j" "jobs_Get scope (i_job_id i) d = Inr j"
      using idempotency_of_job [OF ok i] by blast
    have "d' = d" "sub_Job res = j" "i_fingerprint i = fp"
      using s Some j(2) by (auto simp: Submit_def Let_def resolveExisting_def split: if_splits)
    then show ?thesis
      using i j(1) lookup_key [OF j(1)] by simp
  qed
qed



section \<open>Replays\<close>

lemma Replay_recorded:
  assumes ok: "db_ok d" and s: "Replay start now jid eid scope x key d = Inr (res, d')"
  shows "db_ok d'" "\<exists>p. replay_of d' (scope, x, key) = Some p \<and> p_replacement p = j_id (rep_Replacement res)
     \<and> get_job d' (j_id (rep_Replacement res)) = Some (rep_Replacement res)"
    "\<exists>j. get_job d' x = Some j \<and> j_scope j = scope"
proof -
  show ok': "db_ok d'"
    using Replay_refines [OF ok, of start now jid eid scope x key] db_ok_moves [OF _ ok] ok s by (auto simp: refines_def)
  obtain original where o: "get_job d x = Some original" "j_scope original = scope" and f: "get_job d jid = None"
    using s by (auto simp: Replay_def split: option.splits if_splits)
  let ?j = "replacement_job now jid scope original"
  show "\<exists>p. replay_of d' (scope, x, key) = Some p \<and> p_replacement p = j_id (rep_Replacement res)
     \<and> get_job d' (j_id (rep_Replacement res)) = Some (rep_Replacement res)"
  proof (cases "find_replay scope x key d")
    case None
    have "rep_Replacement res = ?j" "db_jobs d' = db_jobs d @ [?j]"
      "db_replays d' = db_replays d @ [\<lparr> p_scope = scope, p_original = x, p_key = key, p_replacement = jid \<rparr>]"
      using s None o by (auto simp: Replay_def Let_def InsertWorkAvailableTx_def split: if_splits option.splits)
    moreover have "j_id ?j = jid"
      by (simp add: replacement_job_def)
    ultimately show ?thesis
      using None f by (simp add: replay_of_def find_replay_def lookup_insert find_append_None)
  next
    case (Some p)
    then have p: "replay_of d (scope, x, key) = Some p"
      by (simp add: replay_of_def)
    obtain k where k: "get_job d (p_replacement p) = Some k" "jobs_Get scope (p_replacement p) d = Inr k"
      using replay_of_jobs [OF ok p] by blast
    have "d' = d" "rep_Replacement res = k"
      using s Some k(2) o by (auto simp: Replay_def resolveExistingReplay_def split: if_splits option.splits)
    then show ?thesis
      using p k(1) lookup_key [OF k(1)] by simp
  qed
  have "d' = d \<or> moves d d'"
    using Replay_refines [OF ok, of start now jid eid scope x key] s by (auto simp: refines_def)
  then show "\<exists>j. get_job d' x = Some j \<and> j_scope j = scope"
    using o moves_job_static [of d d' x original] by metis
qed

text \<open>C31: A dead-lettered job is replayed once per key. After an accepted replay, the same replay at any later time and after
any other requests changes nothing and returns the replacement the first one created, which is still linked to the original job
and defined as it was.\<close>

theorem replay_once:
  assumes "reach cfg d" and s: "Replay start now jid eid scope x key d = Inr (res, d')" and "get_job (run cfg rs d') jid2 = None"
  shows "\<exists>j. get_job (run cfg rs d') (j_id (rep_Replacement res)) = Some j \<and> job_definition j = job_definition (rep_Replacement res)
     \<and> j_replayed_from j = Some x
     \<and> Replay start2 now2 jid2 eid2 scope x key (run cfg rs d')
        = Inr (\<lparr> rep_OriginalJobID = x, rep_Replacement = j, rep_Replayed = True \<rparr>, run cfg rs d')"
proof -
  let ?d = "run cfg rs d'"
  note r = Replay_recorded [OF reach_ok [OF assms(1)] s]
  note ok = run_ok [OF r(1), of cfg rs]
  obtain p where p: "replay_of d' (scope, x, key) = Some p" "p_replacement p = j_id (rep_Replacement res)"
    "get_job d' (j_id (rep_Replacement res)) = Some (rep_Replacement res)"
    using r(2) by blast
  have p': "replay_of ?d (scope, x, key) = Some p"
    using replay_rows.final_steps [OF run_steps r(1) p(1)] by simp
  obtain j k where j: "get_job ?d x = Some j" "j_status j = StatusDeadLettered" and k: "get_job ?d (p_replacement p) = Some k"
    "j_replayed_from k = Some x" "jobs_Get scope (p_replacement p) ?d = Inr k"
    using replay_of_jobs [OF ok p'] by blast
  have sc: "j_scope j = scope"
    using r(3) job_columns.row_steps [OF run_steps r(1), of x _ cfg rs] j(1) by (fastforce simp: job_le_def job_definition_def)
  have "get_queue ?d (j_queue j) \<noteq> None" "x \<in> d_job_id ` set (db_dlq ?d)"
    using db_okD(4,6) [OF ok] j unfolding refs_ok_def dlq_ok_def by blast+
  then have "Replay start2 now2 jid2 eid2 scope x key ?d
      = Inr (\<lparr> rep_OriginalJobID = x, rep_Replacement = k, rep_Replayed = True \<rparr>, ?d)"
    using j sc assms(3) p' k(3)
    by (auto simp: Replay_def resolveExistingReplay_def replay_of_def list_ex_iff split: option.splits)
  moreover have "job_definition k = job_definition (rep_Replacement res)"
    using job_columns.row_steps [OF run_steps r(1) p(3), of cfg rs] k(1) p(2) by (auto simp: job_le_def)
  ultimately show ?thesis
    using k(1,2) p(2) by auto
qed

text \<open>The job of the running scenario dead-letters on a permanent failure and is replayed.\<close>

definition failure0 :: FailureReport where
  "failure0 = \<lparr> fr_Fence = fence0, fr_OutcomeRequestID = 60, fr_Class = ClassPermanent, fr_ErrorCode = ''boom'', fr_ErrorMessage = ''m'' \<rparr>"

definition dead_db :: db where
  "dead_db = run cfg0 [FailReq (input0 4) ''s'' failure0] running_db"

theorem replay_once_witness:
  "\<exists>res d'. Replay 8 8 80 81 ''s'' 10 ''r'' dead_db = Inr (res, d') \<and>
     (\<exists>j. j_replayed_from j = Some 10 \<and>
       Replay 9 9 90 91 ''s'' 10 ''r'' d' = Inr (\<lparr> rep_OriginalJobID = 10, rep_Replacement = j, rep_Replayed = True \<rparr>, d'))"
proof -
  let ?R = "Replay 8 8 80 81 ''s'' 10 ''r'' dead_db"
  have "\<not> isl ?R"
    by code_simp
  then have r: "?R = Inr (fst (projr ?R), snd (projr ?R))"
    by (cases ?R) simp_all
  have n: "get_job (run cfg0 [] (snd (projr ?R))) 90 = None"
    by code_simp
  have "reach cfg0 dead_db"
    unfolding dead_db_def by (rule reach_run [OF reach_running])
  from replay_once [OF this r n, of 9 9 91] show ?thesis
    using r by (fastforce simp: run_def)
qed

end
