(* ===== verification/Credentials.thy ===== *)
theory Credentials
  imports Sha256 Outbox
begin

text \<open>
  Credentials (\<^verbatim>\<open>internal/auth\<close>, \<^verbatim>\<open>internal/workerauth\<close>): the format of a key and its parser, the two
  tables of hashed keys, and the operations that mint, revoke, list and verify a key. Both packages
  run the same statements against their own table, so each operation is defined on a table and then
  for each package. The bytes of the randomness source, the generated identifiers and \<^verbatim>\<open>now()\<close> are
  arguments; \<^verbatim>\<open>None\<close> as entropy is a failed read.
\<close>

section \<open>Unpadded base64url\<close>

definition b64_char :: "nat \<Rightarrow> char" where
  "b64_char n = (if n < 26 then chr (65 + n) else if n < 52 then chr (71 + n) else if n < 62 then chr (n - 4)
     else if n = 62 then CHR ''-'' else CHR ''_'')"

fun b64_encode :: "string \<Rightarrow> string" where
  "b64_encode [] = []"
| "b64_encode [a] = [b64_char (byte a div 4), b64_char (byte a mod 4 * 16)]"
| "b64_encode [a, b] = [b64_char (byte a div 4), b64_char (byte a mod 4 * 16 + byte b div 16), b64_char (byte b mod 16 * 4)]"
| "b64_encode (a # b # c # r) = b64_char (byte a div 4) # b64_char (byte a mod 4 * 16 + byte b div 16)
     # b64_char (byte b mod 16 * 4 + byte c div 64) # b64_char (byte c mod 64) # b64_encode r"

definition is_b64 :: "char \<Rightarrow> bool" where
  "is_b64 c = ((65 \<le> byte c \<and> byte c \<le> 90) \<or> (97 \<le> byte c \<and> byte c \<le> 122) \<or> (48 \<le> byte c \<and> byte c \<le> 57)
     \<or> c = CHR ''-'' \<or> c = CHR ''_'')"

text \<open>
  \<^verbatim>\<open>RawURLEncoding.DecodeString\<close> succeeds: the decoder skips line breaks, refuses every other character
  outside the alphabet and a last group of one character, and ignores trailing bits.
\<close>

definition decodeSegment :: "string \<Rightarrow> bool" where
  "decodeSegment s = (let t = filter (\<lambda>c. byte c \<noteq> 10 \<and> byte c \<noteq> 13) s in list_all is_b64 t \<and> length t mod 4 \<noteq> 1)"

section \<open>Keys\<close>

definition KeyPrefix :: string where "KeyPrefix = ''tfk_''"
definition separator :: char where "separator = CHR ''.''"
definition LookupBytes :: nat where "LookupBytes = 16"
definition SecretBytes :: nat where "SecretBytes = 32"
definition LookupLen :: nat where "LookupLen = (LookupBytes * 8 + 5) div 6"
definition SecretLen :: nat where "SecretLen = (SecretBytes * 8 + 5) div 6"
definition KeyLen :: nat where "KeyLen = length KeyPrefix + LookupLen + 1 + SecretLen"
definition MaxCredentialLen :: nat where "MaxCredentialLen = 4 * KeyLen"

record Material =
  m_Prefix :: string
  m_Secret :: string
  m_SecretHash :: string

definition Material_Raw :: "Material \<Rightarrow> string" where
  "Material_Raw m = KeyPrefix @ m_Prefix m @ separator # m_Secret m"

definition HashSecret :: "string \<Rightarrow> string" where
  "HashSecret secret = EncodeToString (sha256 secret)"

definition VerifySecret :: "string \<Rightarrow> string \<Rightarrow> bool" where
  "VerifySecret storedHash secret = (let computed = HashSecret secret in length storedHash = length computed \<and> storedHash = computed)"

text \<open>\<^verbatim>\<open>io.ReadFull\<close> gives exactly the bytes asked for, or an error.\<close>

type_synonym entropy = "(string \<times> string) option"

definition GenerateMaterial :: "entropy \<Rightarrow> Material option" where
  "GenerateMaterial random = (case random of
     Some (look, secret) \<Rightarrow> if length look \<noteq> LookupBytes \<or> length secret \<noteq> SecretBytes then None
       else let encodedSecret = b64_encode secret
            in Some \<lparr> m_Prefix = b64_encode look, m_Secret = encodedSecret, m_SecretHash = HashSecret encodedSecret \<rparr>
   | None \<Rightarrow> None)"

record Presented =
  p_Prefix :: string
  p_Secret :: string

text \<open>\<^verbatim>\<open>strings.Cut\<close> at the first occurrence of a character.\<close>

definition strings_Cut :: "string \<Rightarrow> char \<Rightarrow> (string \<times> string) option" where
  "strings_Cut s c = (case dropWhile (\<lambda>x. x \<noteq> c) s of [] \<Rightarrow> None | _ # r \<Rightarrow> Some (takeWhile (\<lambda>x. x \<noteq> c) s, r))"

definition ParseKey :: "string \<Rightarrow> Presented option" where
  "ParseKey raw = (if length raw > MaxCredentialLen then None
     else if length raw \<noteq> KeyLen then None
     else if take (length KeyPrefix) raw \<noteq> KeyPrefix then None
     else case strings_Cut (drop (length KeyPrefix) raw) separator of
         None \<Rightarrow> None
       | Some (prefix, secret) \<Rightarrow>
           if length prefix \<noteq> LookupLen \<or> length secret \<noteq> SecretLen then None
           else if \<not> decodeSegment prefix then None
           else if \<not> decodeSegment secret then None
           else Some \<lparr> p_Prefix = prefix, p_Secret = secret \<rparr>)"

section \<open>Tables of keys\<close>

record key_row =
  k_id :: uuid
  k_scope :: string
  k_name :: string
  k_prefix :: string
  k_secret_hash :: string
  k_created_at :: ts
  k_revoked_at :: "ts option"

datatype key_error = KeyInvalid "(string \<times> string) list" | KeyUnauthorized | KeyNotFound | KeyPrefixExhausted | KeyDatabase string

text \<open>The administrative view of a key has neither the secret nor its hash.\<close>

record Key =
  key_ID :: uuid
  key_Scope :: string
  key_Name :: string
  key_Prefix :: string
  key_CreatedAt :: ts
  key_RevokedAt :: "ts option"

record Created =
  cr_Key :: Key
  cr_Raw :: string

record RevokeResult =
  rv_Key :: Key
  rv_AlreadyRevoked :: bool

record Principal =
  pr_KeyID :: uuid
  pr_Scope :: string

definition MaxScopeLen :: nat where "MaxScopeLen = 128"
definition MaxNameLen :: nat where "MaxNameLen = 128"
definition DefaultListLimit :: int where "DefaultListLimit = 50"
definition MaxListLimit :: int where "MaxListLimit = 200"

definition scanKey :: "key_row \<Rightarrow> Key" where
  "scanKey r = \<lparr> key_ID = k_id r, key_Scope = k_scope r, key_Name = k_name r, key_Prefix = k_prefix r,
     key_CreatedAt = k_created_at r, key_RevokedAt = k_revoked_at r \<rparr>"

definition isPrintableWithin :: "string \<Rightarrow> nat \<Rightarrow> bool" where
  "isPrintableWithin value maxLen = (1 \<le> length value \<and> length value \<le> maxLen \<and> \<not> list_ex (\<lambda>r. r < 0x20 \<or> r = 0x7f) (runes value))"

definition validateKeyRequest :: "string \<Rightarrow> string \<Rightarrow> (string \<times> string) list" where
  "validateKeyRequest scope name =
     (if \<not> isPrintableWithin scope MaxScopeLen then [(''scope'', ''must contain between 1 and 128 printable characters'')] else [])
   @ (if \<not> isPrintableWithin name MaxNameLen then [(''name'', ''must contain between 1 and 128 printable characters'')] else [])"

text \<open>One iteration of the loop of \<^verbatim>\<open>Create\<close>: \<^verbatim>\<open>None\<close> is a collision of the prefix, which is retried once.\<close>

definition insert_key :: "ts \<Rightarrow> entropy \<times> uuid \<Rightarrow> string \<Rightarrow> string \<Rightarrow> key_row list \<Rightarrow> (key_error + (Created \<times> key_row list)) option" where
  "insert_key now draw scope name t = (case GenerateMaterial (fst draw) of
     None \<Rightarrow> Some (Inl (KeyDatabase ''generate key''))
   | Some m \<Rightarrow>
       if \<not> storable_text scope \<or> \<not> storable_text name \<or> lookup k_id t (snd draw) \<noteq> None then Some (Inl (KeyDatabase ''insert key''))
       else if list_ex (\<lambda>r. k_prefix r = m_Prefix m) t then None
       else let r = \<lparr> k_id = snd draw, k_scope = scope, k_name = name, k_prefix = m_Prefix m, k_secret_hash = m_SecretHash m,
                      k_created_at = now, k_revoked_at = None \<rparr>
            in Some (Inr (\<lparr> cr_Key = scanKey r, cr_Raw = Material_Raw m \<rparr>, t @ [r])))"

definition create_key :: "ts \<Rightarrow> entropy \<times> uuid \<Rightarrow> entropy \<times> uuid \<Rightarrow> string \<Rightarrow> string \<Rightarrow> key_row list
    \<Rightarrow> key_error + (Created \<times> key_row list)" where
  "create_key now draw1 draw2 scope0 name0 t = (let scope = TrimSpace scope0; name = TrimSpace name0; es = validateKeyRequest scope name in
     if es \<noteq> [] then Inl (KeyInvalid es)
     else case insert_key now draw1 scope name t of Some r \<Rightarrow> r
       | None \<Rightarrow> (case insert_key now draw2 scope name t of Some r \<Rightarrow> r | None \<Rightarrow> Inl KeyPrefixExhausted))"

definition get_key :: "uuid \<Rightarrow> key_row list \<Rightarrow> key_error + Key" where
  "get_key i t = (case lookup k_id t i of None \<Rightarrow> Inl KeyNotFound | Some r \<Rightarrow> Inr (scanKey r))"

definition revoke_key :: "ts \<Rightarrow> uuid \<Rightarrow> key_row list \<Rightarrow> key_error + (RevokeResult \<times> key_row list)" where
  "revoke_key now i t = (case find (\<lambda>r. k_id r = i \<and> k_revoked_at r = None) t of
     Some r \<Rightarrow> if now < k_created_at r then Inl (KeyDatabase ''revoke key'')
       else Inr (\<lparr> rv_Key = scanKey (r\<lparr> k_revoked_at := Some now \<rparr>), rv_AlreadyRevoked = False \<rparr>,
                 upd_where (\<lambda>r. k_id r = i \<and> k_revoked_at r = None) (\<lambda>r. r\<lparr> k_revoked_at := Some now \<rparr>) t)
   | None \<Rightarrow> (case get_key i t of Inl e \<Rightarrow> Inl e | Inr k \<Rightarrow> Inr (\<lparr> rv_Key = k, rv_AlreadyRevoked = True \<rparr>, t)))"

definition list_keys :: "int \<Rightarrow> key_row list \<Rightarrow> Key list" where
  "list_keys limit0 t = (let limit = (if limit0 \<le> 0 then DefaultListLimit else limit0);
       limit' = (if limit > MaxListLimit then MaxListLimit else limit)
     in map scanKey (select_ordered (\<lambda>_. True) (\<lambda>r. (- k_created_at r, - int (k_id r))) (nat limit') t))"

definition authenticate_key :: "string \<Rightarrow> key_row list \<Rightarrow> key_error + Principal" where
  "authenticate_key raw t = (case ParseKey raw of
     None \<Rightarrow> Inl KeyUnauthorized
   | Some p \<Rightarrow> (case find (\<lambda>r. k_prefix r = p_Prefix p) t of
       None \<Rightarrow> Inl KeyUnauthorized
     | Some r \<Rightarrow> if \<not> VerifySecret (k_secret_hash r) (p_Secret p) then Inl KeyUnauthorized
         else if k_revoked_at r \<noteq> None then Inl KeyUnauthorized
         else Inr \<lparr> pr_KeyID = k_id r, pr_Scope = k_scope r \<rparr>))"

section \<open>The two packages\<close>

record key_db =
  api_keys :: "key_row list"
  worker_keys :: "key_row list"

definition auth_Create :: "ts \<Rightarrow> entropy \<times> uuid \<Rightarrow> entropy \<times> uuid \<Rightarrow> string \<Rightarrow> string \<Rightarrow> key_db \<Rightarrow> key_error + (Created \<times> key_db)" where
  "auth_Create now d1 d2 scope name d = (case create_key now d1 d2 scope name (api_keys d) of
     Inl e \<Rightarrow> Inl e | Inr (c, t) \<Rightarrow> Inr (c, d\<lparr> api_keys := t \<rparr>))"

definition auth_Revoke :: "ts \<Rightarrow> uuid \<Rightarrow> key_db \<Rightarrow> key_error + (RevokeResult \<times> key_db)" where
  "auth_Revoke now i d = (case revoke_key now i (api_keys d) of Inl e \<Rightarrow> Inl e | Inr (r, t) \<Rightarrow> Inr (r, d\<lparr> api_keys := t \<rparr>))"

definition auth_Get :: "uuid \<Rightarrow> key_db \<Rightarrow> key_error + Key" where
  "auth_Get i d = get_key i (api_keys d)"

definition auth_List :: "int \<Rightarrow> key_db \<Rightarrow> Key list" where
  "auth_List limit d = list_keys limit (api_keys d)"

definition auth_Authenticate :: "string \<Rightarrow> key_db \<Rightarrow> key_error + Principal" where
  "auth_Authenticate raw d = authenticate_key raw (api_keys d)"

definition workerauth_Create :: "ts \<Rightarrow> entropy \<times> uuid \<Rightarrow> entropy \<times> uuid \<Rightarrow> string \<Rightarrow> string \<Rightarrow> key_db
    \<Rightarrow> key_error + (Created \<times> key_db)" where
  "workerauth_Create now d1 d2 scope name d = (case create_key now d1 d2 scope name (worker_keys d) of
     Inl e \<Rightarrow> Inl e | Inr (c, t) \<Rightarrow> Inr (c, d\<lparr> worker_keys := t \<rparr>))"

definition workerauth_Revoke :: "ts \<Rightarrow> uuid \<Rightarrow> key_db \<Rightarrow> key_error + (RevokeResult \<times> key_db)" where
  "workerauth_Revoke now i d = (case revoke_key now i (worker_keys d) of
     Inl e \<Rightarrow> Inl e | Inr (r, t) \<Rightarrow> Inr (r, d\<lparr> worker_keys := t \<rparr>))"

definition workerauth_Get :: "uuid \<Rightarrow> key_db \<Rightarrow> key_error + Key" where
  "workerauth_Get i d = get_key i (worker_keys d)"

definition workerauth_List :: "int \<Rightarrow> key_db \<Rightarrow> Key list" where
  "workerauth_List limit d = list_keys limit (worker_keys d)"

definition workerauth_Authenticate :: "string \<Rightarrow> key_db \<Rightarrow> key_error + Principal" where
  "workerauth_Authenticate raw d = authenticate_key raw (worker_keys d)"

definition IsRevoked :: "uuid \<Rightarrow> key_db \<Rightarrow> bool" where
  "IsRevoked i d = (case lookup k_id (worker_keys d) i of None \<Rightarrow> True | Some r \<Rightarrow> k_revoked_at r \<noteq> None)"

text \<open>The requests that change the tables, in any order.\<close>

datatype key_request =
    ApiCreate ts "entropy \<times> uuid" "entropy \<times> uuid" string string
  | ApiRevoke ts uuid
  | WorkerCreate ts "entropy \<times> uuid" "entropy \<times> uuid" string string
  | WorkerRevoke ts uuid

definition key_commit :: "key_db \<Rightarrow> key_error + ('a \<times> key_db) \<Rightarrow> key_db" where
  "key_commit d r = (case r of Inl _ \<Rightarrow> d | Inr (_, d') \<Rightarrow> d')"

fun key_exec :: "key_db \<Rightarrow> key_request \<Rightarrow> key_db" where
  "key_exec d (ApiCreate now d1 d2 scope name) = key_commit d (auth_Create now d1 d2 scope name d)"
| "key_exec d (ApiRevoke now i) = key_commit d (auth_Revoke now i d)"
| "key_exec d (WorkerCreate now d1 d2 scope name) = key_commit d (workerauth_Create now d1 d2 scope name d)"
| "key_exec d (WorkerRevoke now i) = key_commit d (workerauth_Revoke now i d)"

definition key_run :: "key_request list \<Rightarrow> key_db \<Rightarrow> key_db" where
  "key_run rs d = foldl key_exec d rs"

end
