(* ===== verification/Authentication.thy ===== *)
theory Authentication
  imports Credentials
begin

text \<open>
  What a credential is worth: a minted key authenticates as its identity and scope at every later
  time until it is revoked, and never afterwards; and whatever authenticates was minted, up to
  collisions of SHA-256. The argument is made once, for a table of keys behind an interface, and
  applied to the table of API keys and to the table of worker keys.
\<close>

section \<open>The format of a key\<close>

lemma length_b64_encode: "length (b64_encode s) = (length s * 8 + 5) div 6"
  by (induction s rule: b64_encode.induct) simp_all

lemma is_b64_char: "n < 64 \<Longrightarrow> is_b64 (b64_char n)"
  by (auto simp: b64_char_def is_b64_def)

lemma b64_digit_bounds: "byte a div 4 < 64" "byte a mod 4 * 16 + byte b div 16 < 64" "byte b mod 16 * 4 + byte c div 64 < 64"
  "byte c mod 64 < 64" "byte a mod 4 * 16 < 64" "byte b mod 16 * 4 < 64"
proof -
  have l: "byte x < 256" for x
    by (rule nat_of_char_less_256)
  have "byte b div 16 \<le> 15" "byte c div 64 \<le> 3" "byte a div 4 \<le> 63"
    using l [of a] l [of b] l [of c] by linarith+
  moreover have "byte a mod 4 \<le> 3" "byte b mod 16 \<le> 15"
    by (simp_all add: less_Suc_eq_le [symmetric])
  ultimately show "byte a div 4 < 64" "byte a mod 4 * 16 + byte b div 16 < 64" "byte b mod 16 * 4 + byte c div 64 < 64"
    "byte c mod 64 < 64" "byte a mod 4 * 16 < 64" "byte b mod 16 * 4 < 64"
    by simp_all
qed

lemma b64_encode_chars: "list_all is_b64 (b64_encode s)"
  by (induction s rule: b64_encode.induct) (simp_all add: is_b64_char b64_digit_bounds)

lemma is_b64_not: "is_b64 c \<Longrightarrow> byte c \<noteq> 10 \<and> byte c \<noteq> 13 \<and> c \<noteq> separator"
  by (auto simp: is_b64_def separator_def)

lemma decodeSegment_encoded: "(length s * 8 + 5) div 6 mod 4 \<noteq> 1 \<Longrightarrow> decodeSegment (b64_encode s)"
proof -
  assume l: "(length s * 8 + 5) div 6 mod 4 \<noteq> 1"
  have "filter (\<lambda>c. byte c \<noteq> 10 \<and> byte c \<noteq> 13) (b64_encode s) = b64_encode s"
    using b64_encode_chars [of s] is_b64_not by (auto simp: filter_id_conv list_all_iff)
  then show ?thesis
    using l b64_encode_chars [of s] by (simp add: decodeSegment_def Let_def length_b64_encode)
qed

lemma key_lengths: "LookupLen = 22" "SecretLen = 43" "length KeyPrefix = 4" "KeyLen = 70" "MaxCredentialLen = 280"
  by (simp_all add: LookupLen_def SecretLen_def KeyPrefix_def KeyLen_def MaxCredentialLen_def LookupBytes_def SecretBytes_def)

lemma strings_Cut_at: "c \<notin> set p \<Longrightarrow> strings_Cut (p @ c # r) c = Some (p, r)"
proof -
  assume "c \<notin> set p"
  then have "dropWhile (\<lambda>x. x \<noteq> c) (p @ c # r) = c # r" "takeWhile (\<lambda>x. x \<noteq> c) (p @ c # r) = p"
    by (subst dropWhile_append2, auto) (subst takeWhile_append2, auto)
  then show ?thesis
    by (simp add: strings_Cut_def)
qed

lemma strings_Cut_SomeD:
  assumes "strings_Cut s c = Some (p, r)"
  shows "s = p @ c # r"
proof -
  obtain x where x: "dropWhile (\<lambda>x. x \<noteq> c) s = x # r" "p = takeWhile (\<lambda>x. x \<noteq> c) s"
    using assms by (auto simp: strings_Cut_def split: list.splits)
  have "x = c"
    using hd_dropWhile [of "\<lambda>x. x \<noteq> c" s] x(1) by auto
  then show ?thesis
    using x takeWhile_dropWhile_id [of "\<lambda>x. x \<noteq> c" s] by metis
qed

text \<open>A generated key parses to its two segments.\<close>

lemma GenerateMaterial_parts:
  assumes "GenerateMaterial e = Some m"
  shows "m_SecretHash m = HashSecret (m_Secret m)" "ParseKey (Material_Raw m) = Some \<lparr> p_Prefix = m_Prefix m, p_Secret = m_Secret m \<rparr>"
proof -
  obtain l s where l: "length l = 16" "length s = 32" and m: "m_Prefix m = b64_encode l" "m_Secret m = b64_encode s" "m_SecretHash m = HashSecret (b64_encode s)"
    using assms by (auto simp: GenerateMaterial_def Let_def LookupBytes_def SecretBytes_def split: option.splits if_splits)
  show "m_SecretHash m = HashSecret (m_Secret m)"
    using m by simp
  have len: "length (m_Prefix m) = 22" "length (m_Secret m) = 43"
    using l m by (simp_all add: length_b64_encode)
  have "separator \<notin> set (m_Prefix m)"
    using b64_encode_chars [of l] is_b64_not m(1) by (auto simp: list_all_iff)
  then have c: "strings_Cut (m_Prefix m @ separator # m_Secret m) separator = Some (m_Prefix m, m_Secret m)"
    by (rule strings_Cut_at)
  have d: "decodeSegment (m_Prefix m)" "decodeSegment (m_Secret m)"
    using l m by (simp_all add: decodeSegment_encoded)
  have "take 4 (Material_Raw m) = KeyPrefix" "drop 4 (Material_Raw m) = m_Prefix m @ separator # m_Secret m" "length (Material_Raw m) = 70"
    using len by (simp_all add: Material_Raw_def KeyPrefix_def)
  then show "ParseKey (Material_Raw m) = Some \<lparr> p_Prefix = m_Prefix m, p_Secret = m_Secret m \<rparr>"
    using c d len by (simp add: ParseKey_def key_lengths)
qed

lemma ParseKey_SomeD:
  assumes "ParseKey raw = Some p"
  shows "raw = KeyPrefix @ p_Prefix p @ separator # p_Secret p"
proof -
  have t: "take (length KeyPrefix) raw = KeyPrefix"
    and "strings_Cut (drop (length KeyPrefix) raw) separator = Some (p_Prefix p, p_Secret p)"
    using assms by (auto simp: ParseKey_def split: if_splits option.splits)
  then have "drop (length KeyPrefix) raw = p_Prefix p @ separator # p_Secret p"
    by (intro strings_Cut_SomeD)
  then show ?thesis
    using append_take_drop_id [of "length KeyPrefix" raw] t by metis
qed

section \<open>A table of keys\<close>

datatype key_change = Mint ts "entropy \<times> uuid" "entropy \<times> uuid" string string | Withdraw ts uuid

fun key_effect :: "key_row list \<Rightarrow> key_change \<Rightarrow> key_row list" where
  "key_effect t (Mint now d1 d2 scope name) = (case create_key now d1 d2 scope name t of Inl _ \<Rightarrow> t | Inr (_, t') \<Rightarrow> t')"
| "key_effect t (Withdraw now i) = (case revoke_key now i t of Inl _ \<Rightarrow> t | Inr (_, t') \<Rightarrow> t')"

fun key_answer :: "key_row list \<Rightarrow> key_change \<Rightarrow> Created list" where
  "key_answer t (Mint now d1 d2 scope name) = (case create_key now d1 d2 scope name t of Inl _ \<Rightarrow> [] | Inr (c, _) \<Rightarrow> [c])"
| "key_answer t (Withdraw now i) = []"

definition table_ok :: "key_row list \<Rightarrow> bool" where
  "table_ok t = (keys_distinct k_id t \<and> keys_distinct k_prefix t)"

text \<open>The row a key was stored in: its prefix and the hash of its secret.\<close>

definition stored_as :: "Created \<Rightarrow> key_row \<Rightarrow> bool" where
  "stored_as c r = (key_ID (cr_Key c) = k_id r \<and> key_Scope (cr_Key c) = k_scope r \<and> key_CreatedAt (cr_Key c) = k_created_at r
     \<and> (\<exists>s. cr_Raw c = KeyPrefix @ k_prefix r @ separator # s \<and> k_secret_hash r = HashSecret s
          \<and> ParseKey (cr_Raw c) = Some \<lparr> p_Prefix = k_prefix r, p_Secret = s \<rparr>))"

lemma insert_key_row:
  assumes "insert_key now draw scope name t = Some (Inr (c, t'))"
  shows "\<exists>r. t' = t @ [r] \<and> stored_as c r \<and> k_revoked_at r = None \<and> k_scope r = scope \<and> k_created_at r = now
     \<and> lookup k_id t (k_id r) = None \<and> k_prefix r \<notin> k_prefix ` set t"
proof -
  obtain m where m: "GenerateMaterial (fst draw) = Some m" and f: "lookup k_id t (snd draw) = None" "\<forall>r \<in> set t. k_prefix r \<noteq> m_Prefix m"
    and c: "c = \<lparr> cr_Key = scanKey \<lparr> k_id = snd draw, k_scope = scope, k_name = name, k_prefix = m_Prefix m, k_secret_hash = m_SecretHash m,
          k_created_at = now, k_revoked_at = None \<rparr>, cr_Raw = Material_Raw m \<rparr>"
    and t': "t' = t @ [\<lparr> k_id = snd draw, k_scope = scope, k_name = name, k_prefix = m_Prefix m, k_secret_hash = m_SecretHash m,
          k_created_at = now, k_revoked_at = None \<rparr>]"
    using assms by (auto simp: insert_key_def Let_def list_ex_iff split: option.splits if_splits)
  show ?thesis
    unfolding t' using f GenerateMaterial_parts [OF m]
    by (auto simp: stored_as_def c scanKey_def Material_Raw_def)
qed

lemma create_key_row:
  assumes "create_key now d1 d2 scope name t = Inr (c, t')"
  shows "\<exists>r. t' = t @ [r] \<and> stored_as c r \<and> k_revoked_at r = None \<and> k_scope r = TrimSpace scope \<and> k_created_at r = now
     \<and> lookup k_id t (k_id r) = None \<and> k_prefix r \<notin> k_prefix ` set t"
  using assms insert_key_row [of now d1 "TrimSpace scope" "TrimSpace name" t c t'] insert_key_row [of now d2 "TrimSpace scope" "TrimSpace name" t c t']
  by (auto simp: create_key_def Let_def split: option.splits if_splits)

lemma revoke_key_rows:
  assumes "revoke_key now i t = Inr (res, t')"
  shows "t' = upd_where (\<lambda>r. k_id r = i \<and> k_revoked_at r = None) (\<lambda>r. r\<lparr> k_revoked_at := Some now \<rparr>) t"
proof (cases "find (\<lambda>r. k_id r = i \<and> k_revoked_at r = None) t")
  case None
  then have "upd_where (\<lambda>r. k_id r = i \<and> k_revoked_at r = None) (\<lambda>r. r\<lparr> k_revoked_at := Some now \<rparr>) t = t"
    by (intro upd_where_none) (auto simp: count_where_0_iff find_None_iff)
  then show ?thesis
    using assms None by (auto simp: revoke_key_def split: sum.splits)
next
  case (Some r)
  then show ?thesis
    using assms by (auto simp: revoke_key_def split: if_splits)
qed

lemma table_ok_effect: "table_ok t \<Longrightarrow> table_ok (key_effect t c)"
proof (cases c)
  case (Mint now d1 d2 scope name)
  assume "table_ok t"
  then show ?thesis
    using create_key_row [of now d1 d2 scope name t] Mint
    by (fastforce simp: table_ok_def lookup_None_iff split: sum.splits)
next
  case (Withdraw now i)
  assume "table_ok t"
  moreover have "map k_id (upd_where p (\<lambda>r. r\<lparr> k_revoked_at := Some now \<rparr>) t) = map k_id t"
    "map k_prefix (upd_where p (\<lambda>r. r\<lparr> k_revoked_at := Some now \<rparr>) t) = map k_prefix t" for p
    by (simp_all add: map_key_upd)
  ultimately show ?thesis
    using Withdraw revoke_key_rows [of now i t] by (auto simp: table_ok_def split: sum.splits)
qed

text \<open>What a change does to a row: a valid withdrawal of a live key stamps it, everything else leaves it.\<close>

definition withdraws :: "key_change \<Rightarrow> key_row \<Rightarrow> bool" where
  "withdraws c r = (case c of Withdraw now i \<Rightarrow> i = k_id r \<and> k_created_at r \<le> now | _ \<Rightarrow> False)"

lemma withdraws_iff: "withdraws c r \<longleftrightarrow> (\<exists>now. c = Withdraw now (k_id r) \<and> k_created_at r \<le> now)"
  by (cases c) (auto simp: withdraws_def)

definition same_key :: "key_row \<Rightarrow> key_row \<Rightarrow> bool" where
  "same_key r r' = (r' = r\<lparr> k_revoked_at := k_revoked_at r' \<rparr>)"

lemma find_live:
  assumes "keys_distinct k_id t" and "lookup k_id t i = Some r"
  shows "find (\<lambda>r. k_id r = i \<and> k_revoked_at r = None) t = (if k_revoked_at r = None then Some r else None)"
proof -
  have u: "x = r" if "x \<in> set t" "k_id x = i" for x
    using that lookup_in_set [OF assms(1)] assms(2) by simp
  have r: "r \<in> set t" "k_id r = i"
    using lookup_SomeD [OF assms(2)] by simp_all
  show ?thesis
  proof (cases "find (\<lambda>r. k_id r = i \<and> k_revoked_at r = None) t")
    case None
    then show ?thesis
      using r by (auto simp: find_None_iff)
  next
    case (Some x)
    then have "x \<in> set t" "k_id x = i" "k_revoked_at x = None"
      by (auto simp: find_Some_iff)
    then show ?thesis
      using Some u [of x] by simp
  qed
qed

lemma row_effect:
  assumes "table_ok t" and r: "lookup k_id t i = Some r"
  shows "\<exists>r'. lookup k_id (key_effect t c) i = Some r' \<and> same_key r r'
     \<and> (k_revoked_at r' \<noteq> None \<longleftrightarrow> k_revoked_at r \<noteq> None \<or> withdraws c r)"
proof (cases c)
  case (Mint now d1 d2 scope name)
  have "lookup k_id (key_effect t c) i = Some r"
    using create_key_row [of now d1 d2 scope name t] Mint r by (fastforce simp: lookup_append split: sum.splits)
  then show ?thesis
    by (simp add: same_key_def withdraws_def Mint)
next
  case (Withdraw now j)
  show ?thesis
  proof (cases "revoke_key now j t")
    case (Inl e)
    have "j = i \<Longrightarrow> k_revoked_at r \<noteq> None \<or> now < k_created_at r"
      using Inl r find_live [OF _ r] assms(1) by (auto simp: revoke_key_def get_key_def table_ok_def split: if_splits)
    then show ?thesis
      using Inl Withdraw r lookup_key [OF r] by (auto simp: same_key_def withdraws_def)
  next
    case (Inr x)
    have "lookup k_id (key_effect t c) i = Some (if k_id r = j \<and> k_revoked_at r = None then r\<lparr> k_revoked_at := Some now \<rparr> else r)"
      using Withdraw Inr revoke_key_rows [of now j t "fst x" "snd x"] r by (simp add: lookup_upd case_prod_unfold)
    moreover have "k_id r = j \<Longrightarrow> k_revoked_at r = None \<Longrightarrow> k_created_at r \<le> now"
      using Inr r lookup_key [OF r] find_live [OF _ r] assms(1) by (auto simp: revoke_key_def table_ok_def split: if_splits)
    ultimately show ?thesis
      using Withdraw by (auto simp: same_key_def withdraws_def)
  qed
qed

lemma same_key_simps:
  assumes "same_key r r'"
  shows "k_id r' = k_id r" "k_scope r' = k_scope r" "k_prefix r' = k_prefix r" "k_secret_hash r' = k_secret_hash r"
    "k_created_at r' = k_created_at r" "withdraws c r' = withdraws c r" "stored_as x r' = stored_as x r"
proof -
  have e: "r' = r\<lparr> k_revoked_at := k_revoked_at r' \<rparr>"
    using assms by (simp add: same_key_def)
  show f: "k_id r' = k_id r" "k_scope r' = k_scope r" "k_prefix r' = k_prefix r" "k_secret_hash r' = k_secret_hash r"
    "k_created_at r' = k_created_at r"
    by (subst e, simp)+
  show "withdraws c r' = withdraws c r" "stored_as x r' = stored_as x r"
    by (simp_all add: withdraws_def stored_as_def f split: key_change.split)
qed

lemma find_prefix:
  assumes "table_ok t" and "k \<in> set t"
  shows "find (\<lambda>r. k_prefix r = k_prefix k) t = Some k"
  using assms lookup_in_set [of k_prefix t k] by (simp add: table_ok_def lookup_def)

lemma authenticate_stored:
  assumes "table_ok t" and "lookup k_id t i = Some k" and "stored_as c k"
  shows "authenticate_key (cr_Raw c) t = (if k_revoked_at k \<noteq> None then Inl KeyUnauthorized
     else Inr \<lparr> pr_KeyID = key_ID (cr_Key c), pr_Scope = key_Scope (cr_Key c) \<rparr>)"
proof -
  have f: "find (\<lambda>r. k_prefix r = k_prefix k) t = Some k"
    using find_prefix [OF assms(1)] lookup_SomeD [OF assms(2)] by blast
  show ?thesis
    using assms(3) f by (auto simp: stored_as_def authenticate_key_def VerifySecret_def)
qed

definition secret_of :: "string \<Rightarrow> string" where
  "secret_of raw = drop (length KeyPrefix + LookupLen + 1) raw"

definition secrets_collide :: "string \<Rightarrow> string \<Rightarrow> bool" where
  "secrets_collide raw raw' = (secret_of raw \<noteq> secret_of raw' \<and> sha256 (secret_of raw) = sha256 (secret_of raw'))"

lemma ParseKey_secret: "ParseKey raw = Some p \<Longrightarrow> secret_of raw = p_Secret p"
  by (auto simp: ParseKey_def secret_of_def dest!: strings_Cut_SomeD split: if_splits option.splits)
    (metis (no_types, lifting) add.commute append_Cons append_Nil append_eq_conv_conj drop_append drop_drop length_Cons length_append
      list.size(3) plus_1_eq_Suc)

lemma authenticated_row:
  assumes "authenticate_key raw t = Inr p"
  shows "\<exists>k \<in> set t. k_id k = pr_KeyID p \<and> k_scope k = pr_Scope p \<and> k_revoked_at k = None
     \<and> (\<forall>c. stored_as c k \<longrightarrow> raw = cr_Raw c \<or> secrets_collide raw (cr_Raw c))"
proof -
  obtain q k where q: "ParseKey raw = Some q" and k: "find (\<lambda>r. k_prefix r = p_Prefix q) t = Some k"
    and v: "VerifySecret (k_secret_hash k) (p_Secret q)" "k_revoked_at k = None" "p = \<lparr> pr_KeyID = k_id k, pr_Scope = k_scope k \<rparr>"
    using assms by (auto simp: authenticate_key_def split: option.splits if_splits)
  have k': "k \<in> set t" "k_prefix k = p_Prefix q"
    using k by (auto simp: find_Some_iff)
  have "raw = cr_Raw c \<or> secrets_collide raw (cr_Raw c)" if c: "stored_as c k" for c
  proof -
    obtain s where s: "cr_Raw c = KeyPrefix @ k_prefix k @ separator # s" "k_secret_hash k = HashSecret s"
      "ParseKey (cr_Raw c) = Some \<lparr> p_Prefix = k_prefix k, p_Secret = s \<rparr>"
      using c by (auto simp: stored_as_def)
    have "sha256 s = sha256 (p_Secret q)"
      using v(1) s(2) by (simp add: VerifySecret_def Let_def HashSecret_def EncodeToString_inject)
    moreover have "secret_of raw = p_Secret q" "secret_of (cr_Raw c) = s"
      using ParseKey_secret [OF q] ParseKey_secret [OF s(3)] by simp_all
    moreover have "p_Secret q = s \<Longrightarrow> raw = cr_Raw c"
      using ParseKey_SomeD [OF q] s(1) k'(2) by simp
    ultimately show ?thesis
      by (auto simp: secrets_collide_def)
  qed
  then show ?thesis
    using k' v(2,3) by auto
qed

section \<open>Key stores\<close>

text \<open>
  The interface of a key store: requests change its table by minting or withdrawing a key, or not at
  all, and answer a minted key with its credential.
\<close>

fun issued_along :: "('s \<Rightarrow> 'r \<Rightarrow> 's) \<Rightarrow> ('s \<Rightarrow> 'r \<Rightarrow> Created list) \<Rightarrow> 's \<Rightarrow> 'r list \<Rightarrow> Created list" where
  "issued_along exec answer s [] = []"
| "issued_along exec answer s (r # rs) = answer s r @ issued_along exec answer (exec s r) rs"

locale key_store =
  fixes exec :: "'s \<Rightarrow> 'r \<Rightarrow> 's"
    and answer :: "'s \<Rightarrow> 'r \<Rightarrow> Created list"
    and tab :: "'s \<Rightarrow> key_row list"
    and change :: "'r \<Rightarrow> key_change option"
  assumes tab_exec: "tab (exec s r) = (case change r of None \<Rightarrow> tab s | Some c \<Rightarrow> key_effect (tab s) c)"
    and answer_exec: "answer s r = (case change r of None \<Rightarrow> [] | Some c \<Rightarrow> key_answer (tab s) c)"
begin

lemma tab_ok_run: "table_ok (tab s) \<Longrightarrow> table_ok (tab (foldl exec s rs))"
proof (induction rs arbitrary: s)
  case (Cons r rs)
  have "table_ok (tab (exec s r))"
    using table_ok_effect [OF Cons.prems] Cons.prems by (simp add: tab_exec split: option.split)
  then show ?case
    using Cons.IH by simp
qed simp

text \<open>A row keeps its key, and is revoked exactly when a request withdrew it.\<close>

lemma row_run:
  assumes "table_ok (tab s)" and "lookup k_id (tab s) i = Some k"
  shows "\<exists>k'. lookup k_id (tab (foldl exec s rs)) i = Some k' \<and> same_key k k'
     \<and> (k_revoked_at k' \<noteq> None \<longleftrightarrow> k_revoked_at k \<noteq> None \<or> (\<exists>r \<in> set rs. \<exists>c. change r = Some c \<and> withdraws c k))"
  using assms
proof (induction rs arbitrary: s k)
  case Nil
  then show ?case
    by (simp add: same_key_def)
next
  case (Cons r rs)
  have ok: "table_ok (tab (exec s r))"
    using tab_ok_run [OF Cons.prems(1), of "[r]"] by simp
  obtain k1 where k1: "lookup k_id (tab (exec s r)) i = Some k1" "same_key k k1"
    "k_revoked_at k1 \<noteq> None \<longleftrightarrow> k_revoked_at k \<noteq> None \<or> (\<exists>c. change r = Some c \<and> withdraws c k)"
  proof (cases "change r")
    case None
    then show thesis
      using that [of k] Cons.prems(2) by (simp add: tab_exec same_key_def)
  next
    case (Some c)
    then show thesis
      using that row_effect [OF Cons.prems, of c] by (auto simp: tab_exec)
  qed
  obtain k2 where k2: "lookup k_id (tab (foldl exec (exec s r) rs)) i = Some k2" "same_key k1 k2"
    "k_revoked_at k2 \<noteq> None \<longleftrightarrow> k_revoked_at k1 \<noteq> None \<or> (\<exists>r \<in> set rs. \<exists>c. change r = Some c \<and> withdraws c k1)"
    using Cons.IH [OF ok k1(1)] by blast
  have "same_key k k2"
    using k1(2) k2(2) by (simp add: same_key_def) (metis key_row.update_convs(7) key_row.surjective key_row.simps(7))
  then show ?case
    using k1 k2 same_key_simps(6) [OF k1(2)] by auto
qed

text \<open>A minted key authenticates until it is withdrawn.\<close>

lemma lifetime:
  assumes ok: "table_ok (tab s)" and "change r = Some (Mint now d1 d2 scope name)" and "create_key now d1 d2 scope name (tab s) = Inr (c, t')"
  shows "authenticate_key (cr_Raw c) (tab (foldl exec (exec s r) rs)) =
     (if \<exists>q \<in> set rs. \<exists>t. change q = Some (Withdraw t (key_ID (cr_Key c))) \<and> now \<le> t then Inl KeyUnauthorized
      else Inr \<lparr> pr_KeyID = key_ID (cr_Key c), pr_Scope = TrimSpace scope \<rparr>)"
proof -
  obtain k where k: "t' = tab s @ [k]" "stored_as c k" "k_revoked_at k = None" "k_scope k = TrimSpace scope" "k_created_at k = now"
    "lookup k_id (tab s) (k_id k) = None"
    using create_key_row [OF assms(3)] by blast
  have t: "tab (exec s r) = t'"
    using assms(2,3) by (simp add: tab_exec)
  have ok1: "table_ok (tab (exec s r))"
    using tab_ok_run [OF ok, of "[r]"] by simp
  have l: "lookup k_id (tab (exec s r)) (k_id k) = Some k"
    using k(6) by (simp add: t k(1) lookup_insert)
  obtain k' where k': "lookup k_id (tab (foldl exec (exec s r) rs)) (k_id k) = Some k'" "same_key k k'"
    "k_revoked_at k' \<noteq> None \<longleftrightarrow> (\<exists>q \<in> set rs. \<exists>c. change q = Some c \<and> withdraws c k)"
    using row_run [OF ok1 l, of rs] k(3) by auto
  have i: "key_ID (cr_Key c) = k_id k" "key_Scope (cr_Key c) = k_scope k"
    using k(2) by (simp_all add: stored_as_def)
  have w: "(\<exists>c. change q = Some c \<and> withdraws c k) \<longleftrightarrow> (\<exists>t. change q = Some (Withdraw t (k_id k)) \<and> now \<le> t)" for q
    using k(5) by (auto simp: withdraws_iff)
  have st: "stored_as c k'"
    using k(2) same_key_simps(7) [OF k'(2)] by simp
  show ?thesis
    unfolding authenticate_stored [OF tab_ok_run [OF ok1] k'(1) st] k'(3) w i k(4) ..
qed

text \<open>Every stored key was issued, so what authenticates was issued.\<close>

lemma stored_issued:
  assumes "\<And>k. k \<in> set (tab s) \<Longrightarrow> \<exists>c \<in> C. stored_as c k"
  shows "k \<in> set (tab (foldl exec s rs)) \<Longrightarrow> \<exists>c \<in> C \<union> set (issued_along exec answer s rs). stored_as c k"
  using assms
proof (induction rs arbitrary: s C)
  case (Cons r rs)
  have step: "\<exists>c \<in> C \<union> set (answer s r). stored_as c k" if k: "k \<in> set (tab (exec s r))" for k
  proof (cases "change r")
    case None
    then show ?thesis
      using k Cons.prems(2) by (auto simp: tab_exec)
  next
    case (Some ch)
    show ?thesis
    proof (cases ch)
      case (Mint now d1 d2 scope name)
      then show ?thesis
        using k Some Cons.prems(2) create_key_row [of now d1 d2 scope name "tab s"]
        by (fastforce simp: tab_exec answer_exec split: sum.splits)
    next
      case (Withdraw now i)
      obtain k0 where "k0 \<in> set (tab s)" "same_key k0 k"
        using k Some Withdraw revoke_key_rows [of now i "tab s"] by (auto simp: tab_exec set_upd same_key_def split: sum.splits if_splits)
      then show ?thesis
        using Cons.prems(2) same_key_simps(7) [of k0 k] by blast
    qed
  qed
  show ?case
    using Cons.IH [OF _ step] Cons.prems(1) by auto
qed auto

lemma authentic:
  assumes "tab s = []" and "authenticate_key raw (tab (foldl exec s rs)) = Inr p"
  shows "\<exists>c \<in> set (issued_along exec answer s rs). key_ID (cr_Key c) = pr_KeyID p \<and> key_Scope (cr_Key c) = pr_Scope p
     \<and> (raw = cr_Raw c \<or> secrets_collide raw (cr_Raw c))"
proof -
  obtain k where k: "k \<in> set (tab (foldl exec s rs))" "k_id k = pr_KeyID p" "k_scope k = pr_Scope p"
    "\<forall>c. stored_as c k \<longrightarrow> raw = cr_Raw c \<or> secrets_collide raw (cr_Raw c)"
    using authenticated_row [OF assms(2)] by blast
  obtain c where c: "c \<in> set (issued_along exec answer s rs)" "stored_as c k"
    using stored_issued [of s "{}", OF _ k(1)] assms(1) by auto
  then show ?thesis
    using k by (auto simp: stored_as_def)
qed

end

section \<open>API keys and worker keys\<close>

fun api_change :: "key_request \<Rightarrow> key_change option" where
  "api_change (ApiCreate now d1 d2 scope name) = Some (Mint now d1 d2 scope name)"
| "api_change (ApiRevoke now i) = Some (Withdraw now i)"
| "api_change _ = None"

fun worker_change :: "key_request \<Rightarrow> key_change option" where
  "worker_change (WorkerCreate now d1 d2 scope name) = Some (Mint now d1 d2 scope name)"
| "worker_change (WorkerRevoke now i) = Some (Withdraw now i)"
| "worker_change _ = None"

definition answered :: "key_error + (Created \<times> key_db) \<Rightarrow> Created list" where
  "answered r = (case r of Inl _ \<Rightarrow> [] | Inr (c, _) \<Rightarrow> [c])"

fun api_answer :: "key_db \<Rightarrow> key_request \<Rightarrow> Created list" where
  "api_answer d (ApiCreate now d1 d2 scope name) = answered (auth_Create now d1 d2 scope name d)"
| "api_answer d _ = []"

fun worker_answer :: "key_db \<Rightarrow> key_request \<Rightarrow> Created list" where
  "worker_answer d (WorkerCreate now d1 d2 scope name) = answered (workerauth_Create now d1 d2 scope name d)"
| "worker_answer d _ = []"

lemmas key_store_defs = key_commit_def answered_def auth_Create_def auth_Revoke_def workerauth_Create_def workerauth_Revoke_def

interpretation api: key_store key_exec api_answer api_keys api_change
proof unfold_locales
  show "api_keys (key_exec s r) = (case api_change r of None \<Rightarrow> api_keys s | Some c \<Rightarrow> key_effect (api_keys s) c)" for s r
    by (cases r) (auto simp: key_store_defs split: sum.splits)
  show "api_answer s r = (case api_change r of None \<Rightarrow> [] | Some c \<Rightarrow> key_answer (api_keys s) c)" for s r
    by (cases r) (auto simp: key_store_defs split: sum.splits)
qed

interpretation worker: key_store key_exec worker_answer worker_keys worker_change
proof unfold_locales
  show "worker_keys (key_exec s r) = (case worker_change r of None \<Rightarrow> worker_keys s | Some c \<Rightarrow> key_effect (worker_keys s) c)" for s r
    by (cases r) (auto simp: key_store_defs split: sum.splits)
  show "worker_answer s r = (case worker_change r of None \<Rightarrow> [] | Some c \<Rightarrow> key_answer (worker_keys s) c)" for s r
    by (cases r) (auto simp: key_store_defs split: sum.splits)
qed

definition no_keys :: key_db where
  "no_keys = \<lparr> api_keys = [], worker_keys = [] \<rparr>"

lemma table_ok_Nil: "table_ok []"
  by (simp add: table_ok_def)

lemma api_change_Withdraw: "api_change q = Some (Withdraw t i) \<longleftrightarrow> q = ApiRevoke t i"
  by (cases q) auto

lemma worker_change_Withdraw: "worker_change q = Some (Withdraw t i) \<longleftrightarrow> q = WorkerRevoke t i"
  by (cases q) auto

text \<open>The shape check does not see line breaks: the decoder skips them, so a segment may hold characters outside the alphabet.\<close>

lemma ParseKey_line_breaks:
  "ParseKey (KeyPrefix @ replicate 20 (CHR ''A'') @ [chr 13, chr 10] @ separator # replicate 43 (CHR ''A'')) \<noteq> None"
  by code_simp

section \<open>Properties\<close>

text \<open>A first key of each kind.\<close>

definition draw0 :: "entropy \<times> uuid" where
  "draw0 = (Some (replicate 16 (CHR ''a''), replicate 32 (CHR ''b'')), 7)"

lemma create0: "\<exists>c t. create_key 1 draw0 draw0 ''s'' ''n'' [] = Inr (c, t) \<and> key_ID (cr_Key c) = 7"
proof -
  have "validateKeyRequest (TrimSpace ''s'') (TrimSpace ''n'') = []" "storable_text (TrimSpace ''s'')" "storable_text (TrimSpace ''n'')"
    by code_simp+
  then show ?thesis
    by (simp add: create_key_def insert_key_def GenerateMaterial_def draw0_def Let_def LookupBytes_def SecretBytes_def scanKey_def)
qed

text \<open>C35: A credential works from the moment it is minted until it is revoked, and never again. After any history of key
requests, a key that \<^verbatim>\<open>Create\<close> returned authenticates, at every later time and whatever other keys were minted or revoked, as
its own identity and the scope it was created for; once a revocation of its identity has committed, it is refused for ever. This
holds for API keys and, in the same way, for worker keys.\<close>

theorem credential_lifetime:
  "(auth_Create now d1 d2 scope name (key_run hs no_keys) = Inr (c, d') \<longrightarrow>
     auth_Authenticate (cr_Raw c) (key_run rs d') =
       (if \<exists>t. ApiRevoke t (key_ID (cr_Key c)) \<in> set rs \<and> now \<le> t then Inl KeyUnauthorized
        else Inr \<lparr> pr_KeyID = key_ID (cr_Key c), pr_Scope = TrimSpace scope \<rparr>))
   \<and> (workerauth_Create now d1 d2 scope name (key_run hs no_keys) = Inr (c, d') \<longrightarrow>
     workerauth_Authenticate (cr_Raw c) (key_run rs d') =
       (if \<exists>t. WorkerRevoke t (key_ID (cr_Key c)) \<in> set rs \<and> now \<le> t then Inl KeyUnauthorized
        else Inr \<lparr> pr_KeyID = key_ID (cr_Key c), pr_Scope = TrimSpace scope \<rparr>))"
proof (intro conjI impI)
  let ?s = "key_run hs no_keys"
  have ok: "table_ok (api_keys ?s)" "table_ok (worker_keys ?s)"
    unfolding key_run_def by (rule api.tab_ok_run worker.tab_ok_run, simp add: no_keys_def table_ok_Nil)+
  {
    assume a: "auth_Create now d1 d2 scope name ?s = Inr (c, d')"
    then have d': "key_exec ?s (ApiCreate now d1 d2 scope name) = d'"
      by (simp add: key_commit_def)
    obtain t' where "create_key now d1 d2 scope name (api_keys ?s) = Inr (c, t')"
      using a by (auto simp: auth_Create_def split: sum.splits)
    from api.lifetime [OF ok(1) _ this, of "ApiCreate now d1 d2 scope name" rs]
    show "auth_Authenticate (cr_Raw c) (key_run rs d') =
       (if \<exists>t. ApiRevoke t (key_ID (cr_Key c)) \<in> set rs \<and> now \<le> t then Inl KeyUnauthorized
        else Inr \<lparr> pr_KeyID = key_ID (cr_Key c), pr_Scope = TrimSpace scope \<rparr>)"
      unfolding d' api_change_Withdraw key_run_def [symmetric] auth_Authenticate_def by auto
  next
    assume a: "workerauth_Create now d1 d2 scope name ?s = Inr (c, d')"
    then have d': "key_exec ?s (WorkerCreate now d1 d2 scope name) = d'"
      by (simp add: key_commit_def)
    obtain t' where "create_key now d1 d2 scope name (worker_keys ?s) = Inr (c, t')"
      using a by (auto simp: workerauth_Create_def split: sum.splits)
    from worker.lifetime [OF ok(2) _ this, of "WorkerCreate now d1 d2 scope name" rs]
    show "workerauth_Authenticate (cr_Raw c) (key_run rs d') =
       (if \<exists>t. WorkerRevoke t (key_ID (cr_Key c)) \<in> set rs \<and> now \<le> t then Inl KeyUnauthorized
        else Inr \<lparr> pr_KeyID = key_ID (cr_Key c), pr_Scope = TrimSpace scope \<rparr>)"
      unfolding d' worker_change_Withdraw key_run_def [symmetric] workerauth_Authenticate_def by auto
  }
qed

theorem credential_lifetime_witness:
  "\<exists>c d'. auth_Create 1 draw0 draw0 ''s'' ''n'' no_keys = Inr (c, d')
     \<and> auth_Authenticate (cr_Raw c) (key_run [ApiRevoke 3 9, WorkerRevoke 3 7] d') = Inr \<lparr> pr_KeyID = 7, pr_Scope = ''s'' \<rparr>
     \<and> auth_Authenticate (cr_Raw c) (key_run [ApiRevoke 3 9, ApiRevoke 3 7] d') = Inl KeyUnauthorized"
proof -
  obtain c d' where c: "auth_Create 1 draw0 draw0 ''s'' ''n'' no_keys = Inr (c, d')" "key_ID (cr_Key c) = 7"
    using create0 by (auto simp: auth_Create_def no_keys_def)
  have "TrimSpace ''s'' = ''s''"
    by code_simp
  then show ?thesis
    using c credential_lifetime [of 1 draw0 draw0 "''s''" "''n''" "[]" c d' "[ApiRevoke 3 9, WorkerRevoke 3 7]"]
      credential_lifetime [of 1 draw0 draw0 "''s''" "''n''" "[]" c d' "[ApiRevoke 3 9, ApiRevoke 3 7]"]
    by (intro exI [of _ c] exI [of _ d']) (simp add: key_run_def)
qed

text \<open>C36: Only issued credentials authenticate. After any history of key requests that starts with empty tables, a credential
that authenticates, as an API key or as a worker key, is one that a creation in that history returned, with the identity and the
scope it was returned with, unless its secret and the secret of an issued key are a collision of SHA-256. In particular a worker
key never authenticates as an API key, nor the reverse.\<close>

theorem authenticated_was_issued:
  "(auth_Authenticate raw (key_run rs no_keys) = Inr p \<longrightarrow>
     (\<exists>c \<in> set (issued_along key_exec api_answer no_keys rs). key_ID (cr_Key c) = pr_KeyID p \<and> key_Scope (cr_Key c) = pr_Scope p
        \<and> (raw = cr_Raw c \<or> secrets_collide raw (cr_Raw c))))
   \<and> (workerauth_Authenticate raw (key_run rs no_keys) = Inr p \<longrightarrow>
     (\<exists>c \<in> set (issued_along key_exec worker_answer no_keys rs). key_ID (cr_Key c) = pr_KeyID p \<and> key_Scope (cr_Key c) = pr_Scope p
        \<and> (raw = cr_Raw c \<or> secrets_collide raw (cr_Raw c))))"
  using api.authentic [of no_keys raw rs p] worker.authentic [of no_keys raw rs p]
  by (simp add: auth_Authenticate_def workerauth_Authenticate_def key_run_def no_keys_def)

theorem authenticated_was_issued_witness:
  "\<exists>raw p. workerauth_Authenticate raw (key_run [WorkerCreate 1 draw0 draw0 ''s'' ''n''] no_keys) = Inr p \<and> pr_KeyID p = 7
     \<and> (\<exists>c \<in> set (issued_along key_exec worker_answer no_keys [WorkerCreate 1 draw0 draw0 ''s'' ''n'']). key_ID (cr_Key c) = 7)"
proof -
  let ?r = "WorkerCreate 1 draw0 draw0 ''s'' ''n''"
  obtain c t where c: "create_key 1 draw0 draw0 ''s'' ''n'' (worker_keys no_keys) = Inr (c, t)" "key_ID (cr_Key c) = 7"
    using create0 by (auto simp: no_keys_def)
  have ok: "table_ok (worker_keys no_keys)"
    by (simp add: no_keys_def table_ok_Nil)
  let ?p = "\<lparr> pr_KeyID = 7, pr_Scope = TrimSpace ''s'' \<rparr>"
  have a: "workerauth_Authenticate (cr_Raw c) (key_run [?r] no_keys) = Inr ?p"
    using worker.lifetime [OF ok _ c(1), of ?r "[]"] c(2) by (simp add: workerauth_Authenticate_def key_run_def)
  have "\<exists>c \<in> set (issued_along key_exec worker_answer no_keys [?r]). key_ID (cr_Key c) = 7"
    using authenticated_was_issued [of "cr_Raw c" "[?r]" ?p, THEN conjunct2, rule_format, OF a] by auto
  then show ?thesis
    using a by (intro exI [of _ "cr_Raw c"] exI [of _ ?p]) simp
qed

end
