(* ===== verification/Listing.thy ===== *)
theory Listing
  imports Submission Credentials Sessions
begin

text \<open>
  The operator read model (\<^verbatim>\<open>internal/jobs/list.go\<close>, \<^verbatim>\<open>internal/jobs/dlq.go\<close>, \<^verbatim>\<open>internal/workers/list.go\<close>):
  cursors, the bounds of a page, and the listings of jobs, attempts, queues, dead-letter entries and
  workers. Each listing is one statement, so a function of one database. The text form of a UUID is
  that of \<^verbatim>\<open>github.com/google/uuid\<close> and a parameter, as is the collation by which PostgreSQL
  orders text columns; instants of the database are microseconds and those of Go nanoseconds.
\<close>

section \<open>Statuses\<close>

fun Status_String :: "Status \<Rightarrow> string" where
  "Status_String StatusPending = ''PENDING''"
| "Status_String StatusQueued = ''QUEUED''"
| "Status_String StatusLeased = ''LEASED''"
| "Status_String StatusRunning = ''RUNNING''"
| "Status_String StatusRetryWait = ''RETRY_WAIT''"
| "Status_String StatusCancelRequested = ''CANCEL_REQUESTED''"
| "Status_String StatusSucceeded = ''SUCCEEDED''"
| "Status_String StatusCanceled = ''CANCELED''"
| "Status_String StatusDeadLettered = ''DEAD_LETTERED''"

definition AllStatuses :: "Status list" where
  "AllStatuses = [StatusPending, StatusQueued, StatusLeased, StatusRunning, StatusRetryWait,
     StatusCancelRequested, StatusSucceeded, StatusCanceled, StatusDeadLettered]"

definition Status_Valid :: "string \<Rightarrow> bool" where
  "Status_Valid s = list_ex (\<lambda>known. s = Status_String known) AllStatuses"

definition NonTerminalStatuses :: "Status list" where
  "NonTerminalStatuses = filter (\<lambda>s. \<not> Terminal s) AllStatuses"

section \<open>Cursors\<close>

text \<open>\<^verbatim>\<open>base64.RawURLEncoding.DecodeString\<close>, which skips line breaks and ignores trailing bits.\<close>

definition b64_value :: "char \<Rightarrow> nat" where
  "b64_value c = (let n = byte c in if 97 \<le> n then (if n \<le> 122 then n - 71 else 0) else if 65 \<le> n then (if n \<le> 90 then n - 65 else 63)
     else if 48 \<le> n then n + 4 else 62)"

fun b64_groups :: "nat list \<Rightarrow> string" where
  "b64_groups (p # q # r # s # rest) =
     chr (p * 4 + q div 16) # chr (q mod 16 * 16 + r div 4) # chr (r mod 4 * 64 + s) # b64_groups rest"
| "b64_groups [p, q, r] = [chr (p * 4 + q div 16), chr (q mod 16 * 16 + r div 4)]"
| "b64_groups [p, q] = [chr (p * 4 + q div 16)]"
| "b64_groups _ = []"

definition b64_decode :: "string \<Rightarrow> string option" where
  "b64_decode s = (if \<not> decodeSegment s then None
     else Some (b64_groups (map b64_value (filter (\<lambda>c. byte c \<noteq> 10 \<and> byte c \<noteq> 13) s))))"

datatype list_error = InvalidCursor | InvalidJobFilter string | NoSuchJob

record uuid_text =
  u_String :: "uuid \<Rightarrow> string"
  u_Parse :: "string \<Rightarrow> uuid option"

definition EncodeJobCursor :: "uuid_text \<Rightarrow> int \<Rightarrow> uuid \<Rightarrow> string" where
  "EncodeJobCursor U createdAt i = b64_encode (format_rfc3339nano createdAt @ ''|'' @ u_String U i)"

definition decodeJobCursor :: "uuid_text \<Rightarrow> string \<Rightarrow> list_error + (int \<times> uuid)" where
  "decodeJobCursor U cursor = (case b64_decode cursor of
     None \<Rightarrow> Inl InvalidCursor
   | Some raw \<Rightarrow> (case strings_Cut raw (CHR ''|'') of
       None \<Rightarrow> Inl InvalidCursor
     | Some (stamp, rest) \<Rightarrow> (case parse_rfc3339 stamp of
         None \<Rightarrow> Inl InvalidCursor
       | Some createdAt \<Rightarrow> (case u_Parse U rest of
           None \<Rightarrow> Inl InvalidCursor
         | Some i \<Rightarrow> Inr (createdAt, i)))))"

definition EncodeDLQCursor :: "uuid_text \<Rightarrow> int \<Rightarrow> uuid \<Rightarrow> string" where
  "EncodeDLQCursor U createdAt i = b64_encode (format_rfc3339nano createdAt @ ''|'' @ u_String U i)"

definition decodeDLQCursor :: "uuid_text \<Rightarrow> string \<Rightarrow> list_error + (int \<times> uuid)" where
  "decodeDLQCursor U cursor = (case b64_decode cursor of
     None \<Rightarrow> Inl InvalidCursor
   | Some raw \<Rightarrow> (case strings_Cut raw (CHR ''|'') of
       None \<Rightarrow> Inl InvalidCursor
     | Some (stamp, rest) \<Rightarrow> (case parse_rfc3339 stamp of
         None \<Rightarrow> Inl InvalidCursor
       | Some createdAt \<Rightarrow> (case u_Parse U rest of
           None \<Rightarrow> Inl InvalidCursor
         | Some i \<Rightarrow> Inr (createdAt, i)))))"

definition EncodeWorkerCursor :: "string \<Rightarrow> string" where
  "EncodeWorkerCursor name = b64_encode name"

definition decodeWorkerCursor :: "string \<Rightarrow> list_error + string" where
  "decodeWorkerCursor cursor = (case b64_decode cursor of
     None \<Rightarrow> Inl InvalidCursor
   | Some name \<Rightarrow> if \<not> workerNamePattern name then Inl InvalidCursor else Inr name)"

section \<open>Pages\<close>

definition DefaultPageSize :: int where "DefaultPageSize = 25"
definition MaxPageSize :: int where "MaxPageSize = 100"

definition boundPage :: "int \<Rightarrow> int" where
  "boundPage limit = (if limit \<le> 0 then DefaultPageSize else if limit > MaxPageSize then MaxPageSize else limit)"

record 'a page =
  Items :: "'a list"
  NextCursor :: string

text \<open>
  One keyset page: the rows after the position, in order and at most one more than the limit, of which
  the last only tells that another page exists.
\<close>

definition beyond :: "'k::linorder option \<Rightarrow> 'k \<Rightarrow> bool" where
  "beyond after k = (case after of None \<Rightarrow> True | Some a \<Rightarrow> a < k)"

definition keyset_page :: "('r \<Rightarrow> bool) \<Rightarrow> ('r \<Rightarrow> 'k::linorder) \<Rightarrow> ('r \<Rightarrow> string) \<Rightarrow> 'k option \<Rightarrow> nat \<Rightarrow> 'r list \<Rightarrow> 'r list \<times> string" where
  "keyset_page p key encode after limit t =
     (let rows = select_ordered (\<lambda>r. p r \<and> beyond after (key r)) key (limit + 1) t
      in if length rows > limit then (take limit rows, encode (rows ! (limit - 1))) else (rows, ''''))"

section \<open>Jobs\<close>

record JobSummary =
  js_ID :: uuid
  js_Queue :: string
  js_Type :: string
  js_Status :: Status
  js_Priority :: int
  js_MaxAttempts :: int
  js_TimeoutSeconds :: int
  js_RequiredCapabilities :: "string list"
  js_ScheduledAt :: "ts option"
  js_AvailableAt :: ts
  js_CancelRequestedAt :: "ts option"
  js_ReplayedFromJobID :: "uuid option"
  js_CreatedAt :: ts
  js_UpdatedAt :: ts

record JobFilter =
  jf_Status :: string
  jf_Queue :: string

definition JobFilter_Validate :: "JobFilter \<Rightarrow> list_error option" where
  "JobFilter_Validate f =
     (if jf_Status f \<noteq> '''' \<and> \<not> Status_Valid (jf_Status f) then Some (InvalidJobFilter ''status'')
      else if jf_Queue f \<noteq> '''' \<and> \<not> queueNamePattern (jf_Queue f) then Some (InvalidJobFilter ''queue'')
      else None)"

definition job_summary :: "job_row \<Rightarrow> JobSummary" where
  "job_summary j = \<lparr> js_ID = j_id j, js_Queue = j_queue j, js_Type = j_job_type j, js_Status = j_status j,
     js_Priority = j_priority j, js_MaxAttempts = j_max_attempts j, js_TimeoutSeconds = j_timeout_seconds j,
     js_RequiredCapabilities = j_required_capabilities j, js_ScheduledAt = j_scheduled_at j,
     js_AvailableAt = j_available_at j, js_CancelRequestedAt = j_cancel_requested_at j,
     js_ReplayedFromJobID = j_replayed_from j, js_CreatedAt = j_created_at j, js_UpdatedAt = j_updated_at j \<rparr>"

definition job_matches :: "string \<Rightarrow> JobFilter \<Rightarrow> job_row \<Rightarrow> bool" where
  "job_matches scope f j = (j_scope j = scope
     \<and> (jf_Status f = '''' \<or> Status_String (j_status j) = jf_Status f)
     \<and> (jf_Queue f = '''' \<or> j_queue j = jf_Queue f))"

text \<open>The order \<^verbatim>\<open>created_at DESC, id DESC\<close>, as an ascending key.\<close>

definition newest_first :: "ts \<Rightarrow> uuid \<Rightarrow> int \<times> int" where
  "newest_first t i = (- t, - int i)"

definition job_key :: "job_row \<Rightarrow> int \<times> int" where
  "job_key j = newest_first (j_created_at j) (j_id j)"

text \<open>A Go instant bound to a \<^verbatim>\<open>timestamptz\<close> parameter loses what is below a microsecond.\<close>

definition cursor_key :: "int \<times> uuid \<Rightarrow> int \<times> int" where
  "cursor_key c = newest_first (fst c div 1000) (snd c)"

definition ListJobs :: "uuid_text \<Rightarrow> string \<Rightarrow> JobFilter \<Rightarrow> string \<Rightarrow> int \<Rightarrow> db \<Rightarrow> list_error + JobSummary page" where
  "ListJobs U scope f cursor limit0 d = (case JobFilter_Validate f of
     Some e \<Rightarrow> Inl e
   | None \<Rightarrow> let limit = boundPage limit0;
         read = (\<lambda>after. case keyset_page (job_matches scope f) job_key (\<lambda>j. EncodeJobCursor U (j_created_at j * 1000) (j_id j))
                     after (nat limit) (db_jobs d)
                   of (rows, next) \<Rightarrow> Inr \<lparr> Items = map job_summary rows, NextCursor = next \<rparr>)
       in if cursor = '''' then read None
          else case decodeJobCursor U cursor of Inl e \<Rightarrow> Inl e | Inr c \<Rightarrow> read (Some (cursor_key c)))"

section \<open>The attempts of a job\<close>

record Attempt =
  at_ID :: uuid
  at_AttemptNumber :: int
  at_Status :: AttemptStatus
  at_WorkerID :: uuid
  at_WorkerName :: string
  at_CreatedAt :: ts
  at_StartedAt :: "ts option"
  at_FinishedAt :: "ts option"
  at_TimeoutAt :: "ts option"
  at_FailureClass :: "FailureClass option"
  at_ErrorCode :: "string option"
  at_ErrorMessage :: "string option"
  at_RetryDelayMS :: "int option"
  at_RetryAt :: "ts option"

definition attempt_view :: "db \<Rightarrow> attempt_row \<Rightarrow> Attempt" where
  "attempt_view d a = \<lparr> at_ID = a_id a, at_AttemptNumber = a_number a, at_Status = a_status a, at_WorkerID = a_worker_id a,
     at_WorkerName = (case find (\<lambda>w. w_id w = a_worker_id a \<and> w_scope w = a_scope a) (db_workers d) of
        Some w \<Rightarrow> w_name w | None \<Rightarrow> ''''),
     at_CreatedAt = a_created_at a, at_StartedAt = a_started_at a, at_FinishedAt = a_finished_at a,
     at_TimeoutAt = a_timeout_at a, at_FailureClass = a_failure_class a, at_ErrorCode = a_error_code a,
     at_ErrorMessage = a_error_message a, at_RetryDelayMS = a_retry_delay_ms a, at_RetryAt = a_retry_at a \<rparr>"

text \<open>
  The rows of the LEFT JOIN: none for a job the scope does not have, one without an attempt for a job
  never attempted.
\<close>

definition attempt_join :: "string \<Rightarrow> uuid \<Rightarrow> db \<Rightarrow> attempt_row option list" where
  "attempt_join scope i d = concat (map (\<lambda>j.
     let found = sort_key a_number (filter (\<lambda>a. a_job_id a = j_id j \<and> a_scope a = j_scope j) (db_attempts d))
     in if found = [] then [None] else map Some found) (filter (\<lambda>j. j_id j = i \<and> j_scope j = scope) (db_jobs d)))"

definition ListAttempts :: "string \<Rightarrow> uuid \<Rightarrow> db \<Rightarrow> list_error + Attempt list" where
  "ListAttempts scope i d = (let rows = attempt_join scope i d in
     if rows = [] then Inl NoSuchJob else Inr (map (attempt_view d) (List.map_filter (\<lambda>r. r) rows)))"

section \<open>Queues\<close>

record Queue =
  qu_Name :: string
  qu_WorkerGroup :: string
  qu_MaxConcurrency :: int
  qu_Depth :: "Status \<Rightarrow> nat option"

text \<open>The rows of the LEFT JOIN with the grouped counts, ordered by name.\<close>

definition depth_groups :: "string \<Rightarrow> string \<Rightarrow> db \<Rightarrow> (Status \<times> nat) list" where
  "depth_groups scope queue d = filter (\<lambda>(_, n). 0 < n) (map (\<lambda>s. (s, count_where (\<lambda>j. j_scope j = scope \<and> j_queue j = queue \<and> j_status j = s) (db_jobs d)))
     [StatusPending, StatusQueued, StatusLeased, StatusRunning, StatusRetryWait, StatusCancelRequested])"

definition queue_join :: "(string \<Rightarrow> string) \<Rightarrow> string \<Rightarrow> db \<Rightarrow> (queue_row \<times> (Status \<times> nat) option) list" where
  "queue_join sortkey scope d = concat (map (\<lambda>q.
     let found = depth_groups scope (q_name q) d in if found = [] then [(q, None)] else map (\<lambda>g. (q, Some g)) found)
     (sort_key (\<lambda>q. sortkey (q_name q)) (db_queues d)))"

definition zero_depth :: "Status \<Rightarrow> nat option" where
  "zero_depth = (\<lambda>s. if s \<in> set NonTerminalStatuses then Some 0 else None)"

type_synonym queue_table = "string list \<times> (string \<rightharpoonup> Queue)"

definition scan_queue :: "queue_row \<times> (Status \<times> nat) option \<Rightarrow> queue_table \<Rightarrow> queue_table" where
  "scan_queue row acc = (case row of (q, counted) \<Rightarrow> case acc of (ordered, byName) \<Rightarrow>
     let name = q_name q;
         (queue, ordered') = (case byName name of
            Some queue \<Rightarrow> (queue, ordered)
          | None \<Rightarrow> (\<lparr> qu_Name = name, qu_WorkerGroup = q_worker_group q, qu_MaxConcurrency = q_max_concurrency q,
                       qu_Depth = zero_depth \<rparr>, ordered @ [name]));
         queue' = (case counted of None \<Rightarrow> queue | Some (s, n) \<Rightarrow> queue\<lparr> qu_Depth := (qu_Depth queue)(s \<mapsto> n) \<rparr>)
     in (ordered', byName(name \<mapsto> queue')))"

definition ListQueues :: "(string \<Rightarrow> string) \<Rightarrow> string \<Rightarrow> db \<Rightarrow> Queue list" where
  "ListQueues sortkey scope d = (case fold scan_queue (queue_join sortkey scope d) ([], \<lambda>_. None) of
     (ordered, byName) \<Rightarrow> map (\<lambda>name. the (byName name)) ordered)"

section \<open>Dead-letter entries\<close>

definition DefaultDLQPageSize :: int where "DefaultDLQPageSize = 25"
definition MaxDLQPageSize :: int where "MaxDLQPageSize = 100"

record DLQEntry =
  de_ID :: uuid
  de_JobID :: uuid
  de_Queue :: string
  de_JobType :: string
  de_Priority :: int
  de_MaxAttempts :: int
  de_Reason :: DLQReason
  de_CreatedAt :: ts
  de_TerminalAttemptID :: "uuid option"
  de_AttemptNumber :: "int option"
  de_AttemptStatus :: "AttemptStatus option"
  de_FailureClass :: "FailureClass option"
  de_ErrorCode :: "string option"
  de_ErrorMessage :: "string option"
  de_ReplayCount :: nat

text \<open>One row of the join of an entry with its job and, where it has one, its terminal attempt.\<close>

type_synonym dlq_join_row = "dlq_row \<times> job_row \<times> attempt_row option"

definition dlq_join :: "db \<Rightarrow> dlq_join_row list" where
  "dlq_join d = List.map_filter (\<lambda>e. map_option (\<lambda>j. (e, j, Option.bind (d_attempt_id e) (get_attempt d))) (get_job d (d_job_id e))) (db_dlq d)"

definition dlq_entry :: "db \<Rightarrow> dlq_join_row \<Rightarrow> DLQEntry" where
  "dlq_entry d r = (case r of (e, j, a) \<Rightarrow>
     \<lparr> de_ID = d_id e, de_JobID = d_job_id e, de_Queue = d_queue e, de_JobType = j_job_type j, de_Priority = j_priority j,
       de_MaxAttempts = j_max_attempts j, de_Reason = d_reason e, de_CreatedAt = d_created_at e,
       de_TerminalAttemptID = d_attempt_id e, de_AttemptNumber = map_option a_number a, de_AttemptStatus = map_option a_status a,
       de_FailureClass = Option.bind a a_failure_class, de_ErrorCode = Option.bind a a_error_code,
       de_ErrorMessage = Option.bind a a_error_message,
       de_ReplayCount = count_where (\<lambda>p. p_original p = d_job_id e) (db_replays d) \<rparr>)"

definition dlq_key :: "dlq_join_row \<Rightarrow> int \<times> int" where
  "dlq_key r = newest_first (d_created_at (fst r)) (d_id (fst r))"

definition ListDLQ :: "uuid_text \<Rightarrow> string \<Rightarrow> string \<Rightarrow> int \<Rightarrow> db \<Rightarrow> list_error + DLQEntry page" where
  "ListDLQ U scope cursor limit0 d =
     (let limit1 = (if limit0 \<le> 0 then DefaultDLQPageSize else limit0);
          limit = (if limit1 > MaxDLQPageSize then MaxDLQPageSize else limit1);
          read = (\<lambda>after. case keyset_page (\<lambda>r. d_scope (fst r) = scope) dlq_key
                      (\<lambda>r. EncodeDLQCursor U (d_created_at (fst r) * 1000) (d_id (fst r))) after (nat limit) (dlq_join d)
                    of (rows, next) \<Rightarrow> Inr \<lparr> Items = map (dlq_entry d) rows, NextCursor = next \<rparr>)
      in if cursor = '''' then read None
         else case decodeDLQCursor U cursor of Inl e \<Rightarrow> Inl e | Inr c \<Rightarrow> read (Some (cursor_key c)))"

section \<open>Workers\<close>

record WorkerSummary =
  ws_ID :: uuid
  ws_Name :: string
  ws_Status :: SessionStatus
  ws_WorkerGroup :: string
  ws_Hostname :: string
  ws_ConcurrencyLimit :: int
  ws_Capabilities :: "string list"
  ws_SupportedJobTypes :: "string list"
  ws_RegisteredAt :: ts
  ws_LastHeartbeatAt :: ts
  ws_EndedAt :: "ts option"
  ws_HeartbeatAgeMicros :: int
  ws_ActiveLeases :: nat

text \<open>The latest session of a worker, whatever its status.\<close>

definition latest_session :: "db \<Rightarrow> uuid \<Rightarrow> session_row option" where
  "latest_session d w = (case select_ordered (\<lambda>s. s_worker_id s = w) (\<lambda>s. newest_first (s_registered_at s) (s_id s)) 1 (db_sessions d) of
     [] \<Rightarrow> None | s # _ \<Rightarrow> Some s)"

definition worker_join :: "db \<Rightarrow> (worker_row \<times> session_row) list" where
  "worker_join d = List.map_filter (\<lambda>w. map_option (\<lambda>s. (w, s)) (latest_session d (w_id w))) (db_workers d)"

definition worker_summary :: "ts \<Rightarrow> db \<Rightarrow> worker_row \<times> session_row \<Rightarrow> WorkerSummary" where
  "worker_summary now d r = (case r of (w, s) \<Rightarrow>
     \<lparr> ws_ID = w_id w, ws_Name = w_name w, ws_Status = s_status s, ws_WorkerGroup = s_worker_group s, ws_Hostname = s_hostname s,
       ws_ConcurrencyLimit = s_concurrency_limit s, ws_Capabilities = s_capabilities s,
       ws_SupportedJobTypes = s_supported_job_types s, ws_RegisteredAt = s_registered_at s,
       ws_LastHeartbeatAt = s_last_heartbeat_at s, ws_EndedAt = s_ended_at s,
       ws_HeartbeatAgeMicros = max 0 (now - s_last_heartbeat_at s),
       ws_ActiveLeases = count_where (\<lambda>l. l_worker_id l = w_id w \<and> l_status l = LeaseActive) (db_leases d) \<rparr>)"

definition worker_key :: "(string \<Rightarrow> string) \<Rightarrow> worker_row \<times> session_row \<Rightarrow> string" where
  "worker_key sortkey r = sortkey (w_name (fst r))"

definition ListWorkers :: "(string \<Rightarrow> string) \<Rightarrow> ts \<Rightarrow> string \<Rightarrow> string \<Rightarrow> int \<Rightarrow> db \<Rightarrow> list_error + WorkerSummary page" where
  "ListWorkers sortkey now scope cursor limit0 d =
     (let limit = boundPage limit0;
          read = (\<lambda>after. case keyset_page (\<lambda>r. w_scope (fst r) = scope) (worker_key sortkey)
                      (\<lambda>r. EncodeWorkerCursor (w_name (fst r))) after (nat limit) (worker_join d)
                    of (rows, next) \<Rightarrow> Inr \<lparr> Items = map (worker_summary now d) rows, NextCursor = next \<rparr>)
      in if cursor = '''' then read None
         else case decodeWorkerCursor cursor of Inl e \<Rightarrow> Inl e | Inr name \<Rightarrow> read (Some (sortkey name)))"

end
