(* ===== verification/Pagination.thy ===== *)
theory Pagination
  imports Listing Authentication System Scenario
begin

text \<open>
  Walking a listing page by page. The argument is made once, for a listing behind an interface (a
  strict order, a cursor that denotes a position), and applied to jobs, dead-letter entries and
  workers: a walk over databases that change between the pages repeats nothing and misses nothing
  that was there all along; over one database it returns the whole listing and ends.
\<close>

section \<open>Cursors denote positions\<close>

lemma b64_value_char: "n < 64 \<Longrightarrow> b64_value (b64_char n) = n"
  by (auto simp: b64_char_def b64_value_def Let_def)

lemma chr_byte [simp]: "chr (byte c) = c"
  by (simp add: chr_def)

lemma b64_halves: "byte b div 16 < 16" "byte c div 64 < 4" "byte b div 16 mod 16 = byte b div 16" "byte c div 64 mod 4 = byte c div 64"
  using nat_of_char_less_256 [of b] nat_of_char_less_256 [of c] by (simp_all add: less_mult_imp_div_less)

lemma b64_groups_encode: "b64_groups (map b64_value (b64_encode s)) = s"
proof (induction s rule: b64_encode.induct)
  case (2 a)
  have "chr (byte a div 4 * 4 + byte a mod 4 * 16 div 16) = a"
    by simp
  then show ?case
    by (simp add: b64_value_char b64_digit_bounds)
next
  case (3 a b)
  have "chr (byte a div 4 * 4 + (byte a mod 4 * 16 + byte b div 16) div 16) = a"
    "chr ((byte a mod 4 * 16 + byte b div 16) mod 16 * 16 + byte b mod 16 * 4 div 4) = b"
    using b64_halves [of b] by simp_all
  then show ?case
    by (simp add: b64_value_char b64_digit_bounds)
next
  case (4 a b c r)
  have "chr (byte a div 4 * 4 + (byte a mod 4 * 16 + byte b div 16) div 16) = a"
    "chr ((byte a mod 4 * 16 + byte b div 16) mod 16 * 16 + (byte b mod 16 * 4 + byte c div 64) div 4) = b"
    "chr ((byte b mod 16 * 4 + byte c div 64) mod 4 * 64 + byte c mod 64) = c"
    using b64_halves [of b] b64_halves [of c] by simp_all
  then show ?case
    using 4 by (simp add: b64_value_char b64_digit_bounds)
qed simp

lemma b64_length: "(length (s :: string) * 8 + 5) div 6 mod 4 \<noteq> 1"
proof (induction s rule: b64_encode.induct)
  case (4 a b c r)
  have "(length (a # b # c # r) * 8 + 5) div 6 = (length r * 8 + 5) div 6 + 4"
    by simp
  then show ?case
    using 4 by (metis mod_add_self2)
qed simp_all

lemma b64_decode_encode [simp]: "b64_decode (b64_encode s) = Some s"
proof -
  have "filter (\<lambda>c. byte c \<noteq> 10 \<and> byte c \<noteq> 13) (b64_encode s) = b64_encode s"
    using b64_encode_chars [of s] is_b64_not by (auto simp: filter_id_conv list_all_iff)
  then show ?thesis
    using decodeSegment_encoded [OF b64_length [of s]] by (simp add: b64_decode_def b64_groups_encode)
qed

lemma format_no_bar: "CHR ''|'' \<notin> set (format_rfc3339nano t)"
proof -
  have p: "CHR ''|'' \<notin> set (padded w k)" for w k
    using padded_are_digits [of w k] by (auto simp: list_all_iff is_digit_def)
  have "CHR ''|'' \<notin> set (append_year y)" "CHR ''|'' \<notin> set (clock_text k)" for y k
    using p by (simp_all add: append_year_def clock_text_def)
  moreover have "CHR ''|'' \<notin> set (append_nano k)" for k
    using p [of 9 k] by (auto simp: append_nano_def dest: set_dropWhileD)
  ultimately show ?thesis
    using p by (simp add: format_rfc3339nano_def Let_def case_prod_unfold)
qed

lemma decodeJobCursor_encode:
  assumes "u_Parse U (u_String U i) = Some i" and "0 \<le> year_of t" and "year_of t \<le> 9999"
  shows "decodeJobCursor U (EncodeJobCursor U t i) = Inr (t, i)"
  using assms strings_Cut_at [OF format_no_bar, of t "u_String U i"]
  by (simp add: decodeJobCursor_def EncodeJobCursor_def parse_format)

lemma decodeDLQCursor_encode:
  assumes "u_Parse U (u_String U i) = Some i" and "0 \<le> year_of t" and "year_of t \<le> 9999"
  shows "decodeDLQCursor U (EncodeDLQCursor U t i) = Inr (t, i)"
  using assms strings_Cut_at [OF format_no_bar, of t "u_String U i"]
  by (simp add: decodeDLQCursor_def EncodeDLQCursor_def parse_format)

lemma decodeWorkerCursor_encode: "workerNamePattern n \<Longrightarrow> decodeWorkerCursor (EncodeWorkerCursor n) = Inr n"
  by (simp add: decodeWorkerCursor_def EncodeWorkerCursor_def)

lemma b64_encode_nonempty: "b64_encode s = [] \<longleftrightarrow> s = []"
  by (cases s rule: b64_encode.cases) simp_all

section \<open>A client that follows the cursors\<close>

text \<open>The items of the pages read so far, one database per page, and whether the last page was reached.\<close>

fun walk :: "(string \<Rightarrow> 's \<Rightarrow> 'e + 'a page) \<Rightarrow> string \<Rightarrow> 's list \<Rightarrow> 'a list \<times> bool" where
  "walk list_page cursor [] = ([], False)"
| "walk list_page cursor (s # ss) = (case list_page cursor s of
     Inl _ \<Rightarrow> ([], False)
   | Inr pg \<Rightarrow> if NextCursor pg = '''' then (Items pg, True)
       else (case walk list_page (NextCursor pg) ss of (items, ended) \<Rightarrow> (Items pg @ items, ended)))"

lemma beyond_simps [simp]: "beyond None k" "beyond (Some a) k \<longleftrightarrow> a < k"
  by (simp_all add: beyond_def)

lemma beyond_trans: "beyond after k \<Longrightarrow> k < m \<Longrightarrow> beyond after m"
  by (cases after) auto

abbreviation ascending :: "('r \<Rightarrow> 'k::linorder) \<Rightarrow> 'r list \<Rightarrow> bool" where
  "ascending key xs \<equiv> sorted_wrt (<) (map key xs)"

lemma ascending_sort_key: "distinct (map key xs) \<Longrightarrow> ascending key (sort_key key xs)"
proof -
  assume "distinct (map key xs)"
  then have "distinct (map key (sort_key key xs))"
    using mset_eq_imp_distinct_iff [of "map key (sort_key key xs)" "map key xs"] by simp
  then show ?thesis
    by (simp add: strict_sorted_iff)
qed

text \<open>A strictly sorted list, cut at its n-th element.\<close>

lemma ascending_cut:
  assumes "ascending key xs" and "n < length xs"
  shows "filter (\<lambda>r. key (xs ! n) < key r) xs = drop (Suc n) xs" and "\<forall>r\<in>set (take (Suc n) xs). key r \<le> key (xs ! n)"
proof -
  have a: "key (xs ! i) < key (xs ! j)" if "i < j" "j < length xs" for i j
    using assms(1) that by (simp add: sorted_wrt_iff_nth_less)
  show le: "\<forall>r\<in>set (take (Suc n) xs). key r \<le> key (xs ! n)"
  proof
    fix r
    assume "r \<in> set (take (Suc n) xs)"
    then obtain i where "i < Suc n" "r = xs ! i"
      using assms(2) by (auto simp: in_set_conv_nth)
    then show "key r \<le> key (xs ! n)"
      using a [of i n] assms(2) by (cases "i = n") auto
  qed
  have gt: "\<forall>r\<in>set (drop (Suc n) xs). key (xs ! n) < key r"
    using a [of n] by (auto simp: in_set_conv_nth)
  have "filter (\<lambda>r. key (xs ! n) < key r) (take (Suc n) xs) = []"
    using le by (auto simp: filter_empty_conv not_less)
  moreover have "filter (\<lambda>r. key (xs ! n) < key r) (drop (Suc n) xs) = drop (Suc n) xs"
    using gt by (simp add: filter_id_conv)
  ultimately show "filter (\<lambda>r. key (xs ! n) < key r) xs = drop (Suc n) xs"
    using filter_append [of "\<lambda>r. key (xs ! n) < key r" "take (Suc n) xs" "drop (Suc n) xs"] by simp
qed

lemma filter_beyond:
  assumes "beyond after k"
  shows "filter (\<lambda>r. k < key r) (filter (\<lambda>r. beyond after (key r)) xs) = filter (\<lambda>r. k < key r) xs"
  using beyond_trans [OF assms] by (auto intro!: filter_cong)

section \<open>Listings by key\<close>

text \<open>
  A listing: the rows of a state that match, in the order of a key, shown as items that carry the key;
  the cursor written for a row is read back as its position when the row is addressable.
\<close>

locale keyset =
  fixes list_page :: "string \<Rightarrow> 's \<Rightarrow> 'e + 'a page"
    and accepted :: bool
    and rows :: "'s \<Rightarrow> 'r list"
    and matches :: "'r \<Rightarrow> bool"
    and key :: "'r \<Rightarrow> 'k::linorder"
    and encode :: "'r \<Rightarrow> string"
    and addressable :: "'r \<Rightarrow> bool"
    and view :: "'s \<Rightarrow> 'r \<Rightarrow> 'a"
    and ident :: "'a \<Rightarrow> 'k"
    and limit :: nat
  assumes first_page: "accepted \<Longrightarrow> list_page '''' s = (case keyset_page matches key encode None limit (rows s) of
      (rs, c) \<Rightarrow> Inr \<lparr> Items = map (view s) rs, NextCursor = c \<rparr>)"
    and next_page: "accepted \<Longrightarrow> addressable r \<Longrightarrow> list_page (encode r) s =
      (case keyset_page matches key encode (Some (key r)) limit (rows s) of (rs, c) \<Rightarrow> Inr \<lparr> Items = map (view s) rs, NextCursor = c \<rparr>)"
    and encode_nonempty: "addressable r \<Longrightarrow> encode r \<noteq> ''''"
    and ident_view: "ident (view s r) = key r"
    and limit_pos: "0 < limit"
begin

abbreviation listing :: "'s \<Rightarrow> 'r list" where
  "listing s \<equiv> sort_key key (filter matches (rows s))"

abbreviation rest :: "'k option \<Rightarrow> 's \<Rightarrow> 'r list" where
  "rest after s \<equiv> filter (\<lambda>r. beyond after (key r)) (listing s)"

abbreviation position :: "string \<Rightarrow> 'k option \<Rightarrow> bool" where
  "position c after \<equiv> (\<forall>s. list_page c s = (case keyset_page matches key encode after limit (rows s) of
      (rs, c) \<Rightarrow> Inr \<lparr> Items = map (view s) rs, NextCursor = c \<rparr>))"

abbreviation regular :: "'s \<Rightarrow> bool" where
  "regular s \<equiv> distinct (map key (filter matches (rows s))) \<and> (\<forall>r\<in>set (rows s). matches r \<longrightarrow> addressable r)"

lemma page_rest:
  "keyset_page matches key encode after limit (rows s) =
     (if length (rest after s) > limit then (take limit (rest after s), encode (rest after s ! (limit - 1))) else (rest after s, ''''))"
proof -
  have "select_ordered (\<lambda>r. matches r \<and> beyond after (key r)) key (limit + 1) (rows s) = take (limit + 1) (rest after s)"
    by (simp add: select_ordered_def filter_sort conj_commute)
  moreover have "length (take (limit + 1) xs) > limit \<longleftrightarrow> length xs > limit" for xs :: "'r list"
    by auto
  ultimately show ?thesis
    using limit_pos by (simp add: keyset_page_def Let_def min_def)
qed

lemma ascending_rest: "distinct (map key (filter matches (rows s))) \<Longrightarrow> ascending key (rest after s)"
  using ascending_sort_key [of key "filter matches (rows s)"] unfolding sorted_wrt_map by (rule sorted_wrt_filter)

text \<open>One page: it is the last, or the next cursor is the position of its last row.\<close>

lemma page_cases:
  assumes a: accepted and p: "position c after" and r: "regular s"
  obtains (last) "list_page c s = Inr \<lparr> Items = map (view s) (rest after s), NextCursor = '''' \<rparr>"
  | (more) k c' where "list_page c s = Inr \<lparr> Items = map (view s) (take limit (rest after s)), NextCursor = c' \<rparr>" "c' \<noteq> ''''"
      "position c' (Some k)" "beyond after k" "\<forall>r\<in>set (take limit (rest after s)). key r \<le> k"
      "rest (Some k) s = drop limit (rest after s)" "limit < length (rest after s)"
proof (cases "limit < length (rest after s)")
  case True
  obtain n where n: "limit = Suc n"
    using limit_pos by (cases limit) simp_all
  define x where "x = rest after s ! n"
  have l: "n < length (rest after s)"
    using True n by simp
  then have "x \<in> set (rest after s)"
    unfolding x_def by (rule nth_mem)
  then have m: "addressable x" "beyond after (key x)"
    using r by auto
  have c: "filter (\<lambda>y. key x < key y) (rest after s) = drop limit (rest after s)" "\<forall>y\<in>set (take limit (rest after s)). key y \<le> key x"
    using ascending_cut [OF ascending_rest l] r unfolding n x_def by simp_all
  have "rest (Some (key x)) s = drop limit (rest after s)"
    using c(1) filter_beyond [OF m(2), of key "listing s"] by simp
  moreover have "list_page c s = Inr \<lparr> Items = map (view s) (take limit (rest after s)), NextCursor = encode x \<rparr>"
    using p True unfolding page_rest by (simp add: n x_def)
  moreover have "position (encode x) (Some (key x))"
    using next_page [OF a m(1)] by blast
  ultimately show ?thesis
    using more True m(2) c(2) encode_nonempty [OF m(1)] by blast
qed (use last p page_rest in simp)

text \<open>Over databases that change between pages: strictly ascending, and complete for what stays.\<close>

lemma walk_ascending:
  assumes "accepted" and "position c after" and "\<forall>s\<in>set ss. regular s"
  shows "ascending ident (fst (walk list_page c ss)) \<and> (\<forall>x\<in>set (fst (walk list_page c ss)). beyond after (ident x))"
  using assms(2,3)
proof (induction ss arbitrary: c after)
  case (Cons s ss)
  have asc: "ascending key (rest after s)"
    using Cons.prems(2) by (intro ascending_rest) simp
  have r: "regular s"
    using Cons.prems(2) by simp
  show ?case
  proof (cases rule: page_cases [OF assms(1) Cons.prems(1) r])
    case 1
    then show ?thesis
      using asc by (auto simp: ident_view o_def)
  next
    case (2 k c')
    obtain items ended where w: "walk list_page c' ss = (items, ended)"
      by fastforce
    have e: "fst (walk list_page c (s # ss)) = map (view s) (take limit (rest after s)) @ items"
      using 2(1,2) w by simp
    have "\<forall>s\<in>set ss. regular s"
      using Cons.prems(2) by simp
    then have ih: "ascending ident items" "\<forall>x\<in>set items. beyond (Some k) (ident x)"
      using Cons.IH [OF 2(3)] unfolding w fst_conv by blast+
    have t: "ascending ident (map (view s) (take limit (rest after s)))"
      using sorted_wrt_take [OF asc, of limit] unfolding take_map map_map o_def ident_view .
    have le: "ident y < ident x" if "y \<in> view s ` set (take limit (rest after s))" "x \<in> set items" for x y
    proof -
      have "ident y \<le> k" "k < ident x"
        using that 2(5) ih(2) by (auto simp only: ident_view beyond_simps)
      then show ?thesis
        by (rule le_less_trans)
    qed
    have "beyond after (ident x)" if "x \<in> set items" for x
      using 2(4) ih(2) that beyond_trans by (auto simp only: beyond_simps)
    moreover have "beyond after (ident y)" if "y \<in> view s ` set (take limit (rest after s))" for y
      using that by (auto simp only: ident_view dest!: in_set_takeD set_filter [THEN equalityD1, THEN subsetD])
    ultimately show ?thesis
      using t ih(1) le unfolding e map_append sorted_wrt_append set_append set_map by blast
  qed
qed simp

lemma walk_complete:
  assumes a: "accepted" and "position c after" and "\<forall>s\<in>set ss. regular s" and "snd (walk list_page c ss)"
    and "\<forall>s\<in>set ss. \<exists>r\<in>set (rows s). matches r \<and> key r = k" and "beyond after k"
  shows "k \<in> ident ` set (fst (walk list_page c ss))"
  using assms(2-6)
proof (induction ss arbitrary: c after)
  case (Cons s ss)
  obtain r where r: "r \<in> set (rest after s)" "key r = k"
    using Cons.prems(4,5) by auto
  have reg: "regular s"
    using Cons.prems(2) by simp
  show ?case
  proof (cases rule: page_cases [OF a Cons.prems(1) reg])
    case 1
    then show ?thesis
      using r by (force simp: ident_view image_iff)
  next
    case (2 k' c')
    obtain items ended where w: "walk list_page c' ss = (items, ended)"
      by fastforce
    have e: "walk list_page c (s # ss) = (map (view s) (take limit (rest after s)) @ items, ended)"
      using 2(1,2) w by simp
    consider "r \<in> set (take limit (rest after s))" | "r \<in> set (drop limit (rest after s))"
      using r(1) append_take_drop_id [of limit "rest after s"] by (metis Un_iff set_append)
    then show ?thesis
    proof cases
      case 1
      then show ?thesis
        using image_eqI [OF _ UnI1 [OF imageI [OF 1, of "view s"]], of k ident "set items"] r(2) unfolding e by (simp add: ident_view)
    next
      case 2
      then have "r \<in> set (rest (Some k') s)"
        using \<open>rest (Some k') s = drop limit (rest after s)\<close> by simp
      then have "k' < k"
        using r(2) by simp
      then show ?thesis
        using Cons.IH [OF \<open>position c' (Some k')\<close>] Cons.prems(2-4) w unfolding e by (auto simp: image_Un)
    qed
  qed
qed simp

lemma walk_items:
  assumes a: "accepted" and "position c after" and "\<forall>s\<in>set ss. regular s" and "x \<in> set (fst (walk list_page c ss))"
  shows "\<exists>s\<in>set ss. \<exists>r\<in>set (rows s). matches r \<and> x = view s r"
  using assms(2-4)
proof (induction ss arbitrary: c after)
  case (Cons s ss)
  have reg: "regular s"
    using Cons.prems(2) by simp
  show ?case
  proof (cases rule: page_cases [OF a Cons.prems(1) reg])
    case 1
    then show ?thesis
      using Cons.prems(3) by auto
  next
    case (2 k c')
    obtain items ended where w: "walk list_page c' ss = (items, ended)"
      by fastforce
    have "x \<in> view s ` set (take limit (rest after s)) \<or> x \<in> set items"
      using Cons.prems(3) 2(1,2) w by auto
    then show ?thesis
    proof
      assume "x \<in> view s ` set (take limit (rest after s))"
      then obtain r where "r \<in> set (rest after s)" "x = view s r"
        using in_set_takeD [of _ limit "rest after s"] by blast
      then show ?thesis
        by auto
    next
      assume "x \<in> set items"
      then show ?thesis
        using Cons.IH [OF 2(3)] Cons.prems(2) w by auto
    qed
  qed
qed simp

text \<open>Over one database: the whole listing, after as many pages as it takes.\<close>

lemma walk_static:
  assumes a: "accepted" and r: "regular s" and "position c after" and "length (rest after s) \<le> n * limit" and "0 < n"
  shows "walk list_page c (replicate n s) = (map (view s) (rest after s), True)"
  using assms(3-5)
proof (induction n arbitrary: c after)
  case (Suc n)
  show ?case
  proof (cases rule: page_cases [OF a Suc.prems(1) r])
    case 1
    then show ?thesis
      by simp
  next
    case (2 k c')
    have "length (rest (Some k) s) = length (rest after s) - limit"
      unfolding 2(6) by (rule length_drop)
    moreover have "length (rest after s) \<le> limit + n * limit"
      using Suc.prems(2) unfolding mult_Suc .
    ultimately have l: "length (rest (Some k) s) \<le> n * limit"
      by linarith
    have "n \<noteq> 0"
      using Suc.prems(2) 2(7) by (intro notI) simp
    then have "0 < n"
      by simp
    have "walk list_page c' (replicate n s) = (map (view s) (rest (Some k) s), True)"
      by (rule Suc.IH [OF 2(3) l \<open>0 < n\<close>])
    moreover have "map (view s) (take limit (rest after s)) @ map (view s) (rest (Some k) s) = map (view s) (rest after s)"
      unfolding 2(6) map_append [symmetric] append_take_drop_id ..
    ultimately show ?thesis
      using 2(1,2) by simp
  qed
qed simp

lemma start: "accepted \<Longrightarrow> position [] None"
  using first_page by blast

lemma walk_from_start:
  assumes a: accepted and r: "\<forall>s\<in>set ss. regular s"
  shows "ascending ident (fst (walk list_page [] ss))"
    and "snd (walk list_page [] ss) \<Longrightarrow> \<forall>s\<in>set ss. \<exists>r\<in>set (rows s). matches r \<and> key r = k
      \<Longrightarrow> k \<in> ident ` set (fst (walk list_page [] ss))"
    and "x \<in> set (fst (walk list_page [] ss)) \<Longrightarrow> \<exists>s\<in>set ss. \<exists>r\<in>set (rows s). matches r \<and> x = view s r"
proof -
  note s = start [OF a]
  show "ascending ident (fst (walk list_page [] ss))"
    using walk_ascending [OF a s r] by (rule conjunct1)
  show "k \<in> ident ` set (fst (walk list_page [] ss))"
    if "snd (walk list_page [] ss)" "\<forall>s\<in>set ss. \<exists>r\<in>set (rows s). matches r \<and> key r = k"
    by (rule walk_complete [OF a s r that]) (rule beyond_simps)
  show "\<exists>s\<in>set ss. \<exists>r\<in>set (rows s). matches r \<and> x = view s r" if "x \<in> set (fst (walk list_page [] ss))"
    by (rule walk_items [OF a s r that])
qed

lemma walk_whole:
  assumes a: accepted and "regular s" and "length (filter matches (rows s)) \<le> n * limit" and "0 < n"
  shows "walk list_page [] (replicate n s) = (map (view s) (listing s), True)"
proof -
  have l: "rest None s = listing s"
    by simp
  have r: "length (rest None s) \<le> n * limit"
    using assms(3) unfolding l length_sort .
  show ?thesis
    using walk_static [OF a assms(2) start [OF a] r assms(4)] unfolding l .
qed

end

section \<open>The three listings\<close>

definition cursor_ok :: "uuid_text \<Rightarrow> ts \<Rightarrow> uuid \<Rightarrow> bool" where
  "cursor_ok U t i = (u_Parse U (u_String U i) = Some i \<and> 0 \<le> year_of (t * 1000) \<and> year_of (t * 1000) \<le> 9999)"

lemma cursor_nonempty: "EncodeJobCursor U t i \<noteq> []" "EncodeDLQCursor U t i \<noteq> []"
  by (simp_all add: EncodeJobCursor_def EncodeDLQCursor_def b64_encode_nonempty)

lemma cursor_key_micros: "cursor_key (t * 1000, i) = newest_first t i"
  by (simp add: cursor_key_def)

lemma boundPage_pos: "1 \<le> boundPage n" "boundPage n \<le> MaxPageSize"
  by (simp_all add: boundPage_def DefaultPageSize_def MaxPageSize_def)

definition dlqBound :: "int \<Rightarrow> int" where
  "dlqBound n = (let n1 = (if n \<le> 0 then DefaultDLQPageSize else n) in if n1 > MaxDLQPageSize then MaxDLQPageSize else n1)"

lemma dlqBound_pos: "1 \<le> dlqBound n" "dlqBound n \<le> MaxDLQPageSize"
  by (simp_all add: dlqBound_def Let_def DefaultDLQPageSize_def MaxDLQPageSize_def)

interpretation job_pages: keyset "\<lambda>c. ListJobs U scope f c limit" "JobFilter_Validate f = None" db_jobs "job_matches scope f" job_key
  "\<lambda>j. EncodeJobCursor U (j_created_at j * 1000) (j_id j)" "\<lambda>j. cursor_ok U (j_created_at j) (j_id j)" "\<lambda>_. job_summary"
  "\<lambda>s. newest_first (js_CreatedAt s) (js_ID s)" "nat (boundPage limit)" for U scope f limit
proof unfold_locales
  show "ListJobs U scope f '''' limit d = (case keyset_page (job_matches scope f) job_key
      (\<lambda>j. EncodeJobCursor U (j_created_at j * 1000) (j_id j)) None (nat (boundPage limit)) (db_jobs d) of
    (rs, c) \<Rightarrow> Inr \<lparr> Items = map job_summary rs, NextCursor = c \<rparr>)" if "JobFilter_Validate f = None" for d
    using that by (simp add: ListJobs_def Let_def)
  show "ListJobs U scope f (EncodeJobCursor U (j_created_at j * 1000) (j_id j)) limit d = (case keyset_page (job_matches scope f) job_key
      (\<lambda>j. EncodeJobCursor U (j_created_at j * 1000) (j_id j)) (Some (job_key j)) (nat (boundPage limit)) (db_jobs d) of
    (rs, c) \<Rightarrow> Inr \<lparr> Items = map job_summary rs, NextCursor = c \<rparr>)"
    if "JobFilter_Validate f = None" "cursor_ok U (j_created_at j) (j_id j)" for j d
    using that by (simp add: ListJobs_def Let_def cursor_nonempty decodeJobCursor_encode cursor_ok_def cursor_key_micros job_key_def)
qed (use boundPage_pos(1) [of limit] in \<open>simp_all add: cursor_nonempty job_summary_def job_key_def\<close>)

interpretation dlq_pages: keyset "\<lambda>c. ListDLQ U scope c limit" True dlq_join "\<lambda>r. d_scope (fst r) = scope" dlq_key
  "\<lambda>r. EncodeDLQCursor U (d_created_at (fst r) * 1000) (d_id (fst r))" "\<lambda>r. cursor_ok U (d_created_at (fst r)) (d_id (fst r))" dlq_entry
  "\<lambda>e. newest_first (de_CreatedAt e) (de_ID e)" "nat (dlqBound limit)" for U scope limit
proof unfold_locales
  show "ListDLQ U scope '''' limit d = (case keyset_page (\<lambda>r. d_scope (fst r) = scope) dlq_key
      (\<lambda>r. EncodeDLQCursor U (d_created_at (fst r) * 1000) (d_id (fst r))) None (nat (dlqBound limit)) (dlq_join d) of
    (rs, c) \<Rightarrow> Inr \<lparr> Items = map (dlq_entry d) rs, NextCursor = c \<rparr>)" for d
    by (simp add: ListDLQ_def dlqBound_def Let_def)
  show "ListDLQ U scope (EncodeDLQCursor U (d_created_at (fst r) * 1000) (d_id (fst r))) limit d =
    (case keyset_page (\<lambda>r. d_scope (fst r) = scope) dlq_key
      (\<lambda>r. EncodeDLQCursor U (d_created_at (fst r) * 1000) (d_id (fst r))) (Some (dlq_key r)) (nat (dlqBound limit)) (dlq_join d) of
    (rs, c) \<Rightarrow> Inr \<lparr> Items = map (dlq_entry d) rs, NextCursor = c \<rparr>)" if "cursor_ok U (d_created_at (fst r)) (d_id (fst r))" for r d
    using that by (simp add: ListDLQ_def dlqBound_def Let_def cursor_nonempty decodeDLQCursor_encode cursor_ok_def cursor_key_micros dlq_key_def)
qed (use dlqBound_pos(1) [of limit] in \<open>simp_all add: cursor_nonempty dlq_entry_def dlq_key_def case_prod_unfold\<close>)

interpretation worker_pages: keyset "\<lambda>c. ListWorkers sortkey now scope c limit" True worker_join "\<lambda>r. w_scope (fst r) = scope"
  "worker_key sortkey" "\<lambda>r. EncodeWorkerCursor (w_name (fst r))" "\<lambda>r. workerNamePattern (w_name (fst r))" "worker_summary now"
  "\<lambda>s. sortkey (ws_Name s)" "nat (boundPage limit)" for sortkey now scope limit
proof unfold_locales
  show "ListWorkers sortkey now scope '''' limit d = (case keyset_page (\<lambda>r. w_scope (fst r) = scope) (worker_key sortkey)
      (\<lambda>r. EncodeWorkerCursor (w_name (fst r))) None (nat (boundPage limit)) (worker_join d) of
    (rs, c) \<Rightarrow> Inr \<lparr> Items = map (worker_summary now d) rs, NextCursor = c \<rparr>)" for d
    by (simp add: ListWorkers_def Let_def)
  have n: "EncodeWorkerCursor (w_name (fst r)) \<noteq> []" if "workerNamePattern (w_name (fst r))" for r :: "worker_row \<times> session_row"
    using that by (cases "w_name (fst r)") (simp_all add: EncodeWorkerCursor_def b64_encode_nonempty workerNamePattern_def)
  then show "EncodeWorkerCursor (w_name (fst r)) \<noteq> ''''" if "workerNamePattern (w_name (fst r))" for r :: "worker_row \<times> session_row"
    using that by simp
  show "ListWorkers sortkey now scope (EncodeWorkerCursor (w_name (fst r))) limit d =
    (case keyset_page (\<lambda>r. w_scope (fst r) = scope) (worker_key sortkey)
      (\<lambda>r. EncodeWorkerCursor (w_name (fst r))) (Some (worker_key sortkey r)) (nat (boundPage limit)) (worker_join d) of
    (rs, c) \<Rightarrow> Inr \<lparr> Items = map (worker_summary now d) rs, NextCursor = c \<rparr>)" if "workerNamePattern (w_name (fst r))" for r d
    using that n [OF that] by (simp add: ListWorkers_def Let_def decodeWorkerCursor_encode worker_key_def)
qed (use boundPage_pos(1) [of limit] in \<open>simp_all add: worker_summary_def worker_key_def case_prod_unfold\<close>)

section \<open>Walking the jobs of a running system\<close>

text \<open>The databases a client sees when other requests run between its pages.\<close>

fun snapshots :: "store_cfg \<Rightarrow> db \<Rightarrow> request list list \<Rightarrow> db list" where
  "snapshots cfg d [] = [d]"
| "snapshots cfg d (rs # rss) = d # snapshots cfg (run cfg rs d) rss"

lemma snapshots_reached: "d' \<in> set (snapshots cfg d rss) \<Longrightarrow> (db_step cfg)\<^sup>*\<^sup>* d d'"
proof (induction rss arbitrary: d)
  case (Cons rs rss)
  then show ?case
    using rtranclp_trans [OF run_steps [of cfg d rs]] by auto
qed simp

lemma snapshots_ordered: "sorted_wrt (\<lambda>x y. (db_step cfg)\<^sup>*\<^sup>* x y) (snapshots cfg d rss)"
proof (induction rss arbitrary: d)
  case (Cons rs rss)
  then show ?case
    using rtranclp_trans [OF run_steps [of cfg d rs] snapshots_reached [of _ cfg "run cfg rs d" rss]] by simp
qed simp

lemma snapshots_comparable:
  assumes "x \<in> set (snapshots cfg d rss)" and "y \<in> set (snapshots cfg d rss)"
  shows "(db_step cfg)\<^sup>*\<^sup>* x y \<or> (db_step cfg)\<^sup>*\<^sup>* y x"
proof -
  have "(db_step cfg)\<^sup>*\<^sup>* (ss ! i) (ss ! j)" if "sorted_wrt (db_step cfg)\<^sup>*\<^sup>* ss" "i \<le> j" "j < length ss" for ss i j
    using that by (cases "i = j") (auto simp: sorted_wrt_iff_nth_less)
  then show ?thesis
    using assms snapshots_ordered [of cfg d rss] by (metis in_set_conv_nth nat_le_linear)
qed

lemma snapshots_same_job:
  assumes r: "db_ok d" and m: "x \<in> set (snapshots cfg d rss)" "y \<in> set (snapshots cfg d rss)"
    and j: "get_job x i = Some j" and k: "get_job y i = Some k"
  shows "job_definition j = job_definition k"
proof -
  have ok: "db_ok x" "db_ok y"
    using sys.inv_steps [OF snapshots_reached r] m by blast+
  show ?thesis
    using snapshots_comparable [OF m]
  proof
    assume "(db_step cfg)\<^sup>*\<^sup>* x y"
    then show ?thesis
      using job_columns.row_steps [OF _ ok(1) j, of cfg y] k by (auto simp: job_le_def)
  next
    assume "(db_step cfg)\<^sup>*\<^sup>* y x"
    then show ?thesis
      using job_columns.row_steps [OF _ ok(2) k, of cfg x] j by (auto simp: job_le_def)
  qed
qed

lemma job_in_table: "db_ok d \<Longrightarrow> j \<in> set (db_jobs d) \<longleftrightarrow> get_job d (j_id j) = Some j"
  using db_okD(1) [of d] lookup_in_set [of j_id "db_jobs d" j] lookup_SomeD [of j_id "db_jobs d" "j_id j" j] by (auto simp: keys_ok_def)

lemma job_keys_distinct: "db_ok d \<Longrightarrow> distinct (map job_key (filter p (db_jobs d)))"
  using db_okD(1) [of d] by (auto simp: keys_ok_def distinct_map job_key_def newest_first_def inj_on_def)

abbreviation summary_key :: "JobSummary \<Rightarrow> int \<times> int" where
  "summary_key s \<equiv> newest_first (js_CreatedAt s) (js_ID s)"

lemma job_walk_laws:
  assumes r: "reach cfg d" and f: "JobFilter_Validate f = None" and ds: "ds = snapshots cfg d rss"
    and c: "\<forall>x\<in>set ds. \<forall>j\<in>set (db_jobs x). cursor_ok U (j_created_at j) (j_id j)"
    and w: "walk (\<lambda>c. ListJobs U scope f c limit) [] ds = (items, ended)"
  shows "ascending summary_key items"
    and "s \<in> set items \<Longrightarrow> \<exists>x\<in>set ds. \<exists>j. get_job x (js_ID s) = Some j \<and> job_matches scope f j \<and> s = job_summary j"
    and "ended \<Longrightarrow> \<forall>x\<in>set ds. \<exists>j\<in>set (db_jobs x). job_matches scope f j \<and> job_key j = k \<Longrightarrow> k \<in> summary_key ` set items"
proof -
  have ok: "db_ok x" if "x \<in> set ds" for x
    using that sys.inv_steps [OF snapshots_reached reach_ok [OF r]] unfolding ds by blast
  have reg: "\<forall>x\<in>set ds. distinct (map job_key (filter (job_matches scope f) (db_jobs x)))
    \<and> (\<forall>j\<in>set (db_jobs x). job_matches scope f j \<longrightarrow> cursor_ok U (j_created_at j) (j_id j))"
    using ok c job_keys_distinct by blast
  note W = job_pages.walk_from_start [OF f reg, where limit = limit, unfolded w fst_conv snd_conv]
  show "ascending summary_key items" "ended \<Longrightarrow> \<forall>x\<in>set ds. \<exists>j\<in>set (db_jobs x). job_matches scope f j \<and> job_key j = k \<Longrightarrow> k \<in> summary_key ` set items"
    by (rule W(1), rule W(2))
  show "\<exists>x\<in>set ds. \<exists>j. get_job x (js_ID s) = Some j \<and> job_matches scope f j \<and> s = job_summary j" if s: "s \<in> set items"
  proof -
    obtain x j where x: "x \<in> set ds" "j \<in> set (db_jobs x)" "job_matches scope f j" "s = job_summary j"
      using W(3) [OF s] by blast
    then have "get_job x (js_ID s) = Some j"
      using job_in_table [OF ok [OF x(1)], of j] by (simp add: job_summary_def)
    then show ?thesis
      using x by blast
  qed
qed

lemma job_walk_ids:
  assumes r: "reach cfg d" and ds: "ds = snapshots cfg d rss" and a: "ascending summary_key items"
    and src: "\<And>s. s \<in> set items \<Longrightarrow> \<exists>x\<in>set ds. \<exists>j. get_job x (js_ID s) = Some j \<and> job_matches scope f j \<and> s = job_summary j"
  shows "distinct (map js_ID items)"
proof -
  have "s = t" if st: "s \<in> set items" "t \<in> set items" "js_ID s = js_ID t" for s t
  proof -
    obtain x j y k where x: "x \<in> set ds" "get_job x (js_ID s) = Some j" "s = job_summary j"
      and y: "y \<in> set ds" "get_job y (js_ID s) = Some k" "t = job_summary k"
      using src [OF st(1)] src [OF st(2)] st(3) by metis
    then have "job_definition j = job_definition k"
      using snapshots_same_job [OF reach_ok [OF r], of x cfg rss y] unfolding ds by blast
    then have "summary_key s = summary_key t"
      using x(3) y(3) by (simp add: job_summary_def job_definition_def)
    moreover have "distinct (map summary_key items)"
      using a by (simp add: strict_sorted_iff)
    ultimately show ?thesis
      using st by (auto simp: distinct_map inj_on_def)
  qed
  then show ?thesis
    using a by (auto simp: strict_sorted_iff distinct_map inj_on_def)
qed

lemma job_walk_positions:
  assumes r: "reach cfg d" and ds: "ds = snapshots cfg d rss"
    and all: "\<forall>x\<in>set ds. \<exists>j. get_job x i = Some j \<and> job_matches scope f j"
  shows "\<exists>t. \<forall>x\<in>set ds. \<exists>j\<in>set (db_jobs x). job_matches scope f j \<and> job_key j = newest_first t i"
proof -
  have d: "d \<in> set ds"
    unfolding ds by (cases rss) simp_all
  then obtain j0 where j0: "get_job d i = Some j0"
    using all by blast
  have "\<exists>j\<in>set (db_jobs x). job_matches scope f j \<and> job_key j = newest_first (j_created_at j0) i" if x: "x \<in> set ds" for x
  proof -
    obtain j where j: "get_job x i = Some j" "job_matches scope f j"
      using all x by blast
    have "job_definition j = job_definition j0"
      using snapshots_same_job [OF reach_ok [OF r] _ _ j(1) j0, of cfg rss] x d unfolding ds by blast
    then show ?thesis
      using j lookup_SomeD [OF j(1)] lookup_key [OF j0] by (auto simp: job_definition_def job_key_def)
  qed
  then show ?thesis
    by blast
qed

text \<open>
  C37: Following the cursors of the job listing while any other requests of the control plane run between
  the pages returns no job twice, in the order newest first, only jobs of the scope that matched
  the filter when their page was read, and, once the last page is reached, every job that matched
  the filter in all the databases the walk read. Creation times lie in the years 0 to 9999 that
  RFC 3339 can write, and the text of a UUID parses back to it.
\<close>

theorem job_walk:
  assumes r: "reach cfg d" and f: "JobFilter_Validate f = None" and ds: "ds = snapshots cfg d rss"
    and c: "\<forall>x\<in>set ds. \<forall>j\<in>set (db_jobs x). cursor_ok U (j_created_at j) (j_id j)"
    and w: "walk (\<lambda>c. ListJobs U scope f c limit) '''' ds = (items, ended)"
  shows "distinct (map js_ID items)
    \<and> sorted_wrt (\<lambda>s t. (js_CreatedAt t, js_ID t) < (js_CreatedAt s, js_ID s)) items
    \<and> (\<forall>s\<in>set items. \<exists>x\<in>set ds. \<exists>j. get_job x (js_ID s) = Some j \<and> job_matches scope f j \<and> s = job_summary j)
    \<and> (ended \<longrightarrow> (\<forall>i. (\<forall>x\<in>set ds. \<exists>j. get_job x i = Some j \<and> job_matches scope f j) \<longrightarrow> i \<in> js_ID ` set items))"
proof -
  note W = job_walk_laws [OF r f ds c w]
  have "sorted_wrt (\<lambda>s t. (js_CreatedAt t, js_ID t) < (js_CreatedAt s, js_ID s)) items"
    using W(1) unfolding sorted_wrt_map by (rule sorted_wrt_mono_rel [rotated]) (auto simp: newest_first_def)
  moreover have "i \<in> js_ID ` set items" if e: ended and i: "\<forall>x\<in>set ds. \<exists>j. get_job x i = Some j \<and> job_matches scope f j" for i
  proof -
    obtain t where "newest_first t i \<in> summary_key ` set items"
      using job_walk_positions [OF r ds i] W(3) [OF e] by blast
    then show ?thesis
      by (auto simp: newest_first_def)
  qed
  ultimately show ?thesis
    using W(2) job_walk_ids [OF r ds W(1,2)] by blast
qed

definition witness_uuids :: uuid_text where
  "witness_uuids = \<lparr> u_String = (\<lambda>i. replicate i (CHR ''0'')), u_Parse = (\<lambda>s. Some (length s)) \<rparr>"

theorem job_walk_witness:
  "\<exists>items. walk (\<lambda>c. ListJobs witness_uuids ''s'' \<lparr> jf_Status = '''', jf_Queue = ''default'' \<rparr> c 1) ''''
     (snapshots cfg0 queued_db [[CancelReq 3 ''s'' 10]]) = (items, True) \<and> js_ID ` set items = {10} \<and> distinct (map js_ID items)"
proof -
  let ?f = "\<lparr> jf_Status = '''', jf_Queue = ''default'' \<rparr>" and ?ds = "snapshots cfg0 queued_db [[CancelReq 3 ''s'' 10]]"
  let ?w = "walk (\<lambda>c. ListJobs witness_uuids ''s'' ?f c 1) '''' ?ds"
  have "list_all (\<lambda>x. list_all (\<lambda>j. j_created_at j = 1 \<and> j_id j = 10) (db_jobs x)) ?ds" "year_of 1000 = 1970"
    by code_simp+
  then have c: "\<forall>x\<in>set ?ds. \<forall>j\<in>set (db_jobs x). cursor_ok witness_uuids (j_created_at j) (j_id j)"
    unfolding list_all_iff by (auto simp: cursor_ok_def witness_uuids_def)
  have f: "JobFilter_Validate ?f = None"
    by code_simp
  obtain items ended where w: "?w = (items, ended)"
    by fastforce
  have "snd ?w" "js_ID ` set (fst ?w) = {10}"
    by code_simp+
  then have "ended" "js_ID ` set items = {10}"
    unfolding w by simp_all
  moreover have "distinct (map js_ID items)"
    using job_walk [OF reach_queued f refl c w] by (rule conjunct1)
  ultimately show ?thesis
    unfolding w by simp
qed

section \<open>Whole listings\<close>

text \<open>Walking an unchanged database returns every matching job once and needs no more pages than the rows fill.\<close>

lemma job_walk_whole:
  assumes r: "reach cfg d" and f: "JobFilter_Validate f = None"
    and c: "\<forall>j\<in>set (db_jobs d). cursor_ok U (j_created_at j) (j_id j)"
    and n: "length (filter (job_matches scope f) (db_jobs d)) \<le> n * nat (boundPage limit)" "0 < n"
  shows "walk (\<lambda>c. ListJobs U scope f c limit) '''' (replicate n d)
    = (map job_summary (sort_key job_key (filter (job_matches scope f) (db_jobs d))), True)"
  using c by (intro job_pages.walk_whole [OF f _ n]) (simp add: job_keys_distinct [OF reach_ok [OF r]])

text \<open>The primary key of \<^verbatim>\<open>dlq_entries\<close> makes the order of the dead-letter listing strict.\<close>

lemma dlq_join_rows: "r \<in> set (dlq_join d) \<longleftrightarrow> fst r \<in> set (db_dlq d) \<and> get_job d (d_job_id (fst r)) = Some (fst (snd r))
    \<and> snd (snd r) = Option.bind (d_attempt_id (fst r)) (get_attempt d)"
  by (cases r) (auto simp: dlq_join_def map_filter_def image_iff)

lemma dlq_keys_distinct: "keys_distinct d_id (db_dlq d) \<Longrightarrow> distinct (map dlq_key (filter p (dlq_join d)))"
proof -
  assume k: "keys_distinct d_id (db_dlq d)"
  have h: "distinct (map (\<lambda>r. d_id (fst r)) (List.map_filter (\<lambda>e. map_option (\<lambda>j. (e, j, f e)) (g e)) t))" if "keys_distinct d_id t"
    for t :: "dlq_row list" and f :: "dlq_row \<Rightarrow> attempt_row option" and g :: "dlq_row \<Rightarrow> job_row option"
    using that by (induction t) (auto simp: map_filter_simps map_filter_def split: option.split)
  have "distinct (map (\<lambda>r. d_id (fst r)) (dlq_join d))"
    unfolding dlq_join_def by (rule h [OF k])
  then show ?thesis
    by (auto simp: distinct_map dlq_key_def newest_first_def inj_on_def)
qed

lemma dlq_walk_whole:
  assumes "keys_distinct d_id (db_dlq d)" and c: "\<forall>e\<in>set (db_dlq d). cursor_ok U (d_created_at e) (d_id e)"
    and n: "length (filter (\<lambda>r. d_scope (fst r) = scope) (dlq_join d)) \<le> n * nat (dlqBound limit)" "0 < n"
  shows "walk (\<lambda>c. ListDLQ U scope c limit) '''' (replicate n d)
    = (map (dlq_entry d) (sort_key dlq_key (filter (\<lambda>r. d_scope (fst r) = scope) (dlq_join d))), True)"
  using c by (intro dlq_pages.walk_whole [OF TrueI _ n]) (auto simp: dlq_keys_distinct [OF assms(1)] dlq_join_rows)

text \<open>No dead-lettered job is missing from the join: every entry has its job.\<close>

lemma dlq_join_complete:
  assumes "reach cfg d" and "e \<in> set (db_dlq d)"
  shows "\<exists>r\<in>set (dlq_join d). fst r = e"
proof -
  obtain j where "get_job d (d_job_id e) = Some j"
    using db_okD(6) [OF reach_ok [OF assms(1)]] assms(2) unfolding dlq_ok_def dlq_entry_ok_def by blast
  then show ?thesis
    by (intro bexI [of _ "(e, j, Option.bind (d_attempt_id e) (get_attempt d))"]) (simp_all add: dlq_join_rows assms(2))
qed

section \<open>Timelines and depths\<close>

lemma filter_key: "keys_distinct key t \<Longrightarrow> lookup key t k = Some r \<Longrightarrow> filter (\<lambda>x. key x = k) t = [r]"
proof (induction t)
  case (Cons x t)
  show ?case
  proof (cases "key x = k")
    case True
    then have "filter (\<lambda>x. key x = k) t = []"
      using Cons.prems(1) by (simp add: filter_empty_conv) (metis image_eqI)
    then show ?thesis
      using True Cons.prems(2) by (simp add: lookup_Cons)
  qed (use Cons in \<open>simp add: lookup_Cons\<close>)
qed simp

text \<open>The attempts of a job are listed in the order 1, 2, 3, and no more of them than the job allows.\<close>

lemma ListAttempts_timeline:
  assumes r: "reach cfg d" and j: "get_job d i = Some j" and s: "\<forall>a\<in>set (attempts_of d i). a_scope a = j_scope j"
  shows "ListAttempts (j_scope j) i d = Inr (map (attempt_view d) (attempts_of d i))"
    and "map a_number (attempts_of d i) = [1..int (length (attempts_of d i))]" and "int (length (attempts_of d i)) \<le> j_max_attempts j"
proof -
  show n: "map a_number (attempts_of d i) = [1..int (length (attempts_of d i))]" "int (length (attempts_of d i)) \<le> j_max_attempts j"
    using db_okD(5) [OF reach_ok [OF r]] j unfolding budget_ok_def by blast+
  have "filter (\<lambda>k. j_id k = i \<and> j_scope k = j_scope j) (db_jobs d) = [j]"
  proof -
    have "filter (\<lambda>k. j_id k = i) (db_jobs d) = [j]"
      using db_okD(1) [OF reach_ok [OF r]] j by (intro filter_key) (simp_all add: keys_ok_def)
    then have "filter (\<lambda>k. j_scope k = j_scope j) (filter (\<lambda>k. j_id k = i) (db_jobs d)) = [j]"
      by simp
    then show ?thesis
      by (simp add: conj_commute)
  qed
  moreover have "filter (\<lambda>a. a_job_id a = i \<and> a_scope a = j_scope j) (db_attempts d) = attempts_of d i"
    using s by (auto simp: attempts_of_def intro: filter_cong)
  moreover have "sort_key a_number (attempts_of d i) = attempts_of d i"
    using n(1) by (intro sort_key_id_if_sorted) simp
  ultimately have "attempt_join (j_scope j) i d = (if attempts_of d i = [] then [None] else map Some (attempts_of d i))"
    using lookup_key [OF j] by (simp add: attempt_join_def Let_def)
  then show "ListAttempts (j_scope j) i d = Inr (map (attempt_view d) (attempts_of d i))"
    by (simp add: ListAttempts_def Let_def map_filter_def o_def)
qed

lemma ListAttempts_not_found: "get_job d i = None \<Longrightarrow> ListAttempts scope i d = Inl NoSuchJob"
  by (auto simp: ListAttempts_def attempt_join_def Let_def lookup_None_iff filter_empty_conv)

text \<open>
  The loop over the joined rows of queues and counts computes, for every queue in order, the number of
  jobs of the scope in each status that is not terminal, zero included.
\<close>

definition set_depth :: "Status \<times> nat \<Rightarrow> (Status \<Rightarrow> nat option) \<Rightarrow> Status \<Rightarrow> nat option" where
  "set_depth g m = m(fst g \<mapsto> snd g)"

definition queue_view :: "string \<Rightarrow> db \<Rightarrow> queue_row \<Rightarrow> Queue" where
  "queue_view scope d q = \<lparr> qu_Name = q_name q, qu_WorkerGroup = q_worker_group q, qu_MaxConcurrency = q_max_concurrency q,
     qu_Depth = (\<lambda>s. if Terminal s then None
       else Some (count_where (\<lambda>j. j_scope j = scope \<and> j_queue j = q_name q \<and> j_status j = s) (db_jobs d))) \<rparr>"

lemma scan_known:
  assumes "byName (q_name q) = Some u"
  shows "fold scan_queue (map (\<lambda>g. (q, Some g)) gs) (ordered, byName)
    = (ordered, byName(q_name q \<mapsto> u\<lparr> qu_Depth := fold set_depth gs (qu_Depth u) \<rparr>))"
  using assms
proof (induction gs arbitrary: byName u)
  case (Cons g gs)
  have "scan_queue (q, Some g) (ordered, byName) = (ordered, byName(q_name q \<mapsto> u\<lparr> qu_Depth := set_depth g (qu_Depth u) \<rparr>))"
    using Cons.prems by (simp add: scan_queue_def Let_def set_depth_def case_prod_unfold)
  then show ?case
    using Cons.IH [of "byName(q_name q \<mapsto> u\<lparr> qu_Depth := set_depth g (qu_Depth u) \<rparr>)" "u\<lparr> qu_Depth := set_depth g (qu_Depth u) \<rparr>"]
    by (simp del: fun_upd_apply add: fun_upd_same)
qed (simp add: fun_upd_idem)

lemma fold_depths:
  "fold set_depth (filter (\<lambda>(_, n). 0 < n) (map (\<lambda>s. (s, c s)) ss)) m = (\<lambda>s. if s \<in> set ss \<and> 0 < c s then Some (c s) else m s)"
  by (induction ss arbitrary: m) (auto simp: set_depth_def fun_eq_iff)

lemma all_depths:
  "fold set_depth (depth_groups scope q d) zero_depth
    = (\<lambda>s. if Terminal s then None else Some (count_where (\<lambda>j. j_scope j = scope \<and> j_queue j = q \<and> j_status j = s) (db_jobs d)))"
  unfolding depth_groups_def fold_depths
proof
  fix s
  show "(if s \<in> set [StatusPending, StatusQueued, StatusLeased, StatusRunning, StatusRetryWait, StatusCancelRequested]
      \<and> 0 < count_where (\<lambda>j. j_scope j = scope \<and> j_queue j = q \<and> j_status j = s) (db_jobs d)
      then Some (count_where (\<lambda>j. j_scope j = scope \<and> j_queue j = q \<and> j_status j = s) (db_jobs d)) else zero_depth s)
    = (if Terminal s then None else Some (count_where (\<lambda>j. j_scope j = scope \<and> j_queue j = q \<and> j_status j = s) (db_jobs d)))"
    by (cases s) (simp_all add: zero_depth_def NonTerminalStatuses_def AllStatuses_def)
qed

lemma scan_queue_rows:
  assumes "byName (q_name q) = None"
  shows "fold scan_queue (let found = depth_groups scope (q_name q) d in if found = [] then [(q, None)] else map (\<lambda>g. (q, Some g)) found) (ordered, byName)
    = (ordered @ [q_name q], byName(q_name q \<mapsto> queue_view scope d q))"
proof (cases "depth_groups scope (q_name q) d")
  case Nil
  then show ?thesis
    using assms all_depths [of scope "q_name q" d] by (simp add: scan_queue_def Let_def queue_view_def)
next
  case (Cons g gs)
  let ?u = "\<lparr> qu_Name = q_name q, qu_WorkerGroup = q_worker_group q, qu_MaxConcurrency = q_max_concurrency q, qu_Depth = set_depth g zero_depth \<rparr>"
  have "scan_queue (q, Some g) (ordered, byName) = (ordered @ [q_name q], byName(q_name q \<mapsto> ?u))"
    using assms by (simp add: scan_queue_def Let_def set_depth_def case_prod_unfold)
  then show ?thesis
    using all_depths [of scope "q_name q" d] scan_known [of "byName(q_name q \<mapsto> ?u)" q ?u gs "ordered @ [q_name q]"]
    by (simp add: Cons queue_view_def)
qed

lemma scan_queues:
  assumes "distinct (map q_name qs)" and "\<forall>q\<in>set qs. byName (q_name q) = None"
  shows "fold scan_queue (concat (map (\<lambda>q. let found = depth_groups scope (q_name q) d in if found = [] then [(q, None)] else map (\<lambda>g. (q, Some g)) found) qs)) (ordered, byName)
    = (ordered @ map q_name qs, byName ++ map_of (map (\<lambda>q. (q_name q, queue_view scope d q)) qs))"
  using assms
proof (induction qs arbitrary: ordered byName)
  case (Cons q qs)
  have n: "q_name q \<notin> dom (map_of (map (\<lambda>q. (q_name q, queue_view scope d q)) qs))"
    using Cons.prems(1) by (simp add: dom_map_of_conv_image_fst image_image)
  have b: "\<forall>x\<in>set qs. (byName(q_name q \<mapsto> queue_view scope d q)) (q_name x) = None"
    using Cons.prems by (auto simp: rev_image_eqI)
  show ?case
    using Cons.prems Cons.IH [OF _ b, of "ordered @ [q_name q]"] scan_queue_rows [of byName q scope d ordered] n
    by (simp del: fun_upd_apply add: map_add_upd_left)
qed simp

theorem ListQueues_depths:
  assumes "keys_distinct q_name (db_queues d)"
  shows "ListQueues sortkey scope d = map (queue_view scope d) (sort_key (\<lambda>q. sortkey (q_name q)) (db_queues d))"
proof -
  let ?qs = "sort_key (\<lambda>q. sortkey (q_name q)) (db_queues d)"
  have k: "distinct (map q_name ?qs)"
    using assms mset_eq_imp_distinct_iff [of "map q_name ?qs" "map q_name (db_queues d)"] by simp
  have "map_of (map (\<lambda>q. (q_name q, queue_view scope d q)) ?qs) (q_name q) = Some (queue_view scope d q)" if "q \<in> set ?qs" for q
    using that k by (intro map_of_is_SomeI) (auto simp: o_def)
  then show ?thesis
    using scan_queues [OF k, of "\<lambda>_. None" scope d "[]"] by (simp add: ListQueues_def queue_join_def)
qed

end
