(* ===== verification/ControlApi.thy ===== *)
theory ControlApi
  imports Listing System
begin

text \<open>
  The internal worker-control surface of the API (\<^verbatim>\<open>internal/api/worker_control.go\<close>,
  \<^verbatim>\<open>internal/api/worker_auth.go\<close>): the bearer credential, the handlers of the eight operations with
  their parsing, scope resolution, revocation check and error mapping, over the tables of the
  stores and the tables of keys. A handler starts from the decoded JSON body; the clock samples and
  identifiers its transaction draws are arguments. Log lines and metrics are left out.
\<close>

section \<open>Replies\<close>

text \<open>
  A response: its status with a body, or its status with the stable error code and the fields a
  validation names.
\<close>

datatype 'a reply = Reply int 'a | Refusal int string "(string \<times> string) list"

definition CodeValidationFailed :: string where "CodeValidationFailed = ''validation_failed''"
definition CodeUnknownQueue :: string where "CodeUnknownQueue = ''unknown_queue''"
definition CodeUnauthorized :: string where "CodeUnauthorized = ''unauthorized''"
definition CodeInternal :: string where "CodeInternal = ''internal_error''"
definition CodeServiceUnavailable :: string where "CodeServiceUnavailable = ''service_unavailable''"
definition CodeSessionConflict :: string where "CodeSessionConflict = ''worker_session_conflict''"
definition CodeSessionUnavailable :: string where "CodeSessionUnavailable = ''worker_session_unavailable''"
definition CodeClaimConflict :: string where "CodeClaimConflict = ''claim_conflict''"
definition CodeFenceRejected :: string where "CodeFenceRejected = ''fence_rejected''"
definition CodeLeaseExpired :: string where "CodeLeaseExpired = ''lease_expired''"
definition CodeStateConflict :: string where "CodeStateConflict = ''state_conflict''"
definition CodeRenewalConflict :: string where "CodeRenewalConflict = ''renewal_conflict''"
definition CodeAttemptTimedOut :: string where "CodeAttemptTimedOut = ''attempt_timed_out''"
definition CodeOutcomeConflict :: string where "CodeOutcomeConflict = ''outcome_conflict''"
definition CodeCancellationRequested :: string where "CodeCancellationRequested = ''cancellation_requested''"

definition writeWorkerValidation :: "(string \<times> string) list \<Rightarrow> 'a reply" where
  "writeWorkerValidation probs = Refusal 422 CodeValidationFailed probs"

definition writeWorkerKeyUnauthorized :: "'a reply" where
  "writeWorkerKeyUnauthorized = Refusal 401 CodeUnauthorized []"

fun writeWorkerControlError :: "store_error \<Rightarrow> 'a reply" where
  "writeWorkerControlError (ErrValidation probs) = writeWorkerValidation probs"
| "writeWorkerControlError ErrUnknownQueue = Refusal 422 CodeUnknownQueue []"
| "writeWorkerControlError ErrSessionConflict = Refusal 409 CodeSessionConflict []"
| "writeWorkerControlError ErrSessionUnavailable = Refusal 409 CodeSessionUnavailable []"
| "writeWorkerControlError ErrClaimConflict = Refusal 409 CodeClaimConflict []"
| "writeWorkerControlError ErrFenceRejected = Refusal 409 CodeFenceRejected []"
| "writeWorkerControlError ErrLeaseExpired = Refusal 409 CodeLeaseExpired []"
| "writeWorkerControlError ErrStateConflict = Refusal 409 CodeStateConflict []"
| "writeWorkerControlError ErrRenewalConflict = Refusal 409 CodeRenewalConflict []"
| "writeWorkerControlError ErrAttemptTimedOut = Refusal 409 CodeAttemptTimedOut []"
| "writeWorkerControlError ErrCancellationRequested = Refusal 409 CodeCancellationRequested []"
| "writeWorkerControlError ErrOutcomeConflict = Refusal 409 CodeOutcomeConflict []"
| "writeWorkerControlError ErrDeadlineExceeded = Refusal 503 CodeServiceUnavailable []"
| "writeWorkerControlError _ = Refusal 500 CodeInternal []"

section \<open>Credentials of a request\<close>

definition bearerScheme :: string where "bearerScheme = ''bearer''"
definition maxAuthorizationHeaderLen :: nat where "maxAuthorizationHeaderLen = length bearerScheme + 1 + MaxCredentialLen"

text \<open>\<^verbatim>\<open>strings.EqualFold\<close> against a lower-case ASCII word without k or s folds the ASCII letters only.\<close>

definition ascii_lower :: "char \<Rightarrow> char" where
  "ascii_lower c = (if 65 \<le> byte c \<and> byte c \<le> 90 then chr (byte c + 32) else c)"

definition bearerCredential :: "string \<Rightarrow> string option" where
  "bearerCredential header = (if header = '''' \<or> length header > maxAuthorizationHeaderLen then None
     else case strings_Cut header (CHR '' '') of
       None \<Rightarrow> None
     | Some (scheme, credential0) \<Rightarrow>
         if map ascii_lower scheme \<noteq> bearerScheme then None
         else let credential = dropWhile (\<lambda>c. c = CHR '' '') credential0
              in if credential = '''' then None else Some credential)"

text \<open>
  The server: its tables, and whether the stores of worker keys is wired (\<^verbatim>\<open>s.workerKeys != nil\<close>).
\<close>

record server =
  sv_db :: db
  sv_keys :: key_db
  sv_workerKeys :: bool

definition requireWorkerKey :: "string \<Rightarrow> (Principal \<Rightarrow> server \<Rightarrow> 'a reply \<times> server) \<Rightarrow> server \<Rightarrow> 'a reply \<times> server" where
  "requireWorkerKey header next s = (if \<not> sv_workerKeys s then (writeWorkerKeyUnauthorized, s)
     else case bearerCredential header of
       None \<Rightarrow> (writeWorkerKeyUnauthorized, s)
     | Some credential \<Rightarrow> (case workerauth_Authenticate credential (sv_keys s) of
         Inr pr \<Rightarrow> next pr s
       | Inl KeyUnauthorized \<Rightarrow> (writeWorkerKeyUnauthorized, s)
       | Inl _ \<Rightarrow> (Refusal 500 CodeInternal [], s)))"

definition resolveWorkerControlScope :: "uuid \<Rightarrow> server \<Rightarrow> 'a reply + string" where
  "resolveWorkerControlScope sessionID s = (case SessionScope sessionID (sv_db s) of
     Inl e \<Rightarrow> Inl (writeWorkerControlError e)
   | Inr (scope, None) \<Rightarrow> Inr scope
   | Inr (scope, Some workerKeyID) \<Rightarrow>
       if \<not> sv_workerKeys s then Inl writeWorkerKeyUnauthorized
       else if IsRevoked workerKeyID (sv_keys s) then Inl writeWorkerKeyUnauthorized
       else Inr scope)"

text \<open>A transaction of a store, its answer rendered or its error mapped.\<close>

definition respond :: "('a \<Rightarrow> 'b reply) \<Rightarrow> store_error + ('a \<times> db) \<Rightarrow> server \<Rightarrow> 'b reply \<times> server" where
  "respond render r s = (case r of
     Inl e \<Rightarrow> (writeWorkerControlError e, s)
   | Inr (a, d) \<Rightarrow> (render a, s\<lparr> sv_db := d \<rparr>))"

definition in_scope :: "uuid \<Rightarrow> (string \<Rightarrow> 'a reply \<times> server) \<Rightarrow> server \<Rightarrow> 'a reply \<times> server" where
  "in_scope sessionID act s = (case resolveWorkerControlScope sessionID s of Inl refusal \<Rightarrow> (refusal, s) | Inr scope \<Rightarrow> act scope)"

section \<open>Requests and responses\<close>

text \<open>\<^verbatim>\<open>uuid.Parse\<close> of a field; a field that does not parse is reported and stands for the zero UUID.\<close>

definition parse_field :: "uuid_text \<Rightarrow> string \<Rightarrow> string \<Rightarrow> (string \<times> string) list" where
  "parse_field U field text = (case u_Parse U text of None \<Rightarrow> [(field, ''must be a UUID'')] | Some _ \<Rightarrow> [])"

definition parsed :: "uuid_text \<Rightarrow> string \<Rightarrow> uuid" where
  "parsed U text = (case u_Parse U text of None \<Rightarrow> uuid_Nil | Some i \<Rightarrow> i)"

record registerWorkerSessionRequest =
  rg_WorkerName :: string
  rg_Hostname :: string
  rg_WorkerGroup :: string
  rg_ConcurrencyLimit :: int
  rg_Capabilities :: "string list"
  rg_SupportedJobTypes :: "string list"

record fenceRequest =
  fq_JobID :: string
  fq_LeaseID :: string
  fq_WorkerID :: string
  fq_WorkerSessionID :: string

definition parseFence :: "uuid_text \<Rightarrow> string \<Rightarrow> fenceRequest \<Rightarrow> Fence \<times> (string \<times> string) list" where
  "parseFence U attempt q =
     (\<lparr> JobID = parsed U (fq_JobID q), AttemptID = parsed U attempt, LeaseID = parsed U (fq_LeaseID q),
        WorkerID = parsed U (fq_WorkerID q), SessionID = parsed U (fq_WorkerSessionID q) \<rparr>,
      parse_field U ''attempt_id'' attempt @ parse_field U ''job_id'' (fq_JobID q) @ parse_field U ''lease_id'' (fq_LeaseID q)
      @ parse_field U ''worker_id'' (fq_WorkerID q) @ parse_field U ''worker_session_id'' (fq_WorkerSessionID q))"

record renewLeaseRequest =
  rl_Fence :: fenceRequest
  rl_AttemptID :: string
  rl_RenewalRequestID :: string
  rl_ExpectedRenewalVersion :: int

definition parseRenewalRequest :: "uuid_text \<Rightarrow> string \<Rightarrow> renewLeaseRequest \<Rightarrow> RenewalRequest \<times> (string \<times> string) list" where
  "parseRenewalRequest U leaseID q =
     (\<lparr> rq_Fence = \<lparr> JobID = parsed U (fq_JobID (rl_Fence q)), AttemptID = parsed U (rl_AttemptID q), LeaseID = parsed U leaseID,
          WorkerID = parsed U (fq_WorkerID (rl_Fence q)), SessionID = parsed U (fq_WorkerSessionID (rl_Fence q)) \<rparr>,
        rq_RenewalRequestID = parsed U (rl_RenewalRequestID q), rq_ExpectedVersion = rl_ExpectedRenewalVersion q \<rparr>,
      parse_field U ''lease_id'' leaseID @ parse_field U ''job_id'' (fq_JobID (rl_Fence q))
      @ parse_field U ''attempt_id'' (rl_AttemptID q) @ parse_field U ''worker_id'' (fq_WorkerID (rl_Fence q))
      @ parse_field U ''worker_session_id'' (fq_WorkerSessionID (rl_Fence q))
      @ parse_field U ''renewal_request_id'' (rl_RenewalRequestID q)
      @ (if rl_ExpectedRenewalVersion q < 0 then [(''expected_renewal_version'', ''must not be negative'')] else []))"

record claimRequest =
  cq_WorkerID :: string
  cq_WorkerSessionID :: string
  cq_ClaimRequestID :: string
  cq_Queue :: string

definition parseClaimRequest :: "uuid_text \<Rightarrow> claimRequest \<Rightarrow> ClaimRequest \<times> (string \<times> string) list" where
  "parseClaimRequest U q =
     (let req = \<lparr> cr_WorkerID = parsed U (cq_WorkerID q), cr_SessionID = parsed U (cq_WorkerSessionID q),
                  cr_ClaimRequestID = parsed U (cq_ClaimRequestID q), cr_Queue = cq_Queue q \<rparr>
      in (req, case ValidateClaim req of Some (ErrValidation probs) \<Rightarrow> probs | _ \<Rightarrow> []))"

record resultPayload =
  rp_Location :: Location
  rp_InlineBody :: "string option"
  rp_ObjectBucket :: string
  rp_ObjectKey :: string
  rp_SizeBytes :: int
  rp_ChecksumSHA256 :: string

definition parseResultPayload :: "resultPayload option \<Rightarrow> ResultRef option \<times> (string \<times> string) list" where
  "parseResultPayload payload = (case payload of
     None \<Rightarrow> (None, [])
   | Some p \<Rightarrow>
       let ref = \<lparr> rr_Location = rp_Location p, rr_Inline = rp_InlineBody p, rr_Bucket = rp_ObjectBucket p, rr_Key = rp_ObjectKey p,
                   rr_SizeBytes = rp_SizeBytes p, rr_Checksum = rp_ChecksumSHA256 p \<rparr>;
           check = \<lparr> r_job_id = uuid_Nil, r_attempt_id = uuid_Nil, r_scope = '''', r_location = rr_Location ref, r_inline = rr_Inline ref,
                     r_bucket = rr_Bucket ref, r_key = rr_Key ref, r_size = rr_SizeBytes ref, r_checksum = rr_Checksum ref \<rparr>
       in if \<not> Result_Validate check then (None, [(''result'', ''invalid result'')]) else (Some ref, []))"

record WorkerSessionResponse =
  wr_WorkerID :: string
  wr_WorkerSessionID :: string
  wr_WorkerName :: string
  wr_Hostname :: string
  wr_WorkerGroup :: string
  wr_ConcurrencyLimit :: int
  wr_Capabilities :: "string list"
  wr_SupportedJobTypes :: "string list"
  wr_Status :: SessionStatus
  wr_RegisteredAt :: ts
  wr_LastHeartbeatAt :: ts

text \<open>A session that registered carries the normalized name of the registration.\<close>

definition toWorkerSessionResponse :: "uuid_text \<Rightarrow> string \<Rightarrow> session_row \<Rightarrow> WorkerSessionResponse" where
  "toWorkerSessionResponse U name s = \<lparr> wr_WorkerID = u_String U (s_worker_id s), wr_WorkerSessionID = u_String U (s_id s), wr_WorkerName = name,
     wr_Hostname = s_hostname s, wr_WorkerGroup = s_worker_group s, wr_ConcurrencyLimit = s_concurrency_limit s,
     wr_Capabilities = s_capabilities s, wr_SupportedJobTypes = s_supported_job_types s, wr_Status = s_status s,
     wr_RegisteredAt = s_registered_at s, wr_LastHeartbeatAt = s_last_heartbeat_at s \<rparr>"

record CancellationDirectiveResponse =
  cn_JobID :: string
  cn_AttemptID :: string
  cn_LeaseID :: string
  cn_CancelRequestedAt :: "ts option"

record HeartbeatResponse =
  he_WorkerSessionID :: string
  he_Status :: SessionStatus
  he_LastHeartbeatAt :: ts
  he_Cancellations :: "CancellationDirectiveResponse list"

definition toHeartbeatResponse :: "uuid_text \<Rightarrow> HeartbeatResult \<Rightarrow> HeartbeatResponse" where
  "toHeartbeatResponse U r = \<lparr> he_WorkerSessionID = u_String U (hr_SessionID r), he_Status = hr_Status r,
     he_LastHeartbeatAt = hr_LastHeartbeatAt r,
     he_Cancellations = map (\<lambda>c. \<lparr> cn_JobID = u_String U (cd_JobID c), cn_AttemptID = u_String U (cd_AttemptID c),
       cn_LeaseID = u_String U (cd_LeaseID c), cn_CancelRequestedAt = cd_CancelRequestedAt c \<rparr>) (hr_Cancellations r) \<rparr>"

text \<open>\<^verbatim>\<open>Duration.Milliseconds\<close>.\<close>

definition Milliseconds :: "dur \<Rightarrow> int" where
  "Milliseconds d = go_div d Millisecond"

record RenewalResponse =
  ro_LeaseID :: string
  ro_RenewalVersion :: int
  ro_LeaseExpiresAt :: ts
  ro_LeaseRemainingMillis :: int
  ro_Replayed :: bool

definition toRenewalResponse :: "uuid_text \<Rightarrow> RenewalResult \<Rightarrow> RenewalResponse" where
  "toRenewalResponse U r = \<lparr> ro_LeaseID = u_String U (rn_LeaseID r), ro_RenewalVersion = rn_RenewalVersion r,
     ro_LeaseExpiresAt = rn_ExpiresAt r, ro_LeaseRemainingMillis = Milliseconds (rn_Remaining r), ro_Replayed = rn_Replayed r \<rparr>"

record AssignmentResponse =
  ar_Scope :: string
  ar_JobID :: string
  ar_Queue :: string
  ar_JobType :: string
  ar_Payload :: string
  ar_Priority :: int
  ar_TimeoutSeconds :: int
  ar_RequiredCapabilities :: "string list"
  ar_AttemptID :: string
  ar_AttemptNumber :: int
  ar_LeaseID :: string
  ar_LeaseExpiresAt :: ts
  ar_LeaseRemainingMillis :: int
  ar_WorkerID :: string
  ar_WorkerSessionID :: string

record ClaimResponse =
  cp_Outcome :: ClaimDisposition
  cp_SafeToAcknowledge :: bool
  cp_Replayed :: bool
  cp_Assignment :: "AssignmentResponse option"

definition toAssignmentResponse :: "uuid_text \<Rightarrow> Assignment \<Rightarrow> AssignmentResponse" where
  "toAssignmentResponse U a = \<lparr> ar_Scope = as_Scope a, ar_JobID = u_String U (as_JobID a), ar_Queue = as_Queue a,
     ar_JobType = as_JobType a, ar_Payload = as_Payload a, ar_Priority = as_Priority a, ar_TimeoutSeconds = as_TimeoutSeconds a,
     ar_RequiredCapabilities = as_RequiredCapabilities a, ar_AttemptID = u_String U (as_AttemptID a),
     ar_AttemptNumber = as_AttemptNumber a, ar_LeaseID = u_String U (as_LeaseID a), ar_LeaseExpiresAt = as_LeaseExpiresAt a,
     ar_LeaseRemainingMillis = Milliseconds (as_LeaseRemaining a), ar_WorkerID = u_String U (as_WorkerID a),
     ar_WorkerSessionID = u_String U (as_SessionID a) \<rparr>"

definition toClaimResponse :: "uuid_text \<Rightarrow> ClaimResult \<Rightarrow> ClaimResponse" where
  "toClaimResponse U r = \<lparr> cp_Outcome = res_Disposition r, cp_SafeToAcknowledge = SafeToAcknowledge r, cp_Replayed = res_Replayed r,
     cp_Assignment = map_option (toAssignmentResponse U) (res_Assignment r) \<rparr>"

record StartResponse =
  so_AttemptID :: string
  so_StartedAt :: "ts option"
  so_AttemptTimeoutAt :: ts
  so_AttemptTimeoutRemainingMillis :: int
  so_Replayed :: bool

definition toStartResponse :: "uuid_text \<Rightarrow> StartResult \<Rightarrow> StartResponse" where
  "toStartResponse U r = \<lparr> so_AttemptID = u_String U (sr_AttemptID r), so_StartedAt = sr_StartedAt r,
     so_AttemptTimeoutAt = sr_TimeoutAt r, so_AttemptTimeoutRemainingMillis = Milliseconds (sr_Remaining r), so_Replayed = sr_Replayed r \<rparr>"

record OutcomeResponse =
  oo_JobID :: string
  oo_JobStatus :: Status
  oo_AttemptStatus :: AttemptStatus
  oo_RetryAt :: "ts option"
  oo_RetryDelayMillis :: "int option"
  oo_DeadLetterReason :: "DLQReason option"
  oo_Replayed :: bool

definition toOutcomeResponse :: "uuid_text \<Rightarrow> OutcomeResult \<Rightarrow> OutcomeResponse" where
  "toOutcomeResponse U r = \<lparr> oo_JobID = u_String U (out_JobID r), oo_JobStatus = out_JobStatus r, oo_AttemptStatus = out_AttemptStatus r,
     oo_RetryAt = out_RetryAt r, oo_RetryDelayMillis = map_option Milliseconds (out_RetryDelay r),
     oo_DeadLetterReason = (if out_DeadLetterReason r \<noteq> ReasonOther '''' then Some (out_DeadLetterReason r) else None),
     oo_Replayed = out_Replayed r \<rparr>"

section \<open>Handlers\<close>

definition handleRegisterWorkerSession :: "uuid_text \<Rightarrow> reg_clock \<Rightarrow> uuid \<Rightarrow> string \<Rightarrow> string \<Rightarrow> registerWorkerSessionRequest \<Rightarrow> server
    \<Rightarrow> WorkerSessionResponse reply \<times> server" where
  "handleRegisterWorkerSession U rc wid header session q = requireWorkerKey header (\<lambda>pr s.
     case u_Parse U session of
       None \<Rightarrow> (writeWorkerValidation [(''worker_session_id'', ''must be a UUID'')], s)
     | Some sessionID \<Rightarrow> respond (\<lambda>r. Reply 200 (toWorkerSessionResponse U (TrimSpace (rg_WorkerName q)) r))
         (Register rc wid (pr_Scope pr)
            \<lparr> reg_SessionID = sessionID, reg_Name = rg_WorkerName q, reg_Hostname = rg_Hostname q,
              reg_WorkerGroup = rg_WorkerGroup q, reg_ConcurrencyLimit = rg_ConcurrencyLimit q,
              reg_Capabilities = rg_Capabilities q, reg_SupportedJobTypes = rg_SupportedJobTypes q,
              reg_WorkerKeyID = Some (pr_KeyID pr) \<rparr> (sv_db s)) s)"

definition handleHeartbeat :: "uuid_text \<Rightarrow> ts \<Rightarrow> string \<Rightarrow> string \<Rightarrow> server \<Rightarrow> HeartbeatResponse reply \<times> server" where
  "handleHeartbeat U now session worker s =
     (let probs = parse_field U ''worker_session_id'' session @ parse_field U ''worker_id'' worker in
      if probs \<noteq> [] then (writeWorkerValidation probs, s)
      else in_scope (parsed U session) (\<lambda>scope. respond (\<lambda>r. Reply 200 (toHeartbeatResponse U r))
        (Heartbeat now scope \<lparr> hb_WorkerID = parsed U worker, hb_SessionID = parsed U session \<rparr> (sv_db s)) s) s)"

definition handleRenewLease :: "uuid_text \<Rightarrow> store_cfg \<Rightarrow> ts \<Rightarrow> string \<Rightarrow> renewLeaseRequest \<Rightarrow> server \<Rightarrow> RenewalResponse reply \<times> server" where
  "handleRenewLease U cfg now lease q s = (case parseRenewalRequest U lease q of (req, probs) \<Rightarrow>
     if probs \<noteq> [] then (writeWorkerValidation probs, s)
     else in_scope (SessionID (rq_Fence req)) (\<lambda>scope. respond (\<lambda>r. Reply 200 (toRenewalResponse U r))
       (RenewLease (cfg_leaseDuration cfg) now scope req (sv_db s)) s) s)"

definition handleClaim :: "uuid_text \<Rightarrow> store_cfg \<Rightarrow> claim_clock \<Rightarrow> uuid \<Rightarrow> uuid \<Rightarrow> claimRequest \<Rightarrow> server \<Rightarrow> ClaimResponse reply \<times> server" where
  "handleClaim U cfg ck aid lid q s = (case parseClaimRequest U q of (req, probs) \<Rightarrow>
     if probs \<noteq> [] then (writeWorkerValidation probs, s)
     else in_scope (cr_SessionID req) (\<lambda>scope. respond (\<lambda>r. Reply 200 (toClaimResponse U r))
       (Claim ck (cfg_leaseDuration cfg) aid lid scope req (sv_db s)) s) s)"

definition handleStartAttempt :: "uuid_text \<Rightarrow> ts \<Rightarrow> string \<Rightarrow> fenceRequest \<Rightarrow> server \<Rightarrow> StartResponse reply \<times> server" where
  "handleStartAttempt U now attempt q s = (case parseFence U attempt q of (fence, probs) \<Rightarrow>
     if probs \<noteq> [] then (writeWorkerValidation probs, s)
     else in_scope (SessionID fence) (\<lambda>scope. respond (\<lambda>r. Reply 200 (toStartResponse U r))
       (Start now scope fence (sv_db s)) s) s)"

definition handleSucceedAttempt :: "uuid_text \<Rightarrow> ts \<Rightarrow> string \<Rightarrow> fenceRequest \<Rightarrow> resultPayload option \<Rightarrow> server \<Rightarrow> unit reply \<times> server" where
  "handleSucceedAttempt U now attempt q payload s = (case parseFence U attempt q of (fence, fenceProbs) \<Rightarrow>
     case parseResultPayload payload of (result, resultProbs) \<Rightarrow>
       let probs = fenceProbs @ resultProbs in
       if probs \<noteq> [] then (writeWorkerValidation probs, s)
       else in_scope (SessionID fence) (\<lambda>scope. respond (\<lambda>_. Reply 204 ()) (Succeed now scope fence result (sv_db s)) s) s)"

record failAttemptRequest =
  fa_Fence :: fenceRequest
  fa_OutcomeRequestID :: string
  fa_FailureClass :: FailureClass
  fa_ErrorCode :: string
  fa_ErrorMessage :: string

definition handleFailAttempt :: "uuid_text \<Rightarrow> store_cfg \<Rightarrow> tx_input \<Rightarrow> string \<Rightarrow> failAttemptRequest \<Rightarrow> server \<Rightarrow> OutcomeResponse reply \<times> server" where
  "handleFailAttempt U cfg ti attempt q s = (case parseFence U attempt (fa_Fence q) of (fence, fenceProbs) \<Rightarrow>
     let probs = fenceProbs @ parse_field U ''outcome_request_id'' (fa_OutcomeRequestID q) in
     if probs \<noteq> [] then (writeWorkerValidation probs, s)
     else in_scope (SessionID fence) (\<lambda>scope. respond (\<lambda>r. Reply 200 (toOutcomeResponse U r))
       (Fail cfg ti scope \<lparr> fr_Fence = fence, fr_OutcomeRequestID = parsed U (fa_OutcomeRequestID q), fr_Class = fa_FailureClass q,
          fr_ErrorCode = fa_ErrorCode q, fr_ErrorMessage = fa_ErrorMessage q \<rparr> (sv_db s)) s) s)"

definition handleCancelAttempt :: "uuid_text \<Rightarrow> ts \<Rightarrow> string \<Rightarrow> fenceRequest \<Rightarrow> string \<Rightarrow> server \<Rightarrow> OutcomeResponse reply \<times> server" where
  "handleCancelAttempt U now attempt q outcome s = (case parseFence U attempt q of (fence, fenceProbs) \<Rightarrow>
     let probs = fenceProbs @ parse_field U ''outcome_request_id'' outcome in
     if probs \<noteq> [] then (writeWorkerValidation probs, s)
     else in_scope (SessionID fence) (\<lambda>scope. respond (\<lambda>r. Reply 200 (toOutcomeResponse U r))
       (AcknowledgeCancellation now scope \<lparr> ca_Fence = fence, ca_OutcomeRequestID = parsed U outcome \<rparr> (sv_db s)) s) s)"

end
