(* ===== verification/ControlClient.thy ===== *)
theory ControlClient
  imports ControlApi
begin

text \<open>
  The worker's client of the control plane (\<^verbatim>\<open>internal/worker/client.go\<close>): the request each call sends,
  and the checks a response has to pass before the worker acts on it. Bodies travel as the records
  they encode. What the client accepts is what the store committed, with durations cut to whole
  milliseconds.
\<close>

section \<open>Errors of a call\<close>

text \<open>
  A refusal of the API, an error of the store when it is called in process, or anything else: a failed
  transport, a deadline, a response that is not an answer to the request.
\<close>

datatype call_error = RemoteError int string | StoreError store_error | OtherError

fun RemoteError_Retryable :: "call_error \<Rightarrow> bool" where
  "RemoteError_Retryable (RemoteError status code) = (status = 429 \<or> status \<ge> 500)"
| "RemoteError_Retryable _ = True"

section \<open>Requests\<close>

definition fenceBody :: "uuid_text \<Rightarrow> Fence \<Rightarrow> fenceRequest" where
  "fenceBody U f = \<lparr> fq_JobID = u_String U (JobID f), fq_LeaseID = u_String U (LeaseID f), fq_WorkerID = u_String U (WorkerID f),
     fq_WorkerSessionID = u_String U (SessionID f) \<rparr>"

definition claimBody :: "uuid_text \<Rightarrow> ClaimRequest \<Rightarrow> claimRequest" where
  "claimBody U r = \<lparr> cq_WorkerID = u_String U (cr_WorkerID r), cq_WorkerSessionID = u_String U (cr_SessionID r),
     cq_ClaimRequestID = u_String U (cr_ClaimRequestID r), cq_Queue = cr_Queue r \<rparr>"

definition renewBody :: "uuid_text \<Rightarrow> RenewalRequest \<Rightarrow> renewLeaseRequest" where
  "renewBody U r = \<lparr> rl_Fence = fenceBody U (rq_Fence r), rl_AttemptID = u_String U (AttemptID (rq_Fence r)),
     rl_RenewalRequestID = u_String U (rq_RenewalRequestID r), rl_ExpectedRenewalVersion = rq_ExpectedVersion r \<rparr>"

definition failBody :: "uuid_text \<Rightarrow> FailureReport \<Rightarrow> failAttemptRequest" where
  "failBody U r = \<lparr> fa_Fence = fenceBody U (fr_Fence r), fa_OutcomeRequestID = u_String U (fr_OutcomeRequestID r),
     fa_FailureClass = fr_Class r, fa_ErrorCode = fr_ErrorCode r, fa_ErrorMessage = fr_ErrorMessage r \<rparr>"

definition toResultPayload :: "ResultRef option \<Rightarrow> resultPayload option" where
  "toResultPayload r = (case r of None \<Rightarrow> None
     | Some ref \<Rightarrow> Some \<lparr> rp_Location = rr_Location ref, rp_InlineBody = rr_Inline ref, rp_ObjectBucket = rr_Bucket ref,
         rp_ObjectKey = rr_Key ref, rp_SizeBytes = rr_SizeBytes ref, rp_ChecksumSHA256 = rr_Checksum ref \<rparr>)"

section \<open>Responses\<close>

definition parse_uuid :: "uuid_text \<Rightarrow> string \<Rightarrow> call_error + uuid" where
  "parse_uuid U text = (case u_Parse U text of None \<Rightarrow> Inl OtherError | Some i \<Rightarrow> Inr i)"

definition sum_bind :: "'e + 'a \<Rightarrow> ('a \<Rightarrow> 'e + 'b) \<Rightarrow> 'e + 'b" where
  "sum_bind r f = (case r of Inl e \<Rightarrow> Inl e | Inr a \<Rightarrow> f a)"

fun parseCancellationDirectives :: "uuid_text \<Rightarrow> CancellationDirectiveResponse list \<Rightarrow> call_error + CancellationDirective list" where
  "parseCancellationDirectives U [] = Inr []"
| "parseCancellationDirectives U (c # cs) =
     sum_bind (parse_uuid U (cn_JobID c)) (\<lambda>job. sum_bind (parse_uuid U (cn_AttemptID c)) (\<lambda>attempt.
     sum_bind (parse_uuid U (cn_LeaseID c)) (\<lambda>lease. sum_bind (parseCancellationDirectives U cs) (\<lambda>rest.
       Inr (\<lparr> cd_JobID = job, cd_AttemptID = attempt, cd_LeaseID = lease, cd_CancelRequestedAt = cn_CancelRequestedAt c \<rparr> # rest)))))"

definition parseHeartbeat :: "uuid_text \<Rightarrow> HeartbeatRequest \<Rightarrow> HeartbeatResponse \<Rightarrow> call_error + HeartbeatResult" where
  "parseHeartbeat U req resp = sum_bind (parse_uuid U (he_WorkerSessionID resp)) (\<lambda>sessionID.
     if sessionID \<noteq> hb_SessionID req then Inl OtherError
     else if he_Status resp \<noteq> SessionHealthy then Inl OtherError
     else sum_bind (parseCancellationDirectives U (he_Cancellations resp)) (\<lambda>directives.
       Inr \<lparr> hr_SessionID = sessionID, hr_Status = he_Status resp, hr_LastHeartbeatAt = he_LastHeartbeatAt resp,
             hr_Cancellations = directives \<rparr>))"

definition parseRenewal :: "uuid_text \<Rightarrow> RenewalRequest \<Rightarrow> RenewalResponse \<Rightarrow> call_error + RenewalResult" where
  "parseRenewal U req resp = sum_bind (parse_uuid U (ro_LeaseID resp)) (\<lambda>leaseID.
     if leaseID \<noteq> LeaseID (rq_Fence req) then Inl OtherError
     else if ro_RenewalVersion resp \<noteq> rq_ExpectedVersion req + 1 then Inl OtherError
     else if ro_LeaseRemainingMillis resp < 0 then Inl OtherError
     else Inr \<lparr> rn_LeaseID = leaseID, rn_RenewalVersion = ro_RenewalVersion resp, rn_ExpiresAt = ro_LeaseExpiresAt resp,
                rn_Remaining = ro_LeaseRemainingMillis resp * Millisecond, rn_Replayed = ro_Replayed resp \<rparr>)"

definition validateClaimResponse :: "ClaimResponse \<Rightarrow> bool" where
  "validateClaimResponse resp = (let hasAssignment = (cp_Assignment resp \<noteq> None) in
     case cp_Outcome resp of
       Claimed \<Rightarrow> \<not> (\<not> hasAssignment \<or> \<not> cp_SafeToAcknowledge resp)
     | QueueEmpty \<Rightarrow> \<not> (hasAssignment \<or> \<not> cp_SafeToAcknowledge resp)
     | DuplicateNotification \<Rightarrow> \<not> (hasAssignment \<or> \<not> cp_SafeToAcknowledge resp)
     | NoEligibleJob \<Rightarrow> \<not> (hasAssignment \<or> cp_SafeToAcknowledge resp)
     | CapacityExhausted \<Rightarrow> \<not> (hasAssignment \<or> cp_SafeToAcknowledge resp))"

definition parseAssignment :: "uuid_text \<Rightarrow> AssignmentResponse \<Rightarrow> call_error + Assignment" where
  "parseAssignment U a = (if ar_LeaseRemainingMillis a < 0 then Inl OtherError else
     sum_bind (parse_uuid U (ar_JobID a)) (\<lambda>job. sum_bind (parse_uuid U (ar_AttemptID a)) (\<lambda>attempt.
     sum_bind (parse_uuid U (ar_LeaseID a)) (\<lambda>lease. sum_bind (parse_uuid U (ar_WorkerID a)) (\<lambda>worker.
     sum_bind (parse_uuid U (ar_WorkerSessionID a)) (\<lambda>session.
       Inr \<lparr> as_Scope = ar_Scope a, as_JobID = job, as_Queue = ar_Queue a, as_JobType = ar_JobType a, as_Payload = ar_Payload a,
             as_Priority = ar_Priority a, as_TimeoutSeconds = ar_TimeoutSeconds a, as_RequiredCapabilities = ar_RequiredCapabilities a,
             as_AttemptID = attempt, as_AttemptNumber = ar_AttemptNumber a, as_LeaseID = lease, as_LeaseExpiresAt = ar_LeaseExpiresAt a,
             as_LeaseRemaining = ar_LeaseRemainingMillis a * Millisecond, as_WorkerID = worker, as_SessionID = session \<rparr>))))))"

definition parseClaim :: "uuid_text \<Rightarrow> ClaimRequest \<Rightarrow> ClaimResponse \<Rightarrow> call_error + ClaimResult" where
  "parseClaim U req resp = (if \<not> validateClaimResponse resp then Inl OtherError
     else case cp_Assignment resp of
       None \<Rightarrow> Inr \<lparr> res_Disposition = cp_Outcome resp, res_Assignment = None, res_Replayed = cp_Replayed resp \<rparr>
     | Some a \<Rightarrow> sum_bind (parseAssignment U a) (\<lambda>assignment.
         if as_WorkerID assignment \<noteq> cr_WorkerID req \<or> as_SessionID assignment \<noteq> cr_SessionID req
            \<or> as_Queue assignment \<noteq> cr_Queue req then Inl OtherError
         else Inr \<lparr> res_Disposition = cp_Outcome resp, res_Assignment = Some assignment, res_Replayed = cp_Replayed resp \<rparr>))"

definition parseStartResult :: "uuid_text \<Rightarrow> Fence \<Rightarrow> StartResponse \<Rightarrow> call_error + StartResult" where
  "parseStartResult U f resp = sum_bind (parse_uuid U (so_AttemptID resp)) (\<lambda>attempt.
     if attempt \<noteq> AttemptID f then Inl OtherError
     else if so_AttemptTimeoutRemainingMillis resp < 0 then Inl OtherError
     else if so_StartedAt resp = None then Inl OtherError
     else Inr \<lparr> sr_AttemptID = attempt, sr_StartedAt = so_StartedAt resp, sr_TimeoutAt = so_AttemptTimeoutAt resp,
                sr_Remaining = so_AttemptTimeoutRemainingMillis resp * Millisecond, sr_Replayed = so_Replayed resp \<rparr>)"

definition parseOutcome :: "uuid_text \<Rightarrow> Fence \<Rightarrow> OutcomeResponse \<Rightarrow> call_error + OutcomeResult" where
  "parseOutcome U f resp = sum_bind (parse_uuid U (oo_JobID resp)) (\<lambda>job.
     if job \<noteq> JobID f then Inl OtherError
     else if (oo_RetryAt resp = None) \<noteq> (oo_RetryDelayMillis resp = None) then Inl OtherError
     else if oo_RetryAt resp \<noteq> None \<and> oo_JobStatus resp \<noteq> StatusRetryWait \<and> oo_JobStatus resp \<noteq> StatusQueued then Inl OtherError
     else Inr \<lparr> out_JobID = job, out_JobStatus = oo_JobStatus resp, out_AttemptStatus = oo_AttemptStatus resp,
                out_RetryAt = oo_RetryAt resp, out_RetryDelay = map_option (\<lambda>ms. ms * Millisecond) (oo_RetryDelayMillis resp),
                out_DeadLetterReason = (case oo_DeadLetterReason resp of None \<Rightarrow> ReasonOther '''' | Some r \<Rightarrow> r),
                out_Replayed = oo_Replayed resp \<rparr>)"

text \<open>The local share of a server-measured window: a tenth of it, at most a second, is held back.\<close>

definition executionBudget :: "dur \<Rightarrow> dur" where
  "executionBudget remaining = (if remaining \<le> 0 then 0
     else let margin = go_div remaining 10; margin' = (if margin > Second then Second else margin) in remaining - margin')"

text \<open>What \<^verbatim>\<open>doJSON\<close> makes of a reply.\<close>

fun doJSON :: "('b \<Rightarrow> call_error + 'a) \<Rightarrow> 'b reply \<Rightarrow> call_error + 'a" where
  "doJSON parse (Reply status body) = parse body"
| "doJSON parse (Refusal status code probs) = Inl (RemoteError status code)"

end
