(* ===== verification/ControlSafety.thy ===== *)
theory ControlSafety
  imports ControlClient Authentication Scenario
begin

text \<open>
  The control surface from both ends. A call of the client, answered by the API, returns what the store
  committed; every handler either refuses and changes nothing or is one request of the control
  plane; and a worker whose key was revoked is locked out for good.
\<close>

section \<open>The calls of a registered worker\<close>

datatype control_call =
    HeartbeatCall ts string string
  | RenewCall ts string renewLeaseRequest
  | ClaimCall claim_clock uuid uuid claimRequest
  | StartCall ts string fenceRequest
  | SucceedCall ts string fenceRequest "resultPayload option"
  | FailCall tx_input string failAttemptRequest
  | CancelCall ts string fenceRequest string

datatype control_body = HeartbeatBody HeartbeatResponse | RenewalBody RenewalResponse | ClaimBody ClaimResponse
  | StartBody StartResponse | NoBody | OutcomeBody OutcomeResponse

fun control :: "uuid_text \<Rightarrow> store_cfg \<Rightarrow> control_call \<Rightarrow> server \<Rightarrow> control_body reply \<times> server" where
  "control U cfg (HeartbeatCall now session worker) s = map_prod (map_reply HeartbeatBody) id (handleHeartbeat U now session worker s)"
| "control U cfg (RenewCall now lease q) s = map_prod (map_reply RenewalBody) id (handleRenewLease U cfg now lease q s)"
| "control U cfg (ClaimCall ck aid lid q) s = map_prod (map_reply ClaimBody) id (handleClaim U cfg ck aid lid q s)"
| "control U cfg (StartCall now attempt q) s = map_prod (map_reply StartBody) id (handleStartAttempt U now attempt q s)"
| "control U cfg (SucceedCall now attempt q p) s = map_prod (map_reply (\<lambda>_. NoBody)) id (handleSucceedAttempt U now attempt q p s)"
| "control U cfg (FailCall ti attempt q) s = map_prod (map_reply OutcomeBody) id (handleFailAttempt U cfg ti attempt q s)"
| "control U cfg (CancelCall now attempt q oid) s = map_prod (map_reply OutcomeBody) id (handleCancelAttempt U now attempt q oid s)"

text \<open>The session a call speaks for.\<close>

fun call_session :: "control_call \<Rightarrow> string" where
  "call_session (HeartbeatCall now session worker) = session"
| "call_session (RenewCall now lease q) = fq_WorkerSessionID (rl_Fence q)"
| "call_session (ClaimCall ck aid lid q) = cq_WorkerSessionID q"
| "call_session (StartCall now attempt q) = fq_WorkerSessionID q"
| "call_session (SucceedCall now attempt q p) = fq_WorkerSessionID q"
| "call_session (FailCall ti attempt q) = fq_WorkerSessionID (fa_Fence q)"
| "call_session (CancelCall now attempt q oid) = fq_WorkerSessionID q"

lemmas handler_defs = handleHeartbeat_def handleRenewLease_def handleClaim_def handleStartAttempt_def handleSucceedAttempt_def
  handleFailAttempt_def handleCancelAttempt_def parseFence_def parseRenewalRequest_def parseClaimRequest_def Let_def

section \<open>A handler is a request of the control plane\<close>

lemma respond_db: "snd (respond f r s) = s\<lparr> sv_db := commit (sv_db s) r \<rparr>"
  by (cases r) (auto simp: respond_def commit_def)

lemma in_scope_db:
  assumes "\<And>scope. \<exists>rs. snd (act scope) = s\<lparr> sv_db := run cfg rs (sv_db s) \<rparr>"
  shows "\<exists>rs. snd (in_scope i act s) = s\<lparr> sv_db := run cfg rs (sv_db s) \<rparr>"
proof (cases "resolveWorkerControlScope i s :: 'a reply + string")
  case (Inl r)
  then have "snd (in_scope i act s) = s\<lparr> sv_db := run cfg [] (sv_db s) \<rparr>"
    by (simp add: in_scope_def run_def)
  then show ?thesis
    by blast
next
  case (Inr scope)
  then show ?thesis
    using assms [of scope] by (simp add: in_scope_def)
qed

lemma one_request: "exec cfg q d = d' \<Longrightarrow> \<exists>rs. s\<lparr> sv_db := d' \<rparr> = s\<lparr> sv_db := run cfg rs d \<rparr>"
  by (rule exI [of _ "[q]"]) (simp add: run_def)

lemma no_request: "\<exists>rs. s = s\<lparr> sv_db := run cfg rs (sv_db s) \<rparr>"
  by (rule exI [of _ "[]"]) (simp add: run_def)

lemma control_is_request: "\<exists>rs. snd (control U cfg c s) = s\<lparr> sv_db := run cfg rs (sv_db s) \<rparr>"
proof (cases c)
  case (HeartbeatCall now session worker)
  then show ?thesis
    using no_request by (auto simp: handler_defs respond_db intro!: in_scope_db one_request [OF exec.simps(2)])
next
  case (RenewCall now lease q)
  then show ?thesis
    using no_request by (auto simp: handler_defs respond_db intro!: in_scope_db one_request [OF exec.simps(9)])
next
  case (ClaimCall ck aid lid q)
  then show ?thesis
    using no_request by (auto simp: handler_defs respond_db intro!: in_scope_db one_request [OF exec.simps(4)])
next
  case (StartCall now attempt q)
  then show ?thesis
    using no_request by (auto simp: handler_defs respond_db intro!: in_scope_db one_request [OF exec.simps(5)])
next
  case (SucceedCall now attempt q p)
  then show ?thesis
    using no_request by (auto simp: handler_defs respond_db case_prod_unfold intro!: in_scope_db one_request [OF exec.simps(6)])
next
  case (FailCall ti attempt q)
  then show ?thesis
    using no_request by (auto simp: handler_defs respond_db intro!: in_scope_db one_request [OF exec.simps(7)])
next
  case (CancelCall now attempt q oid)
  then show ?thesis
    using no_request by (auto simp: handler_defs respond_db intro!: in_scope_db one_request [OF exec.simps(8)])
qed

lemma control_reach:
  assumes "reach cfg (sv_db s)"
  shows "reach cfg (sv_db (snd (control U cfg c s)))"
  using control_is_request [of U cfg c s] reach_run [OF assms] by auto

section \<open>What the client accepts\<close>

text \<open>The text of the UUIDs in play parses back.\<close>

definition parses :: "uuid_text \<Rightarrow> bool" where
  "parses U = (\<forall>i. u_Parse U (u_String U i) = Some i)"

lemma parsesD: "parses U \<Longrightarrow> parse_uuid U (u_String U i) = Inr i" "parses U \<Longrightarrow> parsed U (u_String U i) = i"
  "parses U \<Longrightarrow> parse_field U f (u_String U i) = []"
  by (simp_all add: parses_def parse_uuid_def parsed_def parse_field_def)

lemma sum_bind_simps [simp]: "sum_bind (Inr a) f = f a" "sum_bind (Inl e) f = Inl e"
  by (simp_all add: sum_bind_def)

text \<open>A window as the worker sees it: whole milliseconds, never more than the server measured.\<close>

definition whole_millis :: "dur \<Rightarrow> dur" where
  "whole_millis d = Milliseconds d * Millisecond"

lemma Milliseconds_nonneg: "0 \<le> d \<Longrightarrow> 0 \<le> Milliseconds d"
  by (simp add: Milliseconds_def go_div_nonneg Millisecond_def pos_imp_zdiv_nonneg_iff)

lemma whole_millis_le: "0 \<le> d \<Longrightarrow> whole_millis d \<le> d"
  by (simp add: whole_millis_def Milliseconds_def go_div_nonneg Millisecond_def)

text \<open>A claim result that is consistent, and an assignment that answers the request.\<close>

definition answers_claim :: "ClaimRequest \<Rightarrow> ClaimResult \<Rightarrow> bool" where
  "answers_claim req r = ((res_Assignment r \<noteq> None) = (res_Disposition r = Claimed)
     \<and> (\<forall>a. res_Assignment r = Some a \<longrightarrow> as_WorkerID a = cr_WorkerID req \<and> as_SessionID a = cr_SessionID req
          \<and> as_Queue a = cr_Queue req \<and> 0 \<le> as_LeaseRemaining a))"

definition seen_claim :: "ClaimResult \<Rightarrow> ClaimResult" where
  "seen_claim r = r\<lparr> res_Assignment := map_option (\<lambda>a. a\<lparr> as_LeaseRemaining := whole_millis (as_LeaseRemaining a) \<rparr>) (res_Assignment r) \<rparr>"

lemma parseClaim_faithful:
  assumes "parses U" and "answers_claim req r"
  shows "parseClaim U req (toClaimResponse U r) = Inr (seen_claim r)"
proof -
  have v: "validateClaimResponse (toClaimResponse U r)"
    using assms(2) by (cases "res_Disposition r") (auto simp: validateClaimResponse_def toClaimResponse_def SafeToAcknowledge_def answers_claim_def)
  show ?thesis
  proof (cases "res_Assignment r")
    case None
    then show ?thesis
      using v by (simp add: parseClaim_def) (simp add: toClaimResponse_def seen_claim_def)
  next
    case (Some a)
    then have a: "as_WorkerID a = cr_WorkerID req" "as_SessionID a = cr_SessionID req" "as_Queue a = cr_Queue req" "0 \<le> Milliseconds (as_LeaseRemaining a)"
      using assms(2) Milliseconds_nonneg by (auto simp: answers_claim_def)
    then have "parseAssignment U (toAssignmentResponse U a) = Inr (a\<lparr> as_LeaseRemaining := whole_millis (as_LeaseRemaining a) \<rparr>)"
      by (simp add: parseAssignment_def toAssignmentResponse_def parsesD [OF assms(1)] whole_millis_def)
    then show ?thesis
      using v Some a by (simp add: parseClaim_def) (simp add: toClaimResponse_def seen_claim_def)
  qed
qed

lemma parseRenewal_faithful:
  assumes "parses U" and "rn_LeaseID r = LeaseID (rq_Fence req)" and "rn_RenewalVersion r = rq_ExpectedVersion req + 1" and "0 \<le> rn_Remaining r"
  shows "parseRenewal U req (toRenewalResponse U r) = Inr (r\<lparr> rn_Remaining := whole_millis (rn_Remaining r) \<rparr>)"
  using assms Milliseconds_nonneg [OF assms(4)] by (simp add: parseRenewal_def toRenewalResponse_def parsesD whole_millis_def)

lemma parseStartResult_faithful:
  assumes "parses U" and "sr_AttemptID r = AttemptID f" and "sr_StartedAt r \<noteq> None" and "0 \<le> sr_Remaining r"
  shows "parseStartResult U f (toStartResponse U r) = Inr (r\<lparr> sr_Remaining := whole_millis (sr_Remaining r) \<rparr>)"
  using assms Milliseconds_nonneg [OF assms(4)] by (simp add: parseStartResult_def toStartResponse_def parsesD whole_millis_def)

lemma parseCancellationDirectives_faithful:
  "parses U \<Longrightarrow> parseCancellationDirectives U (he_Cancellations (toHeartbeatResponse U r)) = Inr (hr_Cancellations r)"
proof -
  assume U: "parses U"
  have "parseCancellationDirectives U (map (\<lambda>c. \<lparr> cn_JobID = u_String U (cd_JobID c), cn_AttemptID = u_String U (cd_AttemptID c),
       cn_LeaseID = u_String U (cd_LeaseID c), cn_CancelRequestedAt = cd_CancelRequestedAt c \<rparr>) cs) = Inr cs" for cs
    by (induction cs) (simp_all add: parsesD [OF U])
  then show ?thesis
    by (simp add: toHeartbeatResponse_def)
qed

lemma parseHeartbeat_faithful:
  assumes "parses U" and "hr_SessionID r = hb_SessionID req" and "hr_Status r = SessionHealthy"
  shows "parseHeartbeat U req (toHeartbeatResponse U r) = Inr r"
  using assms parseCancellationDirectives_faithful [OF assms(1), of r]
  by (simp add: parseHeartbeat_def) (simp add: toHeartbeatResponse_def parsesD)

text \<open>What the store answers to a claim is consistent.\<close>

lemma remainingUntil_nonneg: "0 \<le> remainingUntil e n"
  by (simp add: remainingUntil_def Let_def)

lemma reserve_answers:
  assumes "reserve ck dur aid lid scope req j d = Inr (r, d')" and "j_queue j = cr_Queue req" and "0 < dur"
  shows "answers_claim req r"
  using assms by (auto simp: reserve_def Let_def answers_claim_def new_assignment_def split: if_splits)

lemma select_and_reserve_answers:
  assumes "select_and_reserve ck dur aid lid scope req s d = Inr (r, d')" and "0 < dur"
  shows "answers_claim req r"
proof (cases "select_ordered (eligible (ck_select ck) scope (cr_Queue req) s d) claim_order 1 (db_jobs d)")
  case Nil
  then show ?thesis
    using assms(1) by (auto simp: select_and_reserve_def answers_claim_def noClaim_def split: if_splits)
next
  case (Cons j rest)
  then have "eligible (ck_select ck) scope (cr_Queue req) s d j"
    using set_select_ordered [of j] by (metis list.set_intros(1))
  then show ?thesis
    using assms Cons reserve_answers [of ck dur aid lid scope req j d r d']
    by (simp add: select_and_reserve_def eligible_def due_queued_def)
qed

lemma Claim_answers:
  assumes "Claim ck dur aid lid scope req d = Inr (r, d')"
  shows "answers_claim req r"
proof -
  have n: "answers_claim req (noClaim x)" if "x \<noteq> Claimed" for x
    using that by (simp add: answers_claim_def noClaim_def)
  have c: "answers_claim req \<lparr> res_Disposition = Claimed, res_Assignment = Some (setLeaseRemaining t a), res_Replayed = b \<rparr>"
    if "\<not> claim_conflicts scope req a" "as_WorkerID a = cr_WorkerID req" "as_SessionID a = cr_SessionID req" for a t b
    using that by (simp add: answers_claim_def claim_conflicts_def setLeaseRemaining_def remainingUntil_nonneg)
  show ?thesis
    using assms n c select_and_reserve_answers [of ck dur aid lid scope req _ d r d']
    by (auto simp: Claim_def Let_def split: option.splits if_splits)
qed

section \<open>Revocation\<close>

lemma revoked_for_good:
  assumes ok: "table_ok (worker_keys ks0)" and r: "workerauth_Revoke now k ks0 = Inr (res, ks)"
  shows "IsRevoked k (key_run qs ks)" and "workerauth_Authenticate raw (key_run qs ks) = Inr p \<Longrightarrow> pr_KeyID p \<noteq> k"
proof -
  obtain t where t: "revoke_key now k (worker_keys ks0) = Inr (res, t)" "worker_keys ks = t"
    using r by (auto simp: workerauth_Revoke_def split: sum.splits)
  have ok1: "table_ok (worker_keys ks)"
    using table_ok_effect [OF ok, of "Withdraw now k"] t by simp
  have "lookup k_id (worker_keys ks0) k \<noteq> None"
  proof
    assume n: "lookup k_id (worker_keys ks0) k = None"
    then have "find (\<lambda>r. k_id r = k \<and> k_revoked_at r = None) (worker_keys ks0) = None"
      by (auto simp: find_None_iff lookup_None_iff)
    then show False
      using t(1) n by (simp add: revoke_key_def get_key_def)
  qed
  then obtain k0 where k0: "lookup k_id (worker_keys ks0) k = Some k0"
    by blast
  then have "lookup k_id (worker_keys ks) k = Some (if k_revoked_at k0 = None then k0\<lparr> k_revoked_at := Some now \<rparr> else k0)"
    using revoke_key_rows [OF t(1)] t(2) lookup_key [OF k0] by (simp add: lookup_upd)
  then obtain k1 where k1: "lookup k_id (worker_keys ks) k = Some k1" "k_revoked_at k1 \<noteq> None"
    by (auto split: if_splits)
  obtain k2 where k2: "lookup k_id (worker_keys (key_run qs ks)) k = Some k2" "k_revoked_at k2 \<noteq> None"
    using worker.row_run [OF ok1 k1(1), of qs] k1(2) unfolding key_run_def by blast
  then show "IsRevoked k (key_run qs ks)"
    by (simp add: IsRevoked_def)
  have d: "keys_distinct k_id (worker_keys (key_run qs ks))"
    using worker.tab_ok_run [OF ok1, of qs] by (simp add: key_run_def table_ok_def)
  show "pr_KeyID p \<noteq> k" if "workerauth_Authenticate raw (key_run qs ks) = Inr p"
    using authenticated_row [of raw "worker_keys (key_run qs ks)" p] that k2 lookup_in_set [OF d]
    by (auto simp: workerauth_Authenticate_def)
qed

text \<open>A call of a session that is bound to a revoked key is refused, whatever else it carries.\<close>

lemma in_scope_revoked:
  assumes "get_session (sv_db s) i = Some r" and "s_worker_key_id r = Some k" and "IsRevoked k (sv_keys s)"
  shows "in_scope i act s = (writeWorkerKeyUnauthorized, s)"
  using assms by (simp add: in_scope_def resolveWorkerControlScope_def SessionScope_def)

definition refused :: "control_body reply \<Rightarrow> bool" where
  "refused x = (\<exists>probs. x \<in> {Refusal 401 CodeUnauthorized [], Refusal 422 CodeValidationFailed probs})"

lemma control_revoked:
  assumes "get_session (sv_db s) i = Some r" and "s_worker_key_id r = Some k" and "IsRevoked k (sv_keys s)"
    and "u_Parse U (call_session c) = Some i"
  shows "refused (fst (control U cfg c s)) \<and> snd (control U cfg c s) = s"
proof -
  note lock = in_scope_revoked [OF assms(1-3)] writeWorkerKeyUnauthorized_def writeWorkerValidation_def
  have i: "parsed U (call_session c) = i"
    using assms(4) by (simp add: parsed_def)
  show ?thesis
  proof (cases c)
    case (SucceedCall now attempt q p)
    then show ?thesis
      using i by (cases "parseResultPayload p") (simp add: handler_defs lock refused_def)
  qed (use i in \<open>simp_all add: handler_defs lock refused_def\<close>)
qed

text \<open>C0: A worker whose key is revoked is locked out at once and for good. Take any reachable server with a session that
registered under a worker key, and revoke that key. Then whatever requests the stores serve afterwards, on jobs and on keys, every
control call that speaks for the session (heartbeat, renewal, claim, start, success, failure, cancellation) is refused and
changes nothing, and no credential authenticates as the revoked key, so that no new session can register under it either.\<close>

theorem revoked_worker_locked_out:
  assumes "reach cfg (sv_db s)" and "sv_keys s = key_run hs no_keys"
    and "get_session (sv_db s) i = Some r" and "s_worker_key_id r = Some k"
    and "workerauth_Revoke now k (sv_keys s) = Inr (res, ks)"
    and "s' = s\<lparr> sv_db := run cfg rs (sv_db s), sv_keys := key_run qs ks \<rparr>"
  shows "(u_Parse U (call_session c) = Some i \<longrightarrow> refused (fst (control U cfg c s')) \<and> snd (control U cfg c s') = s')
     \<and> (workerauth_Authenticate raw (sv_keys s') = Inr p \<longrightarrow> pr_KeyID p \<noteq> k)"
proof -
  have ok: "table_ok (worker_keys (sv_keys s))"
    unfolding assms(2) key_run_def by (rule worker.tab_ok_run) (simp add: no_keys_def table_ok_Nil)
  obtain r' where r': "get_session (run cfg rs (sv_db s)) i = Some r'" "session_kept r r'"
    using session_columns.row_steps [OF run_steps reach_ok [OF assms(1)] assms(3)] by blast
  have k: "s_worker_key_id r' = Some k"
    using r'(2) assms(4) by (simp add: session_kept_def)
  show ?thesis
    using revoked_for_good [OF ok assms(5), where qs = qs] control_revoked [of s' i r' k U c cfg] r'(1) k assms(6) by auto
qed

definition keyed_server :: server where
  "keyed_server = \<lparr> sv_db = run cfg0 [RegisterReq clock0 1 ''s'' (registration0\<lparr> reg_WorkerKeyID := Some 7 \<rparr>)] initial_db,
     sv_keys = key_run [WorkerCreate 1 draw0 draw0 ''s'' ''n''] no_keys, sv_workerKeys = True \<rparr>"

theorem revoked_worker_locked_out_witness:
  "\<exists>res ks. workerauth_Revoke 3 7 (sv_keys keyed_server) = Inr (res, ks)
     \<and> refused (fst (control \<lparr> u_String = (\<lambda>i. replicate i CHR ''0''), u_Parse = (\<lambda>x. Some (length x)) \<rparr> cfg0
         (HeartbeatCall 5 ''00'' ''0'') (keyed_server\<lparr> sv_keys := ks \<rparr>)))"
proof -
  let ?U = "\<lparr> u_String = (\<lambda>i. replicate i CHR ''0''), u_Parse = (\<lambda>x. Some (length x)) \<rparr>"
  obtain c t where c: "create_key 1 draw0 draw0 ''s'' ''n'' [] = Inr (c, t)" "key_ID (cr_Key c) = 7"
    using create0 by blast
  obtain k where k: "t = [k]" "k_id k = 7" "k_created_at k = 1"
    using create_key_row [OF c(1)] c(2) by (auto simp: stored_as_def)
  have ks: "worker_keys (sv_keys keyed_server) = [k]"
    using c(1) k(1) by (simp add: keyed_server_def key_run_def no_keys_def workerauth_Create_def key_commit_def)
  obtain res ks where r: "workerauth_Revoke 3 7 (sv_keys keyed_server) = Inr (res, ks)"
    using ks k(2,3) by (cases "revoke_key 3 7 [k]") (auto simp: workerauth_Revoke_def revoke_key_def get_key_def lookup_def split: if_splits)
  have a: "reach cfg0 (sv_db keyed_server)"
    unfolding reach_def keyed_server_def by auto
  have b: "sv_keys keyed_server = key_run [WorkerCreate 1 draw0 draw0 ''s'' ''n''] no_keys"
    by (simp add: keyed_server_def)
  have d: "get_session (sv_db keyed_server) 2 = Some (session_row0\<lparr> s_worker_key_id := Some 7 \<rparr>)"
    unfolding keyed_server_def server.simps by code_simp
  have e: "keyed_server\<lparr> sv_keys := ks \<rparr> = keyed_server\<lparr> sv_db := run cfg0 [] (sv_db keyed_server), sv_keys := key_run [] ks \<rparr>"
    by (simp add: run_def key_run_def)
  have "refused (fst (control ?U cfg0 (HeartbeatCall 5 ''00'' ''0'') (keyed_server\<lparr> sv_keys := ks \<rparr>)))"
    using revoked_worker_locked_out [OF a b d _ r e, of ?U "HeartbeatCall 5 ''00'' ''0''", THEN conjunct1] by simp
  then show ?thesis
    using r by auto
qed

end
