(* ===== verification/Runner.thy ===== *)
theory Runner
  imports ControlClient
begin

text \<open>
  The runtime of a worker process (\<^verbatim>\<open>internal/worker/runner.go\<close>, \<^verbatim>\<open>cancellation.go\<close>, \<^verbatim>\<open>notification.go\<close>,
  \<^verbatim>\<open>renewal.go\<close>, \<^verbatim>\<open>handler.go\<close>): the flights of duplicated notifications, the registry of executing
  attempts, the retry loop around a call, the renewal and heartbeat loops, and the whole path of a
  delivery from the notification to the report of an outcome.

  The process runs in a world: the control plane it calls, its own monotonic clock in nanoseconds, its
  completion context, its shared maps, and the trace of what it did. What it does not choose is a
  script: for every call a link says which requests of others the control plane served first, whether
  the request arrived and whether the answer came back, what the server's clock and identifier
  draws were, how long the call took, which cancellation directives the heartbeat loop applied meanwhile, and
  whether the process was told to stop; for the time a handler runs, an explicit sequence of events
  says how the loops interleave with it. Spans, metrics and log lines are left out.
\<close>

section \<open>Configuration\<close>

record RunnerConfig =
  wc_Registration :: Registration
  wc_Queue :: string
  wc_PollWait :: dur
  wc_RetryAttempts :: int
  wc_RetryDelay :: dur
  wc_ErrorBackoff :: dur
  wc_ShutdownTimeout :: dur
  wc_HeartbeatInterval :: dur
  wc_SessionStaleAfter :: dur
  wc_RenewInterval :: dur
  wc_ResultInlineThresholdBytes :: int
  wc_ResultsBucket :: string

definition NewRunner :: "RunnerConfig \<Rightarrow> RunnerConfig" where
  "NewRunner c = c\<lparr> wc_RetryAttempts := (if wc_RetryAttempts c < 1 then 1 else wc_RetryAttempts c),
     wc_ShutdownTimeout := (if wc_ShutdownTimeout c \<le> 0 then 15 * Second else wc_ShutdownTimeout c),
     wc_HeartbeatInterval := (if wc_HeartbeatInterval c \<le> 0 then 5 * Second else wc_HeartbeatInterval c),
     wc_SessionStaleAfter := (if wc_SessionStaleAfter c \<le> 0 then 15 * Second else wc_SessionStaleAfter c),
     wc_RenewInterval := (if wc_RenewInterval c \<le> 0 then 10 * Second else wc_RenewInterval c),
     wc_ResultInlineThresholdBytes := (if wc_ResultInlineThresholdBytes c \<le> 0 then 64 * 1024 else wc_ResultInlineThresholdBytes c) \<rparr>"

section \<open>Handlers\<close>

text \<open>The causes a context of an attempt is cancelled with; the last one is the completion context's own.\<close>

datatype cause = errUserCanceled | errAttemptTimedOut | errAuthorityLost | ContextCanceled

record Execution =
  ex_JobID :: uuid
  ex_AttemptID :: uuid
  ex_Payload :: string

text \<open>
  An error of a handler: one that \<^verbatim>\<open>errors.As\<close> finds to be a \<^verbatim>\<open>FailureError\<close>, or any other. A handler sees its
  execution and, when it returns, the cause its context was cancelled with.
\<close>

datatype handler_error = FailureError FailureClass string string | PlainError

datatype handler_outcome = Returned string | Raised handler_error | Panicked

type_synonym handler = "Execution \<Rightarrow> cause option \<Rightarrow> handler_outcome"

definition Retryable_error :: "string \<Rightarrow> string \<Rightarrow> handler_error" where
  "Retryable_error code message = FailureError ClassRetryable code message"

definition Permanent_error :: "string \<Rightarrow> string \<Rightarrow> handler_error" where
  "Permanent_error code message = FailureError ClassPermanent code message"

type_synonym Registry = "(string \<times> handler) list"

definition Registry_Register :: "string \<Rightarrow> handler option \<Rightarrow> Registry \<Rightarrow> Registry option" where
  "Registry_Register jobType h r = (if jobType = '''' then None
     else case h of None \<Rightarrow> None
       | Some f \<Rightarrow> if map_of r jobType \<noteq> None then None else Some (r @ [(jobType, f)]))"

definition Registry_Lookup :: "Registry \<Rightarrow> string \<Rightarrow> handler option" where
  "Registry_Lookup r jobType = map_of r jobType"

definition Registry_Types :: "Registry \<Rightarrow> string list" where
  "Registry_Types r = sort (map fst r)"

definition DemoEcho :: handler where
  "DemoEcho x c = Returned (ex_Payload x)"

definition invokeHandler :: "handler \<Rightarrow> Execution \<Rightarrow> cause option \<Rightarrow> handler_error + string" where
  "invokeHandler h x c = (case h x c of Returned r \<Rightarrow> Inr r | Raised e \<Rightarrow> Inl e | Panicked \<Rightarrow> Inl PlainError)"

fun classifyHandlerError :: "handler_error \<Rightarrow> FailureClass \<times> string \<times> string" where
  "classifyHandlerError (FailureError cls code message) = (if ReportableByHandler cls then (cls, code, SafeMessage message)
     else (ClassRetryable, CodeHandlerError, MessageHandlerError))"
| "classifyHandlerError PlainError = (ClassRetryable, CodeHandlerError, MessageHandlerError)"

section \<open>Errors\<close>

datatype worker_error = ErrSessionLost call_error | ErrHeartbeatStale

definition isCancellationRequested :: "call_error \<Rightarrow> bool" where
  "isCancellationRequested e = (case e of StoreError x \<Rightarrow> x = ErrCancellationRequested
     | RemoteError _ code \<Rightarrow> code = ''cancellation_requested'' | OtherError \<Rightarrow> False)"

definition isSessionLost :: "call_error \<Rightarrow> bool" where
  "isSessionLost e = (case e of StoreError x \<Rightarrow> x = ErrSessionUnavailable \<or> x = ErrFenceRejected
     | RemoteError _ code \<Rightarrow> code = ''worker_session_unavailable'' \<or> code = ''fence_rejected'' | OtherError \<Rightarrow> False)"

definition isAuthorityLost :: "call_error \<Rightarrow> bool" where
  "isAuthorityLost e = (case e of
     StoreError x \<Rightarrow> x \<in> {ErrSessionUnavailable, ErrFenceRejected, ErrLeaseExpired, ErrRenewalConflict, ErrStateConflict}
   | RemoteError _ code \<Rightarrow> code \<in> {''worker_session_unavailable'', ''fence_rejected'', ''lease_expired'', ''renewal_conflict'',
       ''state_conflict''}
   | OtherError \<Rightarrow> False)"

definition escalateSessionLoss :: "call_error \<Rightarrow> worker_error option" where
  "escalateSessionLoss e = (if isSessionLost e then Some (ErrSessionLost e) else None)"

text \<open>Store errors and failures of the transport do not classify themselves, and are retried.\<close>

definition retryable :: "call_error \<Rightarrow> bool" where
  "retryable e = RemoteError_Retryable e"

section \<open>Notifications\<close>

definition EventWorkAvailable :: string where "EventWorkAvailable = ''work.available''"
definition WorkAvailableSchemaVersion :: int where "WorkAvailableSchemaVersion = 1"

record WorkAvailableData =
  wd_Queue :: string
  wd_JobID :: string

text \<open>An envelope as its JSON decodes; a data member that does not decode is \<^verbatim>\<open>None\<close>.\<close>

record Envelope =
  en_EventID :: string
  en_EventType :: string
  en_SchemaVersion :: int
  en_OccurredAt :: ts
  en_Trace :: "(string \<times> string) option"
  en_Data :: "WorkAvailableData option"

definition Event_Envelope :: "uuid_text \<Rightarrow> event_row \<Rightarrow> Envelope" where
  "Event_Envelope U e = \<lparr> en_EventID = u_String U (e_id e), en_EventType = EventWorkAvailable,
     en_SchemaVersion = WorkAvailableSchemaVersion, en_OccurredAt = e_created_at e, en_Trace = e_trace e,
     en_Data = Some \<lparr> wd_Queue = e_queue e, wd_JobID = u_String U (e_job_id e) \<rparr> \<rparr>"

record workNotification =
  wn_EventID :: uuid
  wn_Queue :: string
  wn_Trace :: "(string \<times> string) option"

definition decodeWorkNotification :: "uuid_text \<Rightarrow> Envelope option \<Rightarrow> workNotification option" where
  "decodeWorkNotification U body = (case body of None \<Rightarrow> None
   | Some envelope \<Rightarrow>
       if en_EventType envelope \<noteq> EventWorkAvailable \<or> en_SchemaVersion envelope \<noteq> WorkAvailableSchemaVersion then None
       else case u_Parse U (en_EventID envelope) of
         None \<Rightarrow> None
       | Some eventID \<Rightarrow>
           if eventID = uuid_Nil then None
           else case en_Data envelope of
             None \<Rightarrow> None
           | Some data \<Rightarrow> if wd_Queue data = '''' then None
               else Some \<lparr> wn_EventID = eventID, wn_Queue = wd_Queue data, wn_Trace = en_Trace envelope \<rparr>)"

text \<open>A message of the broker, its body as the envelope it decodes to.\<close>

record Message =
  mg_Body :: "Envelope option"
  mg_ReceiptHandle :: string

section \<open>Flights\<close>

record deliveryFlight =
  df_safeAck :: bool
  df_err :: "worker_error option"
  df_settled :: bool
  df_followers :: nat

type_synonym flights = "uuid \<Rightarrow> deliveryFlight option"

definition beginDelivery :: "uuid \<Rightarrow> flights \<Rightarrow> deliveryFlight \<times> bool \<times> flights" where
  "beginDelivery eventID fs = (case fs eventID of
     Some flight \<Rightarrow> let flight' = flight\<lparr> df_followers := df_followers flight + 1 \<rparr> in (flight', False, fs(eventID \<mapsto> flight'))
   | None \<Rightarrow> let flight = \<lparr> df_safeAck = False, df_err = None, df_settled = False, df_followers = 0 \<rparr>
             in (flight, True, fs(eventID \<mapsto> flight)))"

definition settleLocked :: "bool \<Rightarrow> worker_error option \<Rightarrow> deliveryFlight \<Rightarrow> deliveryFlight" where
  "settleLocked safeAck err flight = (if df_settled flight then flight
     else flight\<lparr> df_settled := True, df_safeAck := safeAck, df_err := err \<rparr>)"

definition decideDelivery :: "uuid \<Rightarrow> bool \<Rightarrow> worker_error option \<Rightarrow> flights \<Rightarrow> flights" where
  "decideDelivery eventID safeAck err fs = fs(eventID := map_option (settleLocked safeAck err) (fs eventID))"

text \<open>The settled flight, which the followers still hold, and the map without it.\<close>

definition endDelivery :: "uuid \<Rightarrow> flights \<Rightarrow> deliveryFlight option \<times> flights" where
  "endDelivery eventID fs = (map_option (settleLocked False None) (fs eventID), fs(eventID := None))"

section \<open>The registry of executing attempts\<close>

text \<open>
  \<^verbatim>\<open>ae_bound\<close> says that a cancel function is attached. Once a directive has arrived for a bound attempt,
  its context has been cancelled, by \<^verbatim>\<open>deliver\<close> or by \<^verbatim>\<open>bind\<close>.
\<close>

record attemptEntry =
  ae_fence :: Fence
  ae_bound :: bool
  ae_canceled :: bool

type_synonym attempts = "uuid \<Rightarrow> attemptEntry option"

definition attempts_register :: "Fence \<Rightarrow> attempts \<Rightarrow> attempts" where
  "attempts_register f m = m(AttemptID f \<mapsto> \<lparr> ae_fence = f, ae_bound = False, ae_canceled = False \<rparr>)"

text \<open>The second component tells whether the cancel function was called at once.\<close>

definition attempts_bind :: "uuid \<Rightarrow> attempts \<Rightarrow> attempts \<times> bool" where
  "attempts_bind i m = (case m i of None \<Rightarrow> (m, False)
     | Some entry \<Rightarrow> (m(i \<mapsto> entry\<lparr> ae_bound := True \<rparr>), ae_canceled entry))"

definition attempts_unregister :: "uuid \<Rightarrow> attempts \<Rightarrow> attempts" where
  "attempts_unregister i m = m(i := None)"

definition attempts_deliver :: "CancellationDirective \<Rightarrow> attempts \<Rightarrow> attempts \<times> bool" where
  "attempts_deliver c m = (case m (cd_AttemptID c) of None \<Rightarrow> (m, False)
     | Some entry \<Rightarrow>
         if LeaseID (ae_fence entry) \<noteq> cd_LeaseID c \<or> JobID (ae_fence entry) \<noteq> cd_JobID c then (m, False)
         else (m(cd_AttemptID c \<mapsto> entry\<lparr> ae_canceled := True \<rparr>), \<not> ae_canceled entry))"

definition wasCanceled :: "uuid \<Rightarrow> attempts \<Rightarrow> bool" where
  "wasCanceled i m = (case m i of None \<Rightarrow> False | Some entry \<Rightarrow> ae_canceled entry)"

definition deliverCancellations :: "CancellationDirective list \<Rightarrow> attempts \<Rightarrow> attempts" where
  "deliverCancellations cs m = foldl (\<lambda>m c. fst (attempts_deliver c m)) m cs"

section \<open>The world of a process\<close>

text \<open>What the process does, in order: its calls, its acknowledgements, its uploads and its handler invocations.\<close>

datatype action =
    SentClaim ClaimRequest
  | SentStart Fence
  | SentRenew RenewalRequest
  | SentSucceed Fence "ResultRef option"
  | SentFail FailureReport
  | SentCancel CancelAcknowledgment
  | Deleted string
  | Executed Execution
  | Uploaded string string string

record world =
  w_server :: server
  w_now :: int
  w_done :: bool
  w_flights :: flights
  w_attempts :: attempts
  w_trace :: "action list"

datatype fate = Unreached | Unanswered | Answered

record link =
  lk_served :: "request list"
  lk_keys :: "key_request list"
  lk_fate :: fate
  lk_elapsed :: nat
  lk_now :: ts
  lk_ck :: claim_clock
  lk_aid :: uuid
  lk_lid :: uuid
  lk_ti :: tx_input
  lk_directives :: "CancellationDirective list"
  lk_done :: bool

definition did :: "action \<Rightarrow> world \<Rightarrow> world" where
  "did a w = w\<lparr> w_trace := w_trace w @ [a] \<rparr>"

definition serve :: "store_cfg \<Rightarrow> request list \<Rightarrow> key_request list \<Rightarrow> server \<Rightarrow> server" where
  "serve cfg rs qs s = s\<lparr> sv_db := run cfg rs (sv_db s), sv_keys := key_run qs (sv_keys s) \<rparr>"

definition meanwhile :: "link \<Rightarrow> world \<Rightarrow> world" where
  "meanwhile lk w = w\<lparr> w_now := w_now w + int (lk_elapsed lk), w_done := (w_done w \<or> lk_done lk),
     w_attempts := deliverCancellations (lk_directives lk) (w_attempts w) \<rparr>"

text \<open>
  One call over a link. A request that did not arrive and an answer that did not come back look the
  same to the caller.
\<close>

definition remote :: "store_cfg \<Rightarrow> link \<Rightarrow> (server \<Rightarrow> 'b reply \<times> server) \<Rightarrow> ('b \<Rightarrow> call_error + 'a) \<Rightarrow> world
    \<Rightarrow> (call_error + 'a) \<times> world" where
  "remote cfg lk act parse w =
     (let s = serve cfg (lk_served lk) (lk_keys lk) (w_server w) in
      case lk_fate lk of
        Unreached \<Rightarrow> (Inl OtherError, (meanwhile lk w)\<lparr> w_server := s \<rparr>)
      | Unanswered \<Rightarrow> (Inl OtherError, (meanwhile lk w)\<lparr> w_server := snd (act s) \<rparr>)
      | Answered \<Rightarrow> (doJSON parse (fst (act s)), (meanwhile lk w)\<lparr> w_server := snd (act s) \<rparr>))"

section \<open>Calls\<close>

text \<open>A claim also returns the local deadline of the assignment, measured from before the request was sent.\<close>

definition Client_Claim :: "uuid_text \<Rightarrow> store_cfg \<Rightarrow> ClaimRequest \<Rightarrow> link \<Rightarrow> world \<Rightarrow> (call_error + (ClaimResult \<times> int option)) \<times> world" where
  "Client_Claim U cfg req lk w = (let requestStarted = w_now w in
     remote cfg lk (handleClaim U cfg (lk_ck lk) (lk_aid lk) (lk_lid lk) (claimBody U req))
       (\<lambda>resp. sum_bind (parseClaim U req resp) (\<lambda>r.
          Inr (r, map_option (\<lambda>a. requestStarted + executionBudget (as_LeaseRemaining a)) (res_Assignment r))))
       (did (SentClaim req) w))"

definition Client_Start :: "uuid_text \<Rightarrow> store_cfg \<Rightarrow> Fence \<Rightarrow> link \<Rightarrow> world \<Rightarrow> (call_error + StartResult) \<times> world" where
  "Client_Start U cfg f lk w = remote cfg lk (handleStartAttempt U (lk_now lk) (u_String U (AttemptID f)) (fenceBody U f))
     (parseStartResult U f) (did (SentStart f) w)"

definition Client_RenewLease :: "uuid_text \<Rightarrow> store_cfg \<Rightarrow> RenewalRequest \<Rightarrow> link \<Rightarrow> world \<Rightarrow> (call_error + RenewalResult) \<times> world" where
  "Client_RenewLease U cfg req lk w = remote cfg lk
     (handleRenewLease U cfg (lk_now lk) (u_String U (LeaseID (rq_Fence req))) (renewBody U req))
     (parseRenewal U req) (did (SentRenew req) w)"

definition Client_Succeed :: "uuid_text \<Rightarrow> store_cfg \<Rightarrow> Fence \<Rightarrow> ResultRef option \<Rightarrow> link \<Rightarrow> world \<Rightarrow> (call_error + unit) \<times> world" where
  "Client_Succeed U cfg f result lk w = remote cfg lk
     (handleSucceedAttempt U (lk_now lk) (u_String U (AttemptID f)) (fenceBody U f) (toResultPayload result))
     Inr (did (SentSucceed f result) w)"

definition Client_Fail :: "uuid_text \<Rightarrow> store_cfg \<Rightarrow> FailureReport \<Rightarrow> link \<Rightarrow> world \<Rightarrow> (call_error + OutcomeResult) \<times> world" where
  "Client_Fail U cfg r lk w = remote cfg lk (handleFailAttempt U cfg (lk_ti lk) (u_String U (AttemptID (fr_Fence r))) (failBody U r))
     (parseOutcome U (fr_Fence r)) (did (SentFail r) w)"

definition Client_AcknowledgeCancellation :: "uuid_text \<Rightarrow> store_cfg \<Rightarrow> CancelAcknowledgment \<Rightarrow> link \<Rightarrow> world
    \<Rightarrow> (call_error + OutcomeResult) \<times> world" where
  "Client_AcknowledgeCancellation U cfg a lk w = remote cfg lk
     (handleCancelAttempt U (lk_now lk) (u_String U (AttemptID (ca_Fence a))) (fenceBody U (ca_Fence a)) (u_String U (ca_OutcomeRequestID a)))
     (parseOutcome U (ca_Fence a)) (did (SentCancel a) w)"

definition Client_Heartbeat :: "uuid_text \<Rightarrow> store_cfg \<Rightarrow> HeartbeatRequest \<Rightarrow> link \<Rightarrow> world \<Rightarrow> (call_error + HeartbeatResult) \<times> world" where
  "Client_Heartbeat U cfg req lk w = remote cfg lk
     (handleHeartbeat U (lk_now lk) (u_String U (hb_SessionID req)) (u_String U (hb_WorkerID req))) (parseHeartbeat U req) w"

section \<open>The retry loop\<close>

definition waitContext :: "dur \<Rightarrow> world \<Rightarrow> bool \<times> world" where
  "waitContext delay w = (\<not> w_done w, if delay \<le> 0 \<or> w_done w then w else w\<lparr> w_now := w_now w + delay \<rparr>)"

text \<open>
  \<^verbatim>\<open>retry n k\<close> makes the \<^verbatim>\<open>k\<close>-th try and has \<^verbatim>\<open>n\<close> more. The state is the world, or the world with the loops of an attempt.
\<close>

primrec retry :: "nat \<Rightarrow> nat \<Rightarrow> ('s \<Rightarrow> bool \<times> 's) \<Rightarrow> (nat \<Rightarrow> 's \<Rightarrow> (call_error + 'a) \<times> 's) \<Rightarrow> 's \<Rightarrow> (call_error + 'a) \<times> 's" where
  "retry 0 k wait operation s = operation k s"
| "retry (Suc n) k wait operation s = (case operation k s of
     (Inr a, s') \<Rightarrow> (Inr a, s')
   | (Inl e, s') \<Rightarrow> if \<not> retryable e then (Inl e, s')
       else case wait s' of (go, s'') \<Rightarrow> if \<not> go then (Inl OtherError, s'') else retry n (Suc k) wait operation s'')"

definition retries :: "RunnerConfig \<Rightarrow> nat" where
  "retries c = nat (wc_RetryAttempts c - 1)"

definition retry_call :: "RunnerConfig \<Rightarrow> (nat \<Rightarrow> link) \<Rightarrow> (link \<Rightarrow> world \<Rightarrow> (call_error + 'a) \<times> world) \<Rightarrow> world \<Rightarrow> (call_error + 'a) \<times> world" where
  "retry_call c lks operation w = retry (retries c) 0 (waitContext (wc_RetryDelay c)) (\<lambda>k. operation (lks k)) w"

section \<open>The loops of an executing attempt\<close>

record renewalLoop =
  rw_deadline :: int
  rw_version :: int
  rw_pending :: "(uuid \<times> int) option"
  rw_lost :: bool
  rw_fatal :: "worker_error option"
  rw_running :: bool

definition startRenewal :: "int \<Rightarrow> renewalLoop" where
  "startRenewal deadline = \<lparr> rw_deadline = deadline, rw_version = 0, rw_pending = None, rw_lost = False, rw_fatal = None, rw_running = True \<rparr>"

text \<open>The world with the cause of the handler's context and the renewal loop of its lease.\<close>

record attempt_state =
  es_world :: world
  es_cause :: "cause option"
  es_renewal :: renewalLoop

text \<open>The first cancellation of a context gives its cause.\<close>

definition cancel_context :: "cause \<Rightarrow> attempt_state \<Rightarrow> attempt_state" where
  "cancel_context c s = (case es_cause s of None \<Rightarrow> s\<lparr> es_cause := Some c \<rparr> | Some _ \<Rightarrow> s)"

definition markLost :: "worker_error option \<Rightarrow> renewalLoop \<Rightarrow> renewalLoop" where
  "markLost fatal r = r\<lparr> rw_lost := True, rw_fatal := (case rw_fatal r of None \<Rightarrow> fatal | Some e \<Rightarrow> Some e) \<rparr>"

definition lose :: "worker_error option \<Rightarrow> attempt_state \<Rightarrow> attempt_state" where
  "lose fatal s = cancel_context errAuthorityLost (s\<lparr> es_renewal := (markLost fatal (es_renewal s))\<lparr> rw_running := False \<rparr> \<rparr>)"

text \<open>
  What the contexts see of the world: a directive for the bound attempt cancels it, and the end of the
  completion context ends the renewal loop and cancels what is below it.
\<close>

definition observe :: "uuid \<Rightarrow> attempt_state \<Rightarrow> attempt_state" where
  "observe i s = (let s' = (if wasCanceled i (w_attempts (es_world s)) then cancel_context errUserCanceled s else s) in
     if w_done (es_world s) then cancel_context ContextCanceled (s'\<lparr> es_renewal := (es_renewal s')\<lparr> rw_running := False \<rparr> \<rparr>) else s')"

text \<open>One round of the renewal loop after its ticker fired. The identity of a renewal is drawn once and kept while the answer is unknown.\<close>

definition renewal_tick :: "uuid_text \<Rightarrow> store_cfg \<Rightarrow> Fence \<Rightarrow> uuid \<Rightarrow> link \<Rightarrow> attempt_state \<Rightarrow> attempt_state" where
  "renewal_tick U cfg f new lk s =
     (let w = es_world s; r = es_renewal s; deadline = rw_deadline r in
      if deadline \<le> w_now w then lose None s
      else let pending = (case rw_pending r of None \<Rightarrow> (new, rw_version r) | Some p \<Rightarrow> p); requestStarted = w_now w in
        case Client_RenewLease U cfg \<lparr> rq_Fence = f, rq_RenewalRequestID = fst pending, rq_ExpectedVersion = snd pending \<rparr> lk w of
          (res, w') \<Rightarrow>
            let s' = observe (AttemptID f) (s\<lparr> es_world := w', es_renewal := r\<lparr> rw_pending := Some pending \<rparr> \<rparr>) in
            if w_done w' then s'
            else case res of
              Inl e \<Rightarrow> if isAuthorityLost e then lose (escalateSessionLoss e) s'
                else if deadline \<le> w_now w' then lose None s' else s'
            | Inr result \<Rightarrow>
                let renewedUntil = requestStarted + executionBudget (rn_Remaining result) in
                if deadline \<le> w_now w' \<or> renewedUntil \<le> w_now w' then lose None s'
                else s'\<lparr> es_renewal := (es_renewal s')\<lparr> rw_pending := None, rw_version := rn_RenewalVersion result,
                       rw_deadline := renewedUntil \<rparr> \<rparr>)"

text \<open>
  What happens while an attempt executes: time passes, a timer fires, the heartbeat loop applies directives,
  the control plane serves others, the process is told to stop.
\<close>

datatype event =
    Elapse nat
  | RenewTick uuid link
  | AuthorityTimer
  | TimeoutTimer
  | Beat "CancellationDirective list"
  | Served "request list" "key_request list"
  | Shutdown

fun react :: "uuid_text \<Rightarrow> store_cfg \<Rightarrow> Fence \<Rightarrow> int \<Rightarrow> event \<Rightarrow> attempt_state \<Rightarrow> attempt_state" where
  "react U cfg f timeout (Elapse n) s = s\<lparr> es_world := (es_world s)\<lparr> w_now := w_now (es_world s) + int n \<rparr> \<rparr>"
| "react U cfg f timeout (RenewTick new lk) s = (if rw_running (es_renewal s) then renewal_tick U cfg f new lk s else s)"
| "react U cfg f timeout AuthorityTimer s =
     (if rw_running (es_renewal s) \<and> rw_deadline (es_renewal s) \<le> w_now (es_world s) then lose None s else s)"
| "react U cfg f timeout TimeoutTimer s = (if timeout \<le> w_now (es_world s) then cancel_context errAttemptTimedOut s else s)"
| "react U cfg f timeout (Beat cs) s = observe (AttemptID f)
     (s\<lparr> es_world := (es_world s)\<lparr> w_attempts := deliverCancellations cs (w_attempts (es_world s)) \<rparr> \<rparr>)"
| "react U cfg f timeout (Served rs qs) s = s\<lparr> es_world := (es_world s)\<lparr> w_server := serve cfg rs qs (w_server (es_world s)) \<rparr> \<rparr>"
| "react U cfg f timeout Shutdown s = observe (AttemptID f) (s\<lparr> es_world := (es_world s)\<lparr> w_done := True \<rparr> \<rparr>)"

definition reacts :: "uuid_text \<Rightarrow> store_cfg \<Rightarrow> Fence \<Rightarrow> int \<Rightarrow> event list \<Rightarrow> attempt_state \<Rightarrow> attempt_state" where
  "reacts U cfg f timeout es s = foldl (\<lambda>s e. react U cfg f timeout e s) s es"

section \<open>Results\<close>

definition ChecksumSHA256 :: "string \<Rightarrow> string" where
  "ChecksumSHA256 body = EncodeToString (sha256 body)"

definition result_key :: "uuid_text \<Rightarrow> string \<Rightarrow> Fence \<Rightarrow> string" where
  "result_key U scope f = ''results/'' @ scope @ ''/'' @ u_String U (JobID f) @ ''/'' @ u_String U (AttemptID f)"

definition on_world :: "(world \<Rightarrow> world) \<Rightarrow> attempt_state \<Rightarrow> attempt_state" where
  "on_world g s = s\<lparr> es_world := g (es_world s) \<rparr>"

definition waitUpload :: "dur \<Rightarrow> attempt_state \<Rightarrow> bool \<times> attempt_state" where
  "waitUpload delay s = (es_cause s = None, if delay \<le> 0 \<or> es_cause s \<noteq> None then s else on_world (\<lambda>w. w\<lparr> w_now := w_now w + delay \<rparr>) s)"

text \<open>An upload, with what happens during it; the object store may keep the object and lose the answer.\<close>

definition put_object :: "uuid_text \<Rightarrow> store_cfg \<Rightarrow> Fence \<Rightarrow> int \<Rightarrow> string \<Rightarrow> string \<Rightarrow> string \<Rightarrow> event list \<times> fate \<Rightarrow> attempt_state
    \<Rightarrow> (call_error + unit) \<times> attempt_state" where
  "put_object U cfg f timeout bucket key body during s = (let s' = reacts U cfg f timeout (fst during) s in
     case snd during of
       Unreached \<Rightarrow> (Inl OtherError, s')
     | Unanswered \<Rightarrow> (Inl OtherError, on_world (did (Uploaded bucket key body)) s')
     | Answered \<Rightarrow> (Inr (), on_world (did (Uploaded bucket key body)) s'))"

definition prepareResult :: "uuid_text \<Rightarrow> store_cfg \<Rightarrow> RunnerConfig \<Rightarrow> bool \<Rightarrow> Fence \<Rightarrow> int \<Rightarrow> string \<Rightarrow> (nat \<Rightarrow> event list \<times> fate) \<Rightarrow> string
    \<Rightarrow> attempt_state \<Rightarrow> (ResultRef option \<times> bool) \<times> attempt_state" where
  "prepareResult U cfg c objects f timeout scope during body s =
     (if body = '''' then ((None, True), s)
      else if Classify body (wc_ResultInlineThresholdBytes c) = LocationInline then
        ((Some \<lparr> rr_Location = LocationInline, rr_Inline = Some body, rr_Bucket = '''', rr_Key = '''', rr_SizeBytes = int (length body),
                 rr_Checksum = '''' \<rparr>, True), s)
      else if \<not> objects then ((None, False), s)
      else let key = result_key U scope f; checksum = ChecksumSHA256 body in
        case retry (retries c) 0 (waitUpload (wc_RetryDelay c))
            (\<lambda>k. put_object U cfg f timeout (wc_ResultsBucket c) key body (during k)) s of
          (Inl e, s') \<Rightarrow> ((None, False), s')
        | (Inr _, s') \<Rightarrow> ((Some \<lparr> rr_Location = LocationObject, rr_Inline = None, rr_Bucket = wc_ResultsBucket c, rr_Key = key,
              rr_SizeBytes = int (length body), rr_Checksum = checksum \<rparr>, True), s'))"

section \<open>Outcomes\<close>

definition reportFailure :: "uuid_text \<Rightarrow> store_cfg \<Rightarrow> RunnerConfig \<Rightarrow> uuid \<Rightarrow> (nat \<Rightarrow> link) \<Rightarrow> Fence \<Rightarrow> handler_error \<Rightarrow> world \<Rightarrow> world" where
  "reportFailure U cfg c new lks f e w = (case classifyHandlerError e of (cls, code, message) \<Rightarrow>
     snd (retry_call c lks (Client_Fail U cfg \<lparr> fr_Fence = f, fr_OutcomeRequestID = new, fr_Class = cls, fr_ErrorCode = code,
       fr_ErrorMessage = message \<rparr>) w))"

definition acknowledgeCancellation :: "uuid_text \<Rightarrow> store_cfg \<Rightarrow> RunnerConfig \<Rightarrow> uuid \<Rightarrow> (nat \<Rightarrow> link) \<Rightarrow> Fence \<Rightarrow> world \<Rightarrow> world" where
  "acknowledgeCancellation U cfg c new lks f w =
     snd (retry_call c lks (Client_AcknowledgeCancellation U cfg \<lparr> ca_Fence = f, ca_OutcomeRequestID = new \<rparr>) w)"

definition reportSuccess :: "uuid_text \<Rightarrow> store_cfg \<Rightarrow> RunnerConfig \<Rightarrow> (nat \<Rightarrow> link) \<Rightarrow> Fence \<Rightarrow> ResultRef option \<Rightarrow> world
    \<Rightarrow> worker_error option \<times> world" where
  "reportSuccess U cfg c lks f result w = (case retry_call c lks (Client_Succeed U cfg f result) w of
     (Inl e, w') \<Rightarrow> (escalateSessionLoss e, w') | (Inr _, w') \<Rightarrow> (None, w'))"

section \<open>A delivery\<close>

text \<open>
  The script of a delivery: what a follower waits for, the links of its calls, what happens while the
  handler runs, during each upload and until the renewal loop has stopped, and the identity drawn for
  the outcome.
\<close>

record script =
  sc_decision :: "deliveryFlight option"
  sc_claim :: "nat \<Rightarrow> link"
  sc_start :: "nat \<Rightarrow> link"
  sc_handling :: "event list"
  sc_upload :: "nat \<Rightarrow> event list \<times> fate"
  sc_stopping :: "event list"
  sc_outcome :: uuid
  sc_report :: "nat \<Rightarrow> link"

record Runner =
  rn_cfg :: RunnerConfig
  rn_registry :: Registry
  rn_objects :: bool

definition bind_attempt :: "uuid \<Rightarrow> attempt_state \<Rightarrow> attempt_state" where
  "bind_attempt i s = observe i (on_world (\<lambda>w. w\<lparr> w_attempts := fst (attempts_bind i (w_attempts w)) \<rparr>) s)"

text \<open>From the accepted start to the outcome: the handler, its result, the end of the renewal loop, and the report by precedence.\<close>

definition execute_attempt :: "uuid_text \<Rightarrow> store_cfg \<Rightarrow> Runner \<Rightarrow> script \<Rightarrow> handler \<Rightarrow> Assignment \<Rightarrow> Fence \<Rightarrow> int \<Rightarrow> int \<Rightarrow> world
    \<Rightarrow> worker_error option \<times> world" where
  "execute_attempt U cfg R sc h a f authorityDeadline timeoutDeadline w =
     (let c = rn_cfg R; i = AttemptID f; x = \<lparr> ex_JobID = as_JobID a, ex_AttemptID = as_AttemptID a, ex_Payload = as_Payload a \<rparr> in
      if w_done w \<or> timeoutDeadline \<le> w_now w then (None, w)
      else
        let s0 = bind_attempt i \<lparr> es_world = w, es_cause = None, es_renewal = startRenewal authorityDeadline \<rparr>;
            s1 = reacts U cfg f timeoutDeadline (sc_handling sc) (on_world (did (Executed x)) s0);
            cause = es_cause s1;
            handled = invokeHandler h x cause;
            canceled = wasCanceled i (w_attempts (es_world s1));
            (prepared, s2) = (case handled of
               Inl e \<Rightarrow> ((None, False), s1)
             | Inr body \<Rightarrow>
                 if canceled \<or> cause \<in> {Some errUserCanceled, Some errAttemptTimedOut, Some errAuthorityLost} then ((None, False), s1)
                 else prepareResult U cfg c (rn_objects R) f timeoutDeadline (as_Scope a) (sc_upload sc) body (bind_attempt i s1));
            s3 = reacts U cfg f timeoutDeadline (sc_stopping sc) s2;
            w3 = es_world s3;
            canceled' = (canceled \<or> wasCanceled i (w_attempts w3))
        in case rw_fatal (es_renewal s3) of
             Some e \<Rightarrow> (Some e, w3)
           | None \<Rightarrow>
               if canceled' \<or> cause = Some errUserCanceled then (None, acknowledgeCancellation U cfg c (sc_outcome sc) (sc_report sc) f w3)
               else if cause = Some errAttemptTimedOut then (None, w3)
               else if rw_lost (es_renewal s3) \<or> cause = Some errAuthorityLost then (None, w3)
               else case handled of
                 Inl e \<Rightarrow> if w_done w3 then (None, w3) else (None, reportFailure U cfg c (sc_outcome sc) (sc_report sc) f e w3)
               | Inr body \<Rightarrow> (case prepared of (result, ready) \<Rightarrow>
                   if \<not> ready then (None, w3) else reportSuccess U cfg c (sc_report sc) f result w3))"

definition assignment_fence :: "Assignment \<Rightarrow> Fence" where
  "assignment_fence a = \<lparr> JobID = as_JobID a, AttemptID = as_AttemptID a, LeaseID = as_LeaseID a, WorkerID = as_WorkerID a,
     SessionID = as_SessionID a \<rparr>"

definition start_attempt_run :: "uuid_text \<Rightarrow> store_cfg \<Rightarrow> Runner \<Rightarrow> script \<Rightarrow> handler \<Rightarrow> Assignment \<Rightarrow> int option \<Rightarrow> world
    \<Rightarrow> worker_error option \<times> world" where
  "start_attempt_run U cfg R sc h a executionDeadline w =
     (let f = assignment_fence a; i = AttemptID f; c = rn_cfg R;
          w1 = w\<lparr> w_attempts := attempts_register f (w_attempts w) \<rparr>;
          timeoutStarted = w_now w1;
          (err, w2) = (case retry_call c (sc_start sc) (Client_Start U cfg f) w1 of
             (Inl e, w') \<Rightarrow>
               if isSessionLost e then (Some (ErrSessionLost e), w')
               else if wasCanceled i (w_attempts w') \<or> isCancellationRequested e
               then (None, acknowledgeCancellation U cfg c (sc_outcome sc) (sc_report sc) f w')
               else (None, w')
           | (Inr start, w') \<Rightarrow>
               let authorityDeadline = (case executionDeadline of
                     Some t \<Rightarrow> t | None \<Rightarrow> w_now w' + executionBudget (as_LeaseRemaining a)) in
               if authorityDeadline \<le> w_now w' then (None, w')
               else execute_attempt U cfg R sc h a f authorityDeadline (timeoutStarted + executionBudget (sr_Remaining start)) w')
      in (err, w2\<lparr> w_attempts := attempts_unregister i (w_attempts w2) \<rparr>))"

definition lead_delivery :: "uuid_text \<Rightarrow> store_cfg \<Rightarrow> Runner \<Rightarrow> script \<Rightarrow> session_row \<Rightarrow> string \<Rightarrow> workNotification \<Rightarrow> world
    \<Rightarrow> worker_error option \<times> world" where
  "lead_delivery U cfg R sc session receipt n w =
     (let c = rn_cfg R; i = wn_EventID n;
          req = \<lparr> cr_WorkerID = s_worker_id session, cr_SessionID = s_id session, cr_ClaimRequestID = i, cr_Queue = wn_Queue n \<rparr> in
      case retry_call c (sc_claim sc) (Client_Claim U cfg req) w of
        (Inl e, w1) \<Rightarrow>
          (escalateSessionLoss e, w1\<lparr> w_flights := decideDelivery i False (escalateSessionLoss e) (w_flights w1) \<rparr>)
      | (Inr (claim, deadline), w1) \<Rightarrow>
          let safeAck = SafeToAcknowledge claim;
              w2 = w1\<lparr> w_flights := decideDelivery i safeAck None (w_flights w1) \<rparr>;
              w3 = (if safeAck then did (Deleted receipt) w2 else w2)
          in if res_Disposition claim \<noteq> Claimed then (None, w3)
             else case res_Assignment claim of
               None \<Rightarrow> (None, w3)
             | Some a \<Rightarrow> (case Registry_Lookup (rn_registry R) (as_JobType a) of
                 None \<Rightarrow> (None, w3)
               | Some h \<Rightarrow> start_attempt_run U cfg R sc h a deadline w3))"

definition processMessage :: "uuid_text \<Rightarrow> store_cfg \<Rightarrow> Runner \<Rightarrow> script \<Rightarrow> session_row \<Rightarrow> Message \<Rightarrow> world \<Rightarrow> worker_error option \<times> world" where
  "processMessage U cfg R sc session message w = (case decodeWorkNotification U (mg_Body message) of
     None \<Rightarrow> (None, w)
   | Some n \<Rightarrow>
       if wn_Queue n \<noteq> wc_Queue (rn_cfg R) then (None, w)
       else case beginDelivery (wn_EventID n) (w_flights w) of (flight, leader, fs) \<Rightarrow>
         let w1 = w\<lparr> w_flights := fs \<rparr> in
         if \<not> leader then
           (case (if df_settled flight then Some flight else sc_decision sc) of
              None \<Rightarrow> (None, w1)
            | Some decided \<Rightarrow> (df_err decided, if df_safeAck decided then did (Deleted (mg_ReceiptHandle message)) w1 else w1))
         else case lead_delivery U cfg R sc session (mg_ReceiptHandle message) n w1 of
           (err, w2) \<Rightarrow> (err, w2\<lparr> w_flights := snd (endDelivery (wn_EventID n) (w_flights w2)) \<rparr>))"

section \<open>Slots and liveness\<close>

datatype poll = ReceiveFailed | ReceivedNothing | Received script Message

text \<open>The polls of a slot until its intake stops; a fatal error ends it early.\<close>

fun runSlot :: "uuid_text \<Rightarrow> store_cfg \<Rightarrow> Runner \<Rightarrow> session_row \<Rightarrow> poll list \<Rightarrow> world \<Rightarrow> worker_error option \<times> world" where
  "runSlot U cfg R session [] w = (None, w)"
| "runSlot U cfg R session (ReceiveFailed # ps) w =
     runSlot U cfg R session ps (w\<lparr> w_now := w_now w + (if wc_ErrorBackoff (rn_cfg R) \<le> 0 then 0 else wc_ErrorBackoff (rn_cfg R)) \<rparr>)"
| "runSlot U cfg R session (ReceivedNothing # ps) w = runSlot U cfg R session ps w"
| "runSlot U cfg R session (Received sc m # ps) w = (case processMessage U cfg R sc session m w of
     (Some e, w') \<Rightarrow> (Some e, w') | (None, w') \<Rightarrow> runSlot U cfg R session ps w')"

text \<open>The heartbeat loop over its ticks: the time to the tick and the link of its call.\<close>

fun heartbeat_loop :: "uuid_text \<Rightarrow> store_cfg \<Rightarrow> RunnerConfig \<Rightarrow> HeartbeatRequest \<Rightarrow> (nat \<times> link) list \<Rightarrow> int \<Rightarrow> world
    \<Rightarrow> worker_error option \<times> world" where
  "heartbeat_loop U cfg c req [] lastConfirmed w = (None, w)"
| "heartbeat_loop U cfg c req ((n, lk) # ticks) lastConfirmed w =
     (let w1 = w\<lparr> w_now := w_now w + int n \<rparr>; staleAt = lastConfirmed + wc_SessionStaleAfter c in
      if w_done w1 then (None, w1)
      else if staleAt \<le> w_now w1 then (Some ErrHeartbeatStale, w1)
      else case Client_Heartbeat U cfg req lk w1 of
        (res, w2) \<Rightarrow>
          if w_done w2 then (None, w2)
          else case res of
            Inr r \<Rightarrow>
              let w3 = w2\<lparr> w_attempts := deliverCancellations (hr_Cancellations r) (w_attempts w2) \<rparr> in
              if staleAt \<le> w_now w3 then (Some ErrHeartbeatStale, w3)
              else heartbeat_loop U cfg c req ticks (w_now w3) w3
          | Inl e \<Rightarrow>
              if isSessionLost e then (Some (ErrSessionLost e), w2)
              else if staleAt \<le> w_now w2 then (Some ErrHeartbeatStale, w2)
              else heartbeat_loop U cfg c req ticks lastConfirmed w2)"

definition runHeartbeat :: "uuid_text \<Rightarrow> store_cfg \<Rightarrow> RunnerConfig \<Rightarrow> session_row \<Rightarrow> (nat \<times> link) list \<Rightarrow> world \<Rightarrow> worker_error option \<times> world" where
  "runHeartbeat U cfg c session ticks w =
     heartbeat_loop U cfg c \<lparr> hb_WorkerID = s_worker_id session, hb_SessionID = s_id session \<rparr> ticks (w_now w) w"

end
