(* ===== verification/Spec2Isabelle.thy ===== *)
theory Spec2Isabelle
  imports Safety Dispatch Recovery Reports Delivery JsonRoundTrip Submission Intake Authentication Pagination ControlSafety Runner
begin

text \<open>
  \<^bold>\<open>TaskForge\<close> is a job-processing control plane in Go. Clients submit jobs over HTTP; workers register
  sessions, claim jobs under leases, renew them and report outcomes; a scheduler promotes jobs that
  became due; a reconciler recovers lost sessions, expired leases and missed deadlines; a publisher
  moves notifications from a transactional outbox to a message broker. All state is in PostgreSQL,
  and every operation is one transaction.

  \<^bold>\<open>How the model is built.\<close> The database is a record of tables (\<^verbatim>\<open>Schema\<close>), each a list of rows; the
  statements the stores issue are the functions of \<^verbatim>\<open>Prelude\<close>. A store operation is a pure total
  function from its arguments and the database to an error or an answer with the new database; an
  error is a rollback. The clock samples a transaction draws, the identifiers it generates and the
  random jitter are arguments, so that a theorem for all arguments covers every clock and every
  identifier source; row locks make each transaction atomic, so that a sequence of requests is an
  arbitrary interleaving. Instants are integers in microseconds (the resolution of \<^verbatim>\<open>timestamptz\<close>),
  Go durations integers in nanoseconds, UUIDs opaque naturals. Go strings are byte strings, with UTF-8
  decoding and encoding as in the standard library (\<^verbatim>\<open>GoStrings\<close>); floating point is IEEE 754 binary64
  on exact rationals with rounding (\<^verbatim>\<open>Float64\<close>); \<^verbatim>\<open>math.Pow\<close> is a parameter.

  \<^bold>\<open>The theories of the model\<close>, with the files under \<^verbatim>\<open>src/\<close> they translate:
  \<^item> \<^verbatim>\<open>Lifecycle\<close>: \<^verbatim>\<open>internal/lifecycle\<close> (failure classes, stored error texts, retry policy, decision);
  \<^item> \<^verbatim>\<open>Schema\<close>: \<^verbatim>\<open>migrations\<close> and the row types;
  \<^item> \<^verbatim>\<open>Outbox\<close>: \<^verbatim>\<open>internal/outbox\<close> (store, backoff, publisher pass and drain);
  \<^item> \<^verbatim>\<open>Fence\<close>, \<^verbatim>\<open>Sessions\<close>, \<^verbatim>\<open>Claim\<close>, \<^verbatim>\<open>Outcome\<close>, \<^verbatim>\<open>Reconcile\<close>: \<^verbatim>\<open>internal/workers\<close> and \<^verbatim>\<open>internal/results\<close>;
  \<^item> \<^verbatim>\<open>Jobs\<close>: \<^verbatim>\<open>internal/jobs\<close> (submission, cancellation, scheduling, dead-letter replay);
  \<^item> \<^verbatim>\<open>Json\<close>: \<^verbatim>\<open>internal/jobs/canonical.go\<close> with the decoder of \<^verbatim>\<open>encoding/json\<close> it uses.

  \<^bold>\<open>The theories of the proof.\<close> \<^verbatim>\<open>Transitions\<close> is an abstract lifecycle: what a committed transaction may
  do to jobs, attempts, leases and records, without guards and answers. \<^verbatim>\<open>Authority\<close>, \<^verbatim>\<open>Invariant\<close>,
  \<^verbatim>\<open>Budget\<close>, \<^verbatim>\<open>Integrity\<close> and \<^verbatim>\<open>Records\<close> state the database invariant and prove that every abstract
  transition keeps it. \<^verbatim>\<open>Refinement\<close> proves that every store operation is such a transition or changes
  nothing. \<^verbatim>\<open>Evolution\<close> has the interfaces (locales) of systems with an invariant, with rows that only
  move forward and with rows that are final; \<^verbatim>\<open>System\<close> puts all requests into one step relation and
  interprets the interfaces. \<^verbatim>\<open>Settlement\<close> gives the equations of a settled attempt, \<^verbatim>\<open>Scenario\<close> the
  concrete histories on which properties are evaluated.

  \<^bold>\<open>What is shown.\<close> \<^verbatim>\<open>Safety\<close>: the invariant, terminal jobs, fencing, exclusive authority, attempt budget,
  concurrency limits, cancellation, announcements, dead letters, results, the state machine. \<^verbatim>\<open>Dispatch\<close>:
  a claim serves the best eligible job, is safe to acknowledge and repeatable. \<^verbatim>\<open>Recovery\<close>: a pass of the
  reconciler recovers everything that expired. \<^verbatim>\<open>Reports\<close>: reports are idempotent for ever and refused
  once authority has lapsed. \<^verbatim>\<open>Delivery\<close>: outbox events are published only after the broker accepted them
  and a drain ends and delivers. \<^verbatim>\<open>JsonCanonical\<close> and \<^verbatim>\<open>JsonRoundTrip\<close>: the canonical form of a payload is a
  normal form.

  \<^bold>\<open>Bounds and fuel.\<close> The JSON decoder recurses on fuel \<^verbatim>\<open>2 * length + 2\<close>; every call that succeeds with
  some fuel succeeds with that much (\<^verbatim>\<open>parse_fuel\<close>). The drain of the outbox is a partial function and is
  proved to return. Everything else is total.
\<close>

end
